(* ===== verification/Go_Float.thy ===== *)
theory Go_Float imports Complex_Main begin

text \<open>
  Go's \<open>float64\<close> as IEEE 754 binary64, for the operations the program uses: comparison,
  conversion from integers, addition, subtraction, multiplication, division and
  \<open>math.Sqrt\<close>, each correctly rounded (round half to even, overflow to infinity, gradual
  underflow).  A finite value is its rational number.  The two zeros are one value here: the
  program never divides by a zero it computed, so no operation it performs tells them apart.
  The lemmas give what the scoring code rests on: rounding is monotone and leaves every
  representable number alone.
\<close>

section \<open>Values and comparisons\<close>

datatype f64 = FNaN | FInf bool | Fin rat

fun flt :: "f64 \<Rightarrow> f64 \<Rightarrow> bool" where
  "flt (Fin x) (Fin y) = (x < y)"
| "flt (Fin x) (FInf p) = p"
| "flt (FInf p) (Fin y) = (\<not> p)"
| "flt (FInf p) (FInf q) = (\<not> p \<and> q)"
| "flt _ _ = False"

fun fle :: "f64 \<Rightarrow> f64 \<Rightarrow> bool" where
  "fle (Fin x) (Fin y) = (x \<le> y)"
| "fle (Fin x) (FInf p) = p"
| "fle (FInf p) (Fin y) = (\<not> p)"
| "fle (FInf p) (FInf q) = (p \<longrightarrow> q)"
| "fle _ _ = False"

definition feq :: "f64 \<Rightarrow> f64 \<Rightarrow> bool" where
  "feq x y \<longleftrightarrow> x \<noteq> FNaN \<and> x = y"

definition is_finite :: "f64 \<Rightarrow> bool" where
  "is_finite x \<longleftrightarrow> (case x of Fin _ \<Rightarrow> True | _ \<Rightarrow> False)"

lemma is_finite_simps [simp]:
  "is_finite (Fin q)" "\<not> is_finite FNaN" "\<not> is_finite (FInf b)"
  by (simp_all add: is_finite_def)

lemma is_finite_iff: "is_finite x \<longleftrightarrow> (\<exists>q. x = Fin q)"
  by (cases x) auto

lemma flt_irrefl [simp]: "\<not> flt x x"
  by (cases x) auto

lemma flt_trans: "flt x y \<Longrightarrow> flt y z \<Longrightarrow> flt x z"
  by (cases x; cases y; cases z) auto

lemma flt_NaN [simp]: "\<not> flt FNaN y" "\<not> flt x FNaN"
  by (cases y; simp) (cases x; simp)

text \<open>
  The order is a strict weak order up to NaN: a value that does not exceed the current best
  does not exceed a strictly better one either, NaN included.
\<close>

lemma flt_not_above: "\<not> flt b y \<Longrightarrow> flt b x \<Longrightarrow> \<not> flt x y"
  by (cases x; cases y; cases b) auto

lemma flt_linear: "x \<noteq> FNaN \<Longrightarrow> y \<noteq> FNaN \<Longrightarrow> flt x y \<or> x = y \<or> flt y x"
  by (cases x; cases y) auto

lemma fle_iff: "fle x y \<longleftrightarrow> x \<noteq> FNaN \<and> y \<noteq> FNaN \<and> \<not> flt y x"
  by (cases x; cases y) auto

lemma fle_refl: "x \<noteq> FNaN \<Longrightarrow> fle x x"
  by (cases x) auto

lemma fle_trans: "fle x y \<Longrightarrow> fle y z \<Longrightarrow> fle x z"
  by (cases x; cases y; cases z) auto

section \<open>Rounding\<close>

text \<open>Powers of two with an integer exponent, by repeated squaring so that they evaluate.\<close>

function ipow2 :: "int \<Rightarrow> int" where
  "ipow2 e =
     (if e \<le> 0 then 1
      else let h = ipow2 (e div 2) in if even e then h * h else 2 * h * h)"
  by pat_completeness auto
termination
  by (relation "measure nat") auto

declare ipow2.simps [simp del]

definition pow2 :: "int \<Rightarrow> rat" where
  "pow2 e = (if 0 \<le> e then of_int (ipow2 e) else 1 / of_int (ipow2 (- e)))"

function bitlen :: "int \<Rightarrow> int" where
  "bitlen n = (if n \<le> 0 then 0 else 1 + bitlen (n div 2))"
  by pat_completeness auto
termination
  by (relation "measure nat") auto

declare bitlen.simps [simp del]

text \<open>The binary exponent of a positive rational: \<open>pow2 (ilog2 q) \<le> q < pow2 (ilog2 q + 1)\<close>.\<close>

definition ilog2 :: "rat \<Rightarrow> int" where
  "ilog2 q =
     (let (a, b) = quotient_of q;
          k = bitlen a - bitlen b
      in if pow2 k \<le> q then k else k - 1)"

definition round_half_even :: "rat \<Rightarrow> int" where
  "round_half_even q =
     (let m = \<lfloor>q\<rfloor>; d = q - of_int m
      in if d < 1 / 2 then m else if 1 / 2 < d then m + 1 else if even m then m else m + 1)"

definition f64_exp :: "rat \<Rightarrow> int" where
  "f64_exp q = max (ilog2 \<bar>q\<bar> - 52) (- 1074)"

definition f64_round :: "rat \<Rightarrow> rat" where
  "f64_round q =
     (if q = 0 then 0
      else of_int (round_half_even (q / pow2 (f64_exp q))) * pow2 (f64_exp q))"

definition mk_f64 :: "rat \<Rightarrow> f64" where
  "mk_f64 q =
     (let r = f64_round q
      in if pow2 1024 \<le> r then FInf True
         else if r \<le> - pow2 1024 then FInf False
         else Fin r)"

section \<open>Arithmetic\<close>

definition f64_of_int :: "int \<Rightarrow> f64" where
  "f64_of_int z = mk_f64 (of_int z)"

fun fneg :: "f64 \<Rightarrow> f64" where
  "fneg FNaN = FNaN"
| "fneg (FInf p) = FInf (\<not> p)"
| "fneg (Fin x) = Fin (- x)"

fun fadd :: "f64 \<Rightarrow> f64 \<Rightarrow> f64" where
  "fadd (Fin x) (Fin y) = mk_f64 (x + y)"
| "fadd (Fin x) (FInf p) = FInf p"
| "fadd (FInf p) (Fin y) = FInf p"
| "fadd (FInf p) (FInf q) = (if p = q then FInf p else FNaN)"
| "fadd _ _ = FNaN"

definition fsub :: "f64 \<Rightarrow> f64 \<Rightarrow> f64" where
  "fsub x y = fadd x (fneg y)"

fun fmul :: "f64 \<Rightarrow> f64 \<Rightarrow> f64" where
  "fmul (Fin x) (Fin y) = mk_f64 (x * y)"
| "fmul (Fin x) (FInf p) = (if x = 0 then FNaN else FInf (p \<longleftrightarrow> 0 < x))"
| "fmul (FInf p) (Fin y) = (if y = 0 then FNaN else FInf (p \<longleftrightarrow> 0 < y))"
| "fmul (FInf p) (FInf q) = FInf (p \<longleftrightarrow> q)"
| "fmul _ _ = FNaN"

fun fdiv :: "f64 \<Rightarrow> f64 \<Rightarrow> f64" where
  "fdiv (Fin x) (Fin y) =
     (if y = 0 then (if x = 0 then FNaN else FInf (0 < x)) else mk_f64 (x / y))"
| "fdiv (Fin x) (FInf p) = Fin 0"
| "fdiv (FInf p) (Fin y) = FInf (p \<longleftrightarrow> 0 \<le> y)"
| "fdiv (FInf p) (FInf q) = FNaN"
| "fdiv _ _ = FNaN"

text \<open>
  The square root: the integer square root of the argument scaled to 106 bits gives the 53-bit
  significand, rounded up when the argument lies above the midpoint (a midpoint itself cannot be
  the root of a binary64 number, so no tie arises).
\<close>

function isqrt :: "int \<Rightarrow> int" where
  "isqrt n =
     (if n \<le> 0 then 0
      else let r = 2 * isqrt (n div 4) in if (r + 1) * (r + 1) \<le> n then r + 1 else r)"
  by pat_completeness auto
termination
  by (relation "measure nat") auto

declare isqrt.simps [simp del]

definition sqrt_exp :: "rat \<Rightarrow> int" where
  "sqrt_exp q = ilog2 q div 2 - 52"

definition f64_sqrt :: "rat \<Rightarrow> rat" where
  "f64_sqrt q =
     (if q = 0 then 0
      else let e = sqrt_exp q;
               m = of_int (isqrt \<lfloor>q / pow2 (2 * e)\<rfloor>);
               n = (if (m + 1 / 2) * (m + 1 / 2) < q / pow2 (2 * e) then m + 1 else m)
           in n * pow2 e)"

fun fsqrt :: "f64 \<Rightarrow> f64" where
  "fsqrt FNaN = FNaN"
| "fsqrt (FInf p) = (if p then FInf True else FNaN)"
| "fsqrt (Fin q) = (if q < 0 then FNaN else Fin (f64_sqrt q))"

section \<open>Powers of two and exponents\<close>

lemma ipow2_eq: "ipow2 e = 2 ^ nat e"
proof (induction e rule: ipow2.induct)
  case (1 e)
  show ?case
  proof (cases "e \<le> 0")
    case True
    then show ?thesis by (simp add: ipow2.simps)
  next
    case False
    then have half: "ipow2 (e div 2) = 2 ^ nat (e div 2)" using 1 by simp
    have "nat e = (if even e then 2 * nat (e div 2) else Suc (2 * nat (e div 2)))"
    proof (cases "even e")
      case True
      then obtain k where "e = 2 * k" by blast
      then show ?thesis by (simp add: nat_mult_distrib)
    next
      case odd: False
      then obtain k where "e = 2 * k + 1" by (auto elim: oddE)
      moreover from this False have "0 \<le> k" by simp
      ultimately show ?thesis by (simp add: nat_add_distrib nat_mult_distrib)
    qed
    moreover have "ipow2 e = (if even e then 2 ^ nat (e div 2) * 2 ^ nat (e div 2)
        else 2 * 2 ^ nat (e div 2) * 2 ^ nat (e div 2))"
      using False half by (subst ipow2.simps) (simp add: Let_def)
    ultimately show ?thesis
      by (cases "even e") (simp_all add: power_even_eq power2_eq_square)
  qed
qed

lemma pow2_powi: "pow2 e = 2 powi e"
  by (auto simp: pow2_def ipow2_eq power_int_def field_simps)

lemma pow2_pos [simp]: "0 < pow2 e"
  by (simp add: pow2_powi)

lemma pow2_nonzero [simp]: "pow2 e \<noteq> 0"
  using pow2_pos [of e] by linarith

lemma pow2_0 [simp]: "pow2 0 = 1"
  by (simp add: pow2_powi)

lemma pow2_add: "pow2 (a + b) = pow2 a * pow2 b"
  by (simp add: pow2_powi power_int_add)

lemma pow2_Suc: "pow2 (a + 1) = 2 * pow2 a"
  by (simp add: pow2_powi power_int_add)

lemma pow2_minus: "pow2 (- e) = 1 / pow2 e"
  by (simp add: pow2_powi power_int_minus field_simps)

lemma pow2_diff: "pow2 (a - b) = pow2 a / pow2 b"
  using pow2_add [of a "- b"] by (simp add: pow2_minus)

lemma pow2_of_int: "0 \<le> e \<Longrightarrow> pow2 e = of_int (2 ^ nat e)"
  by (simp add: pow2_def ipow2_eq)

lemma pow2_le_iff [simp]: "pow2 a \<le> pow2 b \<longleftrightarrow> a \<le> b"
proof
  assume "a \<le> b"
  then have "pow2 b = pow2 a * 2 ^ nat (b - a)"
    using pow2_add [of a "b - a"] by (simp add: pow2_of_int)
  then show "pow2 a \<le> pow2 b" by simp
next
  assume le: "pow2 a \<le> pow2 b"
  show "a \<le> b"
  proof (rule ccontr)
    assume "\<not> a \<le> b"
    then have "pow2 a = pow2 b * pow2 (a - b)" "0 < a - b"
      using pow2_add [of b "a - b"] by simp_all
    moreover from this(2) have "(1::rat) < pow2 (a - b)"
      by (simp add: pow2_of_int)
    ultimately show False using le pow2_pos [of b] by simp
  qed
qed

lemma pow2_less_iff [simp]: "pow2 a < pow2 b \<longleftrightarrow> a < b"
  using pow2_le_iff [of b a] by (simp del: pow2_le_iff add: not_le [symmetric])

lemma bitlen_bounds: "0 < n \<Longrightarrow> pow2 (bitlen n - 1) \<le> of_int n \<and> of_int n < pow2 (bitlen n)"
proof (induction n rule: bitlen.induct)
  case (1 n)
  show ?case
  proof (cases "n = 1")
    case True
    then show ?thesis by (simp add: bitlen.simps pow2_def ipow2.simps)
  next
    case False
    with 1 have IH: "pow2 (bitlen (n div 2) - 1) \<le> of_int (n div 2)"
        "of_int (n div 2) < pow2 (bitlen (n div 2))" and len: "bitlen n = 1 + bitlen (n div 2)"
      by (simp_all add: bitlen.simps [of n])
    have double: "pow2 (bitlen (n div 2)) = 2 * pow2 (bitlen (n div 2) - 1)"
      using pow2_Suc [of "bitlen (n div 2) - 1"] by simp
    have low: "2 * (of_int (n div 2) :: rat) \<le> of_int n"
    proof -
      have "2 * (n div 2) \<le> n" by simp
      then have "(of_int (2 * (n div 2)) :: rat) \<le> of_int n" by (simp only: of_int_le_iff)
      then show ?thesis by simp
    qed
    have nonneg: "0 \<le> bitlen (n div 2)"
    proof -
      have "1 \<le> n div 2" using 1(2) False by simp
      then have "(1::rat) \<le> of_int (n div 2)" by (simp only: of_int_1_le_iff)
      then have "pow2 0 < pow2 (bitlen (n div 2))" using IH(2) unfolding pow2_0 by linarith
      then have "0 < bitlen (n div 2)" by (simp only: pow2_less_iff)
      then show ?thesis by simp
    qed
    have "n div 2 < 2 ^ nat (bitlen (n div 2))"
      using IH(2) nonneg by (simp add: pow2_of_int del: of_int_power)
    then have "n < 2 * 2 ^ nat (bitlen (n div 2))" by linarith
    then have "(of_int n :: rat) < of_int (2 * 2 ^ nat (bitlen (n div 2)))"
      by (simp only: of_int_less_iff)
    then have "(of_int n :: rat) < 2 * pow2 (bitlen (n div 2))"
      using nonneg by (simp add: pow2_of_int)
    then show ?thesis using IH low double by (simp add: len pow2_add [of 1] pow2_of_int [of 1])
  qed
qed

lemma ilog2_bounds:
  assumes "0 < q"
  shows "pow2 (ilog2 q) \<le> q \<and> q < pow2 (ilog2 q + 1)"
proof -
  obtain a b where ab: "quotient_of q = (a, b)" by (cases "quotient_of q")
  have b: "0 < b" using ab by (rule quotient_of_denom_pos)
  have q: "q = of_int a / of_int b" using ab by (rule quotient_of_div)
  have "0 < a"
  proof -
    have "0 < (of_int a :: rat)" using assms b unfolding q by (simp add: zero_less_divide_iff)
    then show ?thesis by simp
  qed
  note A = bitlen_bounds [OF this] and B = bitlen_bounds [OF b]
  define k where "k = bitlen a - bitlen b"
  have pa: "pow2 (bitlen a) = pow2 k * pow2 (bitlen b)"
    by (simp add: k_def pow2_diff)
  have b1: "pow2 (bitlen b) = 2 * pow2 (bitlen b - 1)"
    using pow2_Suc [of "bitlen b - 1"] by simp
  have bpos: "(0::rat) < of_int b" using b by simp
  have up: "q < pow2 (k + 1)"
  proof -
    have "of_int a < pow2 (k + 1) * pow2 (bitlen b - 1)"
      using A pa b1 by (simp add: pow2_Suc)
    also have "\<dots> \<le> pow2 (k + 1) * of_int b"
      using B less_imp_le [OF pow2_pos] by (intro mult_left_mono) simp_all
    finally show ?thesis using bpos by (simp add: q divide_less_eq)
  qed
  have down: "pow2 (k - 1) \<le> q"
  proof -
    have "pow2 (k - 1) * of_int b \<le> pow2 (k - 1) * pow2 (bitlen b)"
      using B less_imp_le [OF pow2_pos] by (intro mult_left_mono) simp_all
    also have "\<dots> = pow2 (bitlen a - 1)"
      by (simp add: k_def pow2_diff)
    also have "\<dots> \<le> of_int a" using A by simp
    finally show ?thesis using bpos by (simp add: q le_divide_eq)
  qed
  have "ilog2 q = (if pow2 k \<le> q then k else k - 1)"
    by (simp add: ilog2_def ab k_def)
  then show ?thesis using up down by auto
qed

lemma ilog2_mono: "0 < p \<Longrightarrow> p \<le> q \<Longrightarrow> ilog2 p \<le> ilog2 q"
  using ilog2_bounds [of p] ilog2_bounds [of q] pow2_less_iff [of "ilog2 p" "ilog2 q + 1"]
  by linarith

lemma ilog2_less: "0 < q \<Longrightarrow> q < pow2 e \<Longrightarrow> ilog2 q < e"
  using ilog2_bounds [of q] pow2_less_iff [of "ilog2 q" e] by linarith

lemma ilog2_ge: "pow2 e \<le> q \<Longrightarrow> e \<le> ilog2 q"
  using ilog2_bounds [of q] pow2_less_iff [of e "ilog2 q + 1"] pow2_pos [of e] by linarith

section \<open>Rounding is monotone and exact on representable values\<close>

lemma round_half_even_of_int [simp]: "round_half_even (of_int z) = z"
  by (simp add: round_half_even_def Let_def)

lemma round_half_even_bounds: "\<lfloor>q\<rfloor> \<le> round_half_even q \<and> round_half_even q \<le> \<lfloor>q\<rfloor> + 1"
  by (simp add: round_half_even_def Let_def)

lemma round_half_even_mono:
  assumes "x \<le> y"
  shows "round_half_even x \<le> round_half_even y"
proof (cases "\<lfloor>x\<rfloor> = \<lfloor>y\<rfloor>")
  case True
  with assms show ?thesis by (simp add: round_half_even_def Let_def)
next
  case False
  with floor_mono [OF assms] have "\<lfloor>x\<rfloor> + 1 \<le> \<lfloor>y\<rfloor>" by linarith
  then show ?thesis using round_half_even_bounds [of x] round_half_even_bounds [of y] by linarith
qed

lemma round_half_even_minus: "round_half_even (- x) = - round_half_even x"
proof (cases "x = of_int \<lfloor>x\<rfloor>")
  case True
  have "- x = of_int (- \<lfloor>x\<rfloor>)" by (subst True) simp
  then have "round_half_even (- x) = - \<lfloor>x\<rfloor>" by (simp only: round_half_even_of_int)
  moreover have "round_half_even x = \<lfloor>x\<rfloor>" by (subst True) simp
  ultimately show ?thesis by simp
next
  case False
  then have "of_int \<lfloor>x\<rfloor> < x" using of_int_floor_le [of x] by linarith
  then have fl: "\<lfloor>- x\<rfloor> = - \<lfloor>x\<rfloor> - 1"
    by (intro floor_unique) (simp_all, linarith)
  have d: "- x - of_int (- \<lfloor>x\<rfloor> - 1) = 1 - (x - of_int \<lfloor>x\<rfloor>)" by simp
  show ?thesis
    unfolding round_half_even_def Let_def fl d by auto
qed

lemma f64_round_minus: "f64_round (- q) = - f64_round q"
  by (simp add: f64_round_def f64_exp_def round_half_even_minus)

lemma f64_round_0 [simp]: "f64_round 0 = 0"
  by (simp add: f64_round_def)

lemma f64_exp_bound: "0 < q \<Longrightarrow> q < pow2 (f64_exp q + 53)"
  using ilog2_bounds [of q] pow2_le_iff [of "ilog2 q + 1" "f64_exp q + 53"]
  by (simp add: f64_exp_def del: pow2_le_iff) linarith

lemma f64_round_upper:
  assumes "0 < q"
  shows "f64_round q \<le> pow2 (f64_exp q + 53)"
proof -
  have "q / pow2 (f64_exp q) \<le> pow2 53"
    using f64_exp_bound [OF assms] by (simp add: pow2_add divide_le_eq mult.commute)
  also have "pow2 53 = of_int (2 ^ 53)" by (simp add: pow2_of_int)
  finally have "round_half_even (q / pow2 (f64_exp q)) \<le> 2 ^ 53"
    using round_half_even_mono round_half_even_of_int by metis
  then have "(of_int (round_half_even (q / pow2 (f64_exp q))) :: rat) \<le> of_int (2 ^ 53)"
    by (simp only: of_int_le_iff)
  then show ?thesis
    using assms by (simp add: f64_round_def pow2_add pow2_of_int [of 53])
qed

lemma f64_round_lower:
  assumes "0 < q" and "- 1074 < f64_exp q"
  shows "pow2 (f64_exp q + 52) \<le> f64_round q"
proof -
  have "f64_exp q + 52 = ilog2 q" using assms by (simp add: f64_exp_def max_def split: if_splits)
  then have "pow2 (f64_exp q + 52) \<le> q" using ilog2_bounds [OF assms(1)] by simp
  then have "of_int (2 ^ 52) \<le> q / pow2 (f64_exp q)"
    by (simp add: pow2_add pow2_of_int [of 52] le_divide_eq mult.commute)
  then have "2 ^ 52 \<le> round_half_even (q / pow2 (f64_exp q))"
    using round_half_even_mono round_half_even_of_int by metis
  then have "(of_int (2 ^ 52) :: rat) \<le> of_int (round_half_even (q / pow2 (f64_exp q)))"
    by (simp only: of_int_le_iff)
  then show ?thesis
    using assms by (simp add: f64_round_def pow2_add pow2_of_int [of 52])
qed

lemma f64_round_nonneg: "0 \<le> q \<Longrightarrow> 0 \<le> f64_round q"
  using round_half_even_mono [of 0 "q / pow2 (f64_exp q)"] round_half_even_of_int [of 0]
  by (simp add: f64_round_def less_imp_le)

lemma f64_round_mono_pos:
  assumes "0 < x" and "x \<le> y"
  shows "f64_round x \<le> f64_round y"
proof (cases "f64_exp x = f64_exp y")
  case True
  have "x / pow2 (f64_exp y) \<le> y / pow2 (f64_exp y)"
    using assms by (simp add: divide_right_mono less_imp_le)
  then show ?thesis
    using assms True by (simp add: f64_round_def round_half_even_mono)
next
  case False
  have "f64_exp x \<le> f64_exp y"
    using assms ilog2_mono [OF assms] by (simp add: f64_exp_def)
  with False have less: "f64_exp x < f64_exp y" by simp
  then have "- 1074 < f64_exp y" by (simp add: f64_exp_def)
  then have "pow2 (f64_exp y + 52) \<le> f64_round y"
    using assms by (intro f64_round_lower) simp_all
  moreover have "pow2 (f64_exp x + 53) \<le> pow2 (f64_exp y + 52)" using less by simp
  ultimately show ?thesis using f64_round_upper [OF assms(1)] by linarith
qed

lemma f64_round_mono: "x \<le> y \<Longrightarrow> f64_round x \<le> f64_round y"
proof -
  assume le: "x \<le> y"
  consider "0 < x" | "x \<le> 0" "0 \<le> y" | "y < 0" by linarith
  then show ?thesis
  proof cases
    case 1
    then show ?thesis using le by (rule f64_round_mono_pos)
  next
    case 2
    then have "f64_round x \<le> 0" using f64_round_nonneg [of "- x"] by (simp add: f64_round_minus)
    then show ?thesis using f64_round_nonneg [OF 2(2)] by linarith
  next
    case 3
    then have "f64_round (- y) \<le> f64_round (- x)" using le by (intro f64_round_mono_pos) simp_all
    then show ?thesis by (simp add: f64_round_minus)
  qed
qed

definition representable :: "rat \<Rightarrow> bool" where
  "representable q \<longleftrightarrow> (\<exists>m e. q = of_int m * pow2 e \<and> \<bar>m\<bar> < 2 ^ 53 \<and> - 1074 \<le> e)"

lemma f64_round_representable:
  assumes "representable q"
  shows "f64_round q = q"
proof (cases "q = 0")
  case False
  obtain m e where q: "q = of_int m * pow2 e" and m: "\<bar>m\<bar> < 2 ^ 53" and e: "- 1074 \<le> e"
    using assms by (auto simp: representable_def)
  have "(of_int \<bar>m\<bar> :: rat) < of_int (2 ^ 53)" using m by (simp only: of_int_less_iff)
  then have "\<bar>q\<bar> < pow2 (53 + e)"
    by (simp add: q abs_mult pow2_add pow2_of_int [of 53] less_imp_le)
  then have "ilog2 \<bar>q\<bar> < 53 + e" using False by (intro ilog2_less) simp_all
  then have ex: "f64_exp q \<le> e" using e by (simp add: f64_exp_def)
  have "q / pow2 (f64_exp q) = of_int (m * 2 ^ nat (e - f64_exp q))"
    using ex by (simp add: q pow2_diff [symmetric] pow2_of_int del: of_int_power)
      (simp add: pow2_of_int pow2_diff [symmetric] times_divide_eq_right [symmetric] del: times_divide_eq_right)
  then have "of_int (round_half_even (q / pow2 (f64_exp q))) = q / pow2 (f64_exp q)"
    by (simp only: round_half_even_of_int)
  then show ?thesis using False by (simp add: f64_round_def)
qed simp

lemma representable_of_int: "\<bar>z\<bar> < 2 ^ 53 \<Longrightarrow> representable (of_int z)"
  unfolding representable_def by (rule exI [of _ z], rule exI [of _ 0]) simp

lemma f64_round_of_int: "\<bar>z\<bar> < 2 ^ 53 \<Longrightarrow> f64_round (of_int z) = of_int z"
  by (rule f64_round_representable) (rule representable_of_int)

section \<open>Finite results\<close>

lemma mk_f64_mono: "x \<le> y \<Longrightarrow> fle (mk_f64 x) (mk_f64 y)"
  using f64_round_mono [of x y] pow2_pos [of 1024]
  by (auto simp: mk_f64_def Let_def simp del: pow2_pos)

lemma mk_f64_representable:
  assumes "representable q" and "\<bar>q\<bar> < pow2 1024"
  shows "mk_f64 q = Fin q"
  using assms by (simp add: mk_f64_def f64_round_representable abs_less_iff not_le)

lemma mk_f64_of_int: "\<bar>z\<bar> < 2 ^ 53 \<Longrightarrow> mk_f64 (of_int z) = Fin (of_int z)"
proof (rule mk_f64_representable)
  assume z: "\<bar>z\<bar> < 2 ^ 53"
  then show "representable (of_int z)" by (rule representable_of_int)
  have "(of_int \<bar>z\<bar> :: rat) < of_int (2 ^ 53)" using z by (simp only: of_int_less_iff)
  also have "\<dots> = pow2 53" by (simp add: pow2_of_int)
  also have "\<dots> < pow2 1024" by simp
  finally show "\<bar>of_int z :: rat\<bar> < pow2 1024" by simp
qed

lemma f64_of_int_small: "\<bar>z\<bar> < 2 ^ 53 \<Longrightarrow> f64_of_int z = Fin (of_int z)"
  by (simp add: f64_of_int_def mk_f64_of_int)

lemma f64_of_int_0 [simp]: "f64_of_int 0 = Fin 0"
  using f64_of_int_small [of 0] by simp

lemma f64_of_int_mono: "a \<le> b \<Longrightarrow> fle (f64_of_int a) (f64_of_int b)"
  by (simp add: f64_of_int_def mk_f64_mono)

lemma mk_f64_numeral_small:
  "numeral n < (2 ^ 53 :: int) \<Longrightarrow> mk_f64 (numeral n) = Fin (numeral n)"
  using mk_f64_of_int [of "numeral n"] by simp

lemma mk_f64_0 [simp]: "mk_f64 0 = Fin 0"
  using mk_f64_of_int [of 0] by simp

lemma mk_f64_between:
  assumes "a \<le> q" "q \<le> b" "mk_f64 a = Fin a" "mk_f64 b = Fin b"
  shows "\<exists>r. mk_f64 q = Fin r \<and> a \<le> r \<and> r \<le> b"
  using mk_f64_mono [OF assms(1)] mk_f64_mono [OF assms(2)] assms(3,4)
  by (cases "mk_f64 q") auto

lemma mk_f64_one [simp]: "mk_f64 1 = Fin 1"
  using mk_f64_of_int [of 1] by simp

text \<open>A 64-bit unsigned integer converts to a finite number, and a positive one to a number of at least 1.\<close>

lemma mk_f64_u64: "mk_f64 (2 ^ 64) = Fin (2 ^ 64)"
proof -
  have "representable (2 ^ 64)"
    unfolding representable_def
    by (rule exI [of _ 1], rule exI [of _ 64]) (simp add: pow2_of_int)
  moreover have "(2 ^ 64 :: rat) = pow2 64" by (simp add: pow2_of_int)
  ultimately show ?thesis by (intro mk_f64_representable) (simp_all add: pow2_of_int)
qed

lemma f64_of_u64:
  assumes "0 \<le> z" "z < 2 ^ 64"
  shows "\<exists>r. f64_of_int z = Fin r \<and> 0 \<le> r \<and> (1 \<le> z \<longrightarrow> 1 \<le> r)"
proof -
  have up: "(of_int z :: rat) \<le> 2 ^ 64"
  proof -
    have "(of_int z :: rat) \<le> of_int (2 ^ 64)" using assms(2) using of_int_le_iff [of z "2 ^ 64", where 'a = rat] by simp
    then show ?thesis by simp
  qed
  have "\<exists>r. mk_f64 (of_int z) = Fin r \<and> 0 \<le> r \<and> r \<le> 2 ^ 64"
    using assms(1) up mk_f64_u64 by (intro mk_f64_between) simp_all
  moreover have "1 \<le> z \<Longrightarrow> \<exists>r. mk_f64 (of_int z) = Fin r \<and> 1 \<le> r \<and> r \<le> 2 ^ 64"
    using up mk_f64_u64 by (intro mk_f64_between) simp_all
  ultimately show ?thesis by (auto simp: f64_of_int_def)
qed

section \<open>Square roots\<close>

lemma isqrt_bounds: "0 \<le> n \<Longrightarrow> 0 \<le> isqrt n \<and> isqrt n * isqrt n \<le> n \<and> n < (isqrt n + 1) * (isqrt n + 1)"
proof (induction n rule: isqrt.induct)
  case (1 n)
  show ?case
  proof (cases "n = 0")
    case True
    then show ?thesis by (simp add: isqrt.simps)
  next
    case False
    define r where "r = isqrt (n div 4)"
    have IH: "0 \<le> r" "r * r \<le> n div 4" "n div 4 < (r + 1) * (r + 1)"
      using 1 False by (simp_all add: r_def)
    have "4 * (r * r) \<le> n" using IH(2) by linarith
    moreover have "n < 4 * ((r + 1) * (r + 1))" using IH(3) by linarith
    moreover have "isqrt n = (if (2 * r + 1) * (2 * r + 1) \<le> n then 2 * r + 1 else 2 * r)"
      using 1(2) False by (subst isqrt.simps) (simp add: r_def Let_def)
    ultimately show ?thesis using IH(1) by (auto simp: algebra_simps)
  qed
qed

lemma f64_sqrt_0 [simp]: "f64_sqrt 0 = 0"
  by (simp add: f64_sqrt_def)

lemma sqrt_scaled:
  assumes "0 < q"
  shows "pow2 104 \<le> q / pow2 (2 * sqrt_exp q)"
proof -
  have "pow2 (104 + 2 * sqrt_exp q) \<le> pow2 (ilog2 q)" by (simp add: sqrt_exp_def)
  then have "pow2 104 * pow2 (2 * sqrt_exp q) \<le> q"
    using ilog2_bounds [OF assms] by (simp add: pow2_add)
  then show ?thesis by (simp add: le_divide_eq)
qed

lemma f64_sqrt_lower:
  assumes "0 < q"
  shows "pow2 (52 + sqrt_exp q) \<le> f64_sqrt q"
proof -
  define x where "x = \<lfloor>q / pow2 (2 * sqrt_exp q)\<rfloor>"
  have "of_int (2 ^ 104) \<le> q / pow2 (2 * sqrt_exp q)"
    using sqrt_scaled [OF assms] by (simp add: pow2_of_int)
  then have x: "2 ^ 104 \<le> x" unfolding x_def by (simp only: le_floor_iff)
  have "2 ^ 52 \<le> isqrt x"
  proof (rule ccontr)
    assume "\<not> 2 ^ 52 \<le> isqrt x"
    then have "isqrt x + 1 \<le> 2 ^ 52" by simp
    moreover have "0 \<le> isqrt x" using isqrt_bounds [of x] x by simp
    ultimately have "(isqrt x + 1) * (isqrt x + 1) \<le> 2 ^ 52 * 2 ^ 52"
      by (intro mult_mono) simp_all
    then show False using isqrt_bounds [of x] x by simp
  qed
  then have "(of_int (2 ^ 52) :: rat) \<le> of_int (isqrt x)" by (simp only: of_int_le_iff)
  then have "of_int (2 ^ 52) * pow2 (sqrt_exp q) \<le> of_int (isqrt x) * pow2 (sqrt_exp q)"
    by (rule mult_right_mono) (rule less_imp_le [OF pow2_pos])
  also have "\<dots> \<le> f64_sqrt q"
    using assms by (simp add: f64_sqrt_def x_def Let_def less_imp_le)
  finally show ?thesis by (simp add: pow2_add pow2_of_int [of 52])
qed

lemma f64_sqrt_pos: "0 < q \<Longrightarrow> 0 < f64_sqrt q"
  using f64_sqrt_lower [of q] pow2_pos [of "52 + sqrt_exp q"] by linarith

lemma f64_sqrt_ge_1:
  assumes "1 \<le> q"
  shows "1 \<le> f64_sqrt q"
proof -
  have "0 \<le> ilog2 q" using assms ilog2_ge [of 0 q] by simp
  then have "pow2 0 \<le> pow2 (52 + sqrt_exp q)" by (simp add: sqrt_exp_def del: pow2_0)
  then show ?thesis using f64_sqrt_lower [of q] assms by simp
qed

end
