(* ===== verification/Flux_Prelude.thy ===== *)
theory Flux_Prelude imports Go_Float "HOL-Library.Word" "HOL-Library.Sublist" "HOL-Library.AList" begin

text \<open>
  What every component shares: the widths of Go's integers, durations and instants, the
  functions of package \<open>strings\<close> the program calls, the result types of fallible calls, the
  selection loop that three components contain, and the fact collections their proofs use.
\<close>

section \<open>Fact collections\<close>

named_theorems json_simps \<open>decoding what was encoded\<close>
named_theorems store_simps \<open>what an operation of the registry makes of a stored record\<close>

section \<open>Integers, instants and durations\<close>

text \<open>
  The fixed-width fields keep their width: \<open>int32\<close>, \<open>int64\<close> and \<open>uint64\<close> are words, read with
  \<open>sint\<close> and \<open>uint\<close>, so that a conversion between signed and unsigned of one width is the
  identity.  Go's \<open>int\<close> is 64 bits wide and is an \<open>int\<close> here, with \<open>wrap64\<close> wherever the code
  computes with it.
\<close>

type_synonym i32 = "32 word"
type_synonym i64 = "64 word"
type_synonym u64 = "64 word"

definition wrap64 :: "int \<Rightarrow> int" where
  "wrap64 x = (x + 2 ^ 63) mod 2 ^ 64 - 2 ^ 63"

lemma wrap64_id: "- (2 ^ 63) \<le> x \<Longrightarrow> x < 2 ^ 63 \<Longrightarrow> wrap64 x = x"
  by (simp add: wrap64_def)

lemma wrap64_range: "- (2 ^ 63) \<le> wrap64 x \<and> wrap64 x < 2 ^ 63"
  by (simp add: wrap64_def)

text \<open>
  A \<open>time.Time\<close> is its instant in nanoseconds since the Unix epoch; a \<open>time.Duration\<close> is an
  \<open>int64\<close> of nanoseconds.  \<open>Sub\<close> saturates, multiplication by \<open>time.Second\<close> wraps.  The zero
  \<open>time.Time\<close> is 1 January of year 1.
\<close>

type_synonym time = int
type_synonym duration = int

definition zero_time :: time where
  "zero_time = - 62135596800 * 10 ^ 9"

definition time_sub :: "time \<Rightarrow> time \<Rightarrow> duration" where
  "time_sub t u = max (- (2 ^ 63)) (min (2 ^ 63 - 1) (t - u))"

definition seconds :: "int \<Rightarrow> duration" where
  "seconds n = wrap64 (n * 10 ^ 9)"

lemma seconds_small: "\<bar>n\<bar> \<le> 9 * 10 ^ 9 \<Longrightarrow> seconds n = n * 10 ^ 9"
  unfolding seconds_def by (rule wrap64_id) auto

lemma seconds_bound: "seconds n < 2 ^ 63"
  using wrap64_range by (simp add: seconds_def)

lemma time_sub_ge_iff: "d < 2 ^ 63 \<Longrightarrow> - (2 ^ 63) < d \<Longrightarrow> d \<le> time_sub t u \<longleftrightarrow> u \<le> t - d"
  by (auto simp: time_sub_def)

lemma time_sub_le_iff: "d < 2 ^ 63 - 1 \<Longrightarrow> - (2 ^ 63) \<le> d \<Longrightarrow> time_sub t u \<le> d \<longleftrightarrow> t - d \<le> u"
  by (auto simp: time_sub_def)

lemma time_sub_less_iff: "d < 2 ^ 63 \<Longrightarrow> - (2 ^ 63) < d \<Longrightarrow> time_sub t u < d \<longleftrightarrow> t - d < u"
  by (auto simp: time_sub_def)

section \<open>Errors and results\<close>

text \<open>
  The program only ever reads an error's message, so an \<open>error\<close> value is its message: a call
  that returns \<open>error\<close> gives a \<open>go_error option\<close> (\<open>None\<close> for \<open>nil\<close>), a call that returns a value
  and an error a sum.
\<close>

type_synonym go_error = string

text \<open>A call that may also panic gives one of three results.\<close>

datatype 'a go_result = Ret 'a | Err go_error | Panic string

section \<open>Package strings\<close>

definition HasPrefix :: "string \<Rightarrow> string \<Rightarrow> bool" where
  "HasPrefix s p = prefix p s"

definition HasSuffix :: "string \<Rightarrow> string \<Rightarrow> bool" where
  "HasSuffix s p = suffix p s"

definition TrimPrefix :: "string \<Rightarrow> string \<Rightarrow> string" where
  "TrimPrefix s p = (if prefix p s then drop (length p) s else s)"

definition TrimSuffix :: "string \<Rightarrow> string \<Rightarrow> string" where
  "TrimSuffix s p = (if suffix p s then take (length s - length p) s else s)"

definition Contains :: "string \<Rightarrow> string \<Rightarrow> bool" where
  "Contains s p = sublist p s"

lemma HasPrefix_append [simp]: "HasPrefix (p @ s) p"
  by (simp add: HasPrefix_def)

lemma HasSuffix_append [simp]: "HasSuffix (s @ p) p"
  by (simp add: HasSuffix_def suffix_def)

lemma TrimPrefix_append [simp]: "TrimPrefix (p @ s) p = s"
  by (simp add: TrimPrefix_def)

lemma TrimSuffix_append [simp]: "TrimSuffix (s @ p) p = s"
  by (simp add: TrimSuffix_def suffix_def)

lemma HasPrefix_iff: "HasPrefix s p \<longleftrightarrow> (\<exists>t. s = p @ t)"
  by (auto simp: HasPrefix_def prefix_def)

lemma HasSuffix_iff: "HasSuffix s p \<longleftrightarrow> (\<exists>t. s = t @ p)"
  by (auto simp: HasSuffix_def suffix_def)

section \<open>The selection loop\<close>

text \<open>
  The loop that keeps the first element better than every one before it:
  \<^verbatim>\<open>
  var best *T
  for _, a := range xs {
      if !ok(a) { continue }
      if best == nil || better(a, best) { best = a }
  }
  \<close>
  A component that contains it states its own loop as a function over the list; the locale
  gives the facts about any such loop, from two laws about the comparison.
\<close>

fun select_loop :: "('a \<Rightarrow> bool) \<Rightarrow> ('a \<Rightarrow> 'a \<Rightarrow> bool) \<Rightarrow> 'a list \<Rightarrow> 'a option \<Rightarrow> 'a option" where
  "select_loop ok better [] best = best"
| "select_loop ok better (a # as) best =
     select_loop ok better as
       (if \<not> ok a then best
        else case best of None \<Rightarrow> Some a | Some b \<Rightarrow> if better a b then Some a else Some b)"

locale selection =
  fixes better :: "'a \<Rightarrow> 'a \<Rightarrow> bool"
  assumes better_irrefl: "\<not> better a a"
    and better_not_above: "\<not> better y b \<Longrightarrow> better x b \<Longrightarrow> \<not> better y x"
begin

lemma select_from:
  "select_loop ok better as best = Some c \<Longrightarrow>
     best = Some c \<or> c \<in> set as \<and> ok c"
  by (induction as arbitrary: best) (auto split: if_splits option.splits)

lemma select_above:
  "select_loop ok better as (Some b) = Some c \<Longrightarrow>
     \<forall>a. \<not> better a b \<longrightarrow> \<not> better a c"
proof (induction as arbitrary: b)
  case (Cons x as)
  then show ?case
    by (cases "ok x \<and> better x b") (auto dest: better_not_above split: if_splits)
qed simp

lemma select_max_aux:
  "select_loop ok better as best = Some c \<Longrightarrow>
     (\<forall>a \<in> set as. ok a \<longrightarrow> \<not> better a c)"
proof (induction as arbitrary: best)
  case (Cons x as)
  define best' where
    "best' = (if \<not> ok x then best
       else case best of None \<Rightarrow> Some x | Some b \<Rightarrow> if better x b then Some x else Some b)"
  have run: "select_loop ok better as best' = Some c"
    using Cons.prems by (simp add: best'_def)
  have "ok x \<Longrightarrow> \<exists>b. best' = Some b \<and> \<not> better x b"
    by (auto simp: best'_def better_irrefl split: option.splits)
  then have "ok x \<Longrightarrow> \<not> better x c" using run select_above by blast
  then show ?case using Cons.IH [OF run] by simp
qed simp

lemma select_some: "select_loop ok better as (Some b) \<noteq> None"
  by (induction as arbitrary: b) auto

lemma select_none_iff: "select_loop ok better as None = None \<longleftrightarrow> (\<forall>a \<in> set as. \<not> ok a)"
proof (induction as)
  case (Cons x as)
  then show ?case using select_some [of ok as x] by auto
qed simp

lemma select_best:
  assumes "select_loop ok better as None = Some c"
  shows "c \<in> set as" and "ok c" and "a \<in> set as \<Longrightarrow> ok a \<Longrightarrow> \<not> better a c"
  using select_from [OF assms] select_max_aux [OF assms] by auto

end

end
