(* ===== verification/Models.thy ===== *)
theory Models imports Flux_Prelude begin

text \<open>
  The data of \<open>pkg/models/models.go\<close>: agents and their status, registered functions, node
  metrics and execution records, with the three methods of \<open>Agent\<close> that the execution path
  and the autoscaler rank nodes by.
\<close>

section \<open>Agents\<close>

datatype AgentStatus = AgentOnline | AgentOffline | AgentBusy | AgentDraining

record node_status =
  ns_AgentID :: string
  CPUPercent :: f64
  MemPercent :: f64
  MemTotalMB :: u64
  MemUsedMB :: u64
  ActiveTasks :: i32
  UptimeSec :: i64
  CollectedAt :: time

record agent =
  ID :: string
  Address :: string
  ActiveCount :: i32
  LastHeartbeat :: time
  Status :: AgentStatus
  ProviderID :: string
  InstanceType :: string
  Provider :: string
  NodeStatus :: "node_status option"

section \<open>Functions\<close>

text \<open>\<open>ConcurrencyBehavior\<close> and \<open>PressureBehavior\<close> are string types with two named values each.\<close>

type_synonym ConcurrencyBehavior = string
type_synonym PressureBehavior = string

definition ConcurrencyBehaviorWait :: ConcurrencyBehavior where
  "ConcurrencyBehaviorWait = ''wait''"

definition ConcurrencyBehaviorExit :: ConcurrencyBehavior where
  "ConcurrencyBehaviorExit = ''exit''"

definition PressureBehaviorWait :: PressureBehavior where
  "PressureBehaviorWait = ''wait''"

definition PressureBehaviorExit :: PressureBehavior where
  "PressureBehaviorExit = ''exit''"

text \<open>
  \<open>Env\<close> is \<open>None\<close> for a nil map and otherwise the map's entries in key order, as
  \<open>json.Marshal\<close> writes them; the program never looks a variable up.
\<close>

record func =
  Name :: string
  Handler :: string
  CPUMillicores :: i32
  MemoryMB :: i64
  TimeoutSec :: i32
  MaxConcurrency :: i32
  MaxConcurrencyBehavior :: ConcurrencyBehavior
  ResourcePressureBehavior :: PressureBehavior
  CodePath :: string
  Env :: "(string \<times> string) list option"

section \<open>Executions\<close>

type_synonym ExecutionStatus = string

record execution_record =
  er_ExecutionID :: string
  er_AgentID :: string
  er_FunctionName :: string
  er_Status :: ExecutionStatus
  er_Output :: string
  er_Error :: string
  er_DurationMs :: i64
  er_StartedAt :: time
  er_StatusAt :: "time option"

section \<open>Ranking agents\<close>

definition Pressure :: "agent \<Rightarrow> f64" where
  "Pressure a =
     (case NodeStatus a of None \<Rightarrow> Fin 0 | Some ns \<Rightarrow> fadd (CPUPercent ns) (MemPercent ns))"

definition CanFit :: "agent \<Rightarrow> func \<Rightarrow> bool" where
  "CanFit a fn =
     (case NodeStatus a of
        None \<Rightarrow> True
      | Some ns \<Rightarrow>
          if 0 <s MemoryMB fn \<and> 0 < MemTotalMB ns \<and> MemTotalMB ns - MemUsedMB ns < MemoryMB fn
          then False
          else if 0 <s CPUMillicores fn \<and> fle (Fin 90) (CPUPercent ns) then False
          else True)"

definition AvailableScore :: "agent \<Rightarrow> f64" where
  "AvailableScore a =
     (case NodeStatus a of
        None \<Rightarrow> Fin 50
      | Some ns \<Rightarrow>
          let cpuAvail = fsub (Fin 100) (CPUPercent ns);
              memAvail =
                (if 0 < MemTotalMB ns
                 then fmul (fdiv (f64_of_int (uint (MemTotalMB ns - MemUsedMB ns)))
                                 (f64_of_int (uint (MemTotalMB ns)))) (Fin 100)
                 else Fin 0)
          in fadd cpuAvail memAvail)"

section \<open>What the ranking means\<close>

text \<open>A node report in which the used memory does not exceed the total and the loads are percentages.\<close>

definition sane_status :: "node_status \<Rightarrow> bool" where
  "sane_status ns \<longleftrightarrow>
     MemUsedMB ns \<le> MemTotalMB ns \<and>
     (\<exists>c m. CPUPercent ns = Fin c \<and> MemPercent ns = Fin m \<and>
            0 \<le> c \<and> c \<le> 100 \<and> 0 \<le> m \<and> m \<le> 100)"

text \<open>The memory the node has left, as a number.\<close>

definition free_mb :: "node_status \<Rightarrow> int" where
  "free_mb ns = uint (MemTotalMB ns) - uint (MemUsedMB ns)"

lemma avail_eq_free:
  "MemUsedMB ns \<le> MemTotalMB ns \<Longrightarrow> uint (MemTotalMB ns - MemUsedMB ns) = free_mb ns"
  by (simp add: free_mb_def uint_minus_simple_alt word_le_def)

lemma uint_sint_pos: "0 <s (w :: 64 word) \<Longrightarrow> uint w = sint w"
proof -
  assume "0 <s w"
  moreover have eq: "sint w = (uint w + 2 ^ 63) mod 2 ^ 64 - 2 ^ 63"
    by (simp add: sint_uint signed_take_bit_eq_take_bit_shift take_bit_eq_mod)
  ultimately have pos: "0 < (uint w + 2 ^ 63) mod 2 ^ 64 - 2 ^ 63"
    by (simp add: word_sless_alt)
  have range: "0 \<le> uint w" "uint w < 2 ^ 64" using uint_lt2p [of w] by simp_all
  have "uint w < 2 ^ 63"
  proof (rule ccontr)
    assume "\<not> uint w < 2 ^ 63"
    then have "(uint w - 2 ^ 63) mod 2 ^ 64 = uint w - 2 ^ 63"
      using range by (intro mod_pos_pos_trivial) simp_all
    moreover have "(uint w + 2 ^ 63) mod 2 ^ 64 = (uint w - 2 ^ 63) mod 2 ^ 64"
      by (simp add: mod_eq_dvd_iff)
    ultimately show False using pos range by simp
  qed
  then have "(uint w + 2 ^ 63) mod 2 ^ 64 = uint w + 2 ^ 63"
    using range by (intro mod_pos_pos_trivial) simp_all
  then show ?thesis using eq by simp
qed

text \<open>
  On a sane report \<open>CanFit\<close> is the comparison its comment describes: the requested memory is at
  most what is free (when both are known), and a function that asks for CPU is kept off a node
  at 90 percent or more.
\<close>

lemma CanFit_iff_free:
  assumes "NodeStatus a = Some ns" and "MemUsedMB ns \<le> MemTotalMB ns"
  shows "CanFit a fn \<longleftrightarrow>
    (sint (MemoryMB fn) \<le> 0 \<or> MemTotalMB ns = 0 \<or> sint (MemoryMB fn) \<le> free_mb ns) \<and>
    (sint (CPUMillicores fn) \<le> 0 \<or> \<not> fle (Fin 90) (CPUPercent ns))"
proof (cases "0 <s MemoryMB fn")
  case True
  then have "MemTotalMB ns - MemUsedMB ns < MemoryMB fn \<longleftrightarrow> free_mb ns < sint (MemoryMB fn)"
    using avail_eq_free [OF assms(2)] by (simp add: word_less_def uint_sint_pos)
  with True assms(1) show ?thesis
    by (auto simp: CanFit_def word_sless_alt word_gt_0)
next
  case False
  with assms(1) show ?thesis by (auto simp: CanFit_def word_sless_alt)
qed

text \<open>
  When the reported use exceeds the reported total, the unsigned difference wraps to a number
  above every \<open>int64\<close>, and no amount of requested memory is refused.
\<close>

lemma CanFit_wraps:
  assumes "NodeStatus a = Some ns" and "uint (MemTotalMB ns) < uint (MemUsedMB ns)"
    and "uint (MemUsedMB ns) - uint (MemTotalMB ns) \<le> 2 ^ 63"
  shows "CanFit a fn \<longleftrightarrow> sint (CPUMillicores fn) \<le> 0 \<or> \<not> fle (Fin 90) (CPUPercent ns)"
proof -
  have "uint (MemTotalMB ns - MemUsedMB ns) = uint (MemTotalMB ns) - uint (MemUsedMB ns) + 2 ^ 64"
  proof -
    have "uint (MemTotalMB ns - MemUsedMB ns) =
        (uint (MemTotalMB ns) - uint (MemUsedMB ns)) mod 2 ^ 64"
      by (simp add: uint_word_ariths)
    also have "\<dots> = (uint (MemTotalMB ns) - uint (MemUsedMB ns) + 2 ^ 64) mod 2 ^ 64"
      by simp
    also have "\<dots> = uint (MemTotalMB ns) - uint (MemUsedMB ns) + 2 ^ 64"
      using assms(2,3) uint_lt2p [of "MemUsedMB ns"] uint_ge_0 [of "MemTotalMB ns"]
      by (intro mod_pos_pos_trivial) simp_all
    finally show ?thesis .
  qed
  then have big: "2 ^ 63 \<le> uint (MemTotalMB ns - MemUsedMB ns)" using assms(3) by simp
  have "\<not> MemTotalMB ns - MemUsedMB ns < MemoryMB fn" if "0 <s MemoryMB fn"
    using big uint_sint_pos [OF that] sint_lt [of "MemoryMB fn"]
    by (simp add: word_less_def)
  then show ?thesis using assms(1) by (auto simp: CanFit_def word_sless_alt)
qed

lemma Pressure_range:
  assumes "\<forall>ns. NodeStatus a = Some ns \<longrightarrow> sane_status ns"
  shows "\<exists>p. Pressure a = Fin p \<and> 0 \<le> p \<and> p \<le> 200"
proof (cases "NodeStatus a")
  case None
  then show ?thesis by (simp add: Pressure_def)
next
  case (Some ns)
  with assms obtain c m where "CPUPercent ns = Fin c" "MemPercent ns = Fin m"
    "0 \<le> c" "c \<le> 100" "0 \<le> m" "m \<le> 100" by (auto simp: sane_status_def)
  moreover from this have "\<exists>p. mk_f64 (c + m) = Fin p \<and> 0 \<le> p \<and> p \<le> 200"
    using mk_f64_of_int [of 200] by (intro mk_f64_between) simp_all
  ultimately show ?thesis using Some by (simp add: Pressure_def)
qed

lemma fdiv_unit:
  assumes "fle (Fin 0) x" "fle x y" "fle (Fin 1) y" "is_finite y"
  shows "\<exists>r. fdiv x y = Fin r \<and> 0 \<le> r \<and> r \<le> 1"
proof -
  obtain q where y: "y = Fin q" using assms(4) by (auto simp: is_finite_iff)
  then obtain p where x: "x = Fin p" "0 \<le> p" "p \<le> q" "1 \<le> q"
    using assms(1-3) by (cases x) auto
  then have "\<exists>r. mk_f64 (p / q) = Fin r \<and> 0 \<le> r \<and> r \<le> 1"
    by (intro mk_f64_between) simp_all
  with x y show ?thesis by auto
qed

lemma AvailableScore_range:
  assumes "NodeStatus a = Some ns" and "sane_status ns"
  shows "\<exists>p. AvailableScore a = Fin p \<and> 0 \<le> p \<and> p \<le> 200"
proof -
  obtain c where c: "CPUPercent ns = Fin c" "0 \<le> c" "c \<le> 100" and le: "MemUsedMB ns \<le> MemTotalMB ns"
    using assms(2) by (auto simp: sane_status_def)
  have hundred: "mk_f64 100 = Fin 100" "mk_f64 200 = Fin 200"
    using mk_f64_of_int [of 100] mk_f64_of_int [of 200] by simp_all
  have "\<exists>p. fsub (Fin 100) (CPUPercent ns) = Fin p \<and> 0 \<le> p \<and> p \<le> 100"
    using mk_f64_between [of 0 "100 - c" 100] c hundred by (simp add: fsub_def)
  then obtain p where p: "fsub (Fin 100) (CPUPercent ns) = Fin p" "0 \<le> p" "p \<le> 100" by blast
  have "\<exists>r. (if 0 < MemTotalMB ns
      then fmul (fdiv (f64_of_int (uint (MemTotalMB ns - MemUsedMB ns)))
                      (f64_of_int (uint (MemTotalMB ns)))) (Fin 100)
      else Fin 0) = Fin r \<and> 0 \<le> r \<and> r \<le> 100"
  proof (cases "0 < MemTotalMB ns")
    case True
    then have one: "1 \<le> uint (MemTotalMB ns)" by (simp add: word_less_def)
    have small: "uint (MemTotalMB ns) < 2 ^ 64" using uint_lt2p [of "MemTotalMB ns"] by simp
    obtain t where t: "f64_of_int (uint (MemTotalMB ns)) = Fin t" "1 \<le> t"
      using f64_of_u64 [OF _ small] one by auto
    have free: "uint (MemTotalMB ns - MemUsedMB ns) \<le> uint (MemTotalMB ns)"
      by (simp add: avail_eq_free [OF le] free_mb_def)
    then have "uint (MemTotalMB ns - MemUsedMB ns) < 2 ^ 64" using small by linarith
    then obtain u where u: "f64_of_int (uint (MemTotalMB ns - MemUsedMB ns)) = Fin u" "0 \<le> u"
      using f64_of_u64 [of "uint (MemTotalMB ns - MemUsedMB ns)"] by auto
    have "u \<le> t" using f64_of_int_mono [OF free] t u by simp
    then obtain r where r: "fdiv (Fin u) (Fin t) = Fin r" "0 \<le> r" "r \<le> 1"
      using fdiv_unit [of "Fin u" "Fin t"] t(2) u(2) by auto
    have "\<exists>s. mk_f64 (r * 100) = Fin s \<and> 0 \<le> s \<and> s \<le> 100"
      using r hundred by (intro mk_f64_between) simp_all
    then show ?thesis using True t u r by auto
  qed simp
  then obtain r where r: "(if 0 < MemTotalMB ns
      then fmul (fdiv (f64_of_int (uint (MemTotalMB ns - MemUsedMB ns)))
                      (f64_of_int (uint (MemTotalMB ns)))) (Fin 100)
      else Fin 0) = Fin r" "0 \<le> r" "r \<le> 100" by blast
  have "\<exists>s. mk_f64 (p + r) = Fin s \<and> 0 \<le> s \<and> s \<le> 200"
    using p r hundred by (intro mk_f64_between) simp_all
  then show ?thesis
    using assms(1) p(1) r(1) by (simp only: AvailableScore_def Let_def option.case fadd.simps)
qed

section \<open>Properties\<close>

text \<open>A report used by the witnesses: 8192 MB of which 6144 are used, 25 percent CPU, 75 percent memory.\<close>

definition sample_status :: node_status where
  "sample_status =
     \<lparr>ns_AgentID = ''a1'', CPUPercent = Fin 25, MemPercent = Fin 75, MemTotalMB = 8192,
      MemUsedMB = 6144, ActiveTasks = 0, UptimeSec = 60, CollectedAt = 0\<rparr>"

definition sample_agent :: agent where
  "sample_agent =
     \<lparr>ID = ''a1'', Address = ''10.0.0.1:50052'', ActiveCount = 0, LastHeartbeat = 0,
      Status = AgentOnline, ProviderID = ''i-1'', InstanceType = ''c5.large'', Provider = ''aws'',
      NodeStatus = Some sample_status\<rparr>"

definition sample_func :: func where
  "sample_func =
     \<lparr>Name = ''resize'', Handler = ''main'', CPUMillicores = 500, MemoryMB = 2048, TimeoutSec = 30,
      MaxConcurrency = 4, MaxConcurrencyBehavior = ''exit'', ResourcePressureBehavior = ''wait'',
      CodePath = [], Env = None\<rparr>"

text \<open>
  C30. When a node's report does not claim more used memory than it has, \<open>CanFit\<close> accepts exactly
  the functions whose requested memory is at most what is free (unless no memory is requested or
  the total is unknown) and, when CPU is requested, only below 90 percent load.
\<close>

theorem can_fit_spec:
  assumes "NodeStatus a = Some ns" and "uint (MemUsedMB ns) \<le> uint (MemTotalMB ns)"
  shows "CanFit a fn \<longleftrightarrow>
    (sint (MemoryMB fn) \<le> 0 \<or> uint (MemTotalMB ns) = 0 \<or>
     uint (MemUsedMB ns) + sint (MemoryMB fn) \<le> uint (MemTotalMB ns)) \<and>
    (sint (CPUMillicores fn) \<le> 0 \<or> \<not> fle (Fin 90) (CPUPercent ns))"
  using CanFit_iff_free [of a ns fn] assms by (auto simp: word_le_def free_mb_def uint_0_iff)

theorem can_fit_spec_witness:
  "CanFit sample_agent sample_func \<and>
   \<not> CanFit sample_agent (sample_func\<lparr>MemoryMB := 2049\<rparr>)"
  using can_fit_spec [of sample_agent sample_status sample_func]
    can_fit_spec [of sample_agent sample_status "sample_func\<lparr>MemoryMB := 2049\<rparr>"]
  by (simp add: sample_agent_def sample_status_def sample_func_def)

text \<open>
  A report with more used than total memory makes the unsigned difference wrap: no amount of
  requested memory is then refused, only the CPU test is left.
\<close>

theorem can_fit_underflow:
  assumes "NodeStatus a = Some ns" and "uint (MemTotalMB ns) < uint (MemUsedMB ns)"
    and "uint (MemUsedMB ns) - uint (MemTotalMB ns) \<le> 2 ^ 63"
  shows "CanFit a fn \<longleftrightarrow> sint (CPUMillicores fn) \<le> 0 \<or> \<not> fle (Fin 90) (CPUPercent ns)"
  by (rule CanFit_wraps [OF assms])

theorem can_fit_underflow_witness:
  "CanFit (sample_agent\<lparr>NodeStatus := Some (sample_status\<lparr>MemTotalMB := 4096\<rparr>)\<rparr>)
     (sample_func\<lparr>MemoryMB := 1000000\<rparr>)"
  using can_fit_underflow
    [of "sample_agent\<lparr>NodeStatus := Some (sample_status\<lparr>MemTotalMB := 4096\<rparr>)\<rparr>"
        "sample_status\<lparr>MemTotalMB := 4096\<rparr>" "sample_func\<lparr>MemoryMB := 1000000\<rparr>"]
  by (simp add: sample_status_def)

text \<open>
  C31. On percentages and on memory use within the total, the two scores nodes are ranked by are
  finite and stay between 0 and 200.
\<close>

theorem scores_bounded:
  assumes "NodeStatus a = Some ns" and "sane_status ns"
  shows "\<exists>p q. Pressure a = Fin p \<and> 0 \<le> p \<and> p \<le> 200 \<and> AvailableScore a = Fin q \<and> 0 \<le> q \<and> q \<le> 200"
  using Pressure_range [of a] AvailableScore_range [of a ns] assms by auto

lemma sample_status_sane: "sane_status sample_status"
  by (simp add: sane_status_def sample_status_def)

theorem scores_bounded_witness:
  "\<exists>p q. Pressure sample_agent = Fin p \<and> 0 \<le> p \<and> p \<le> 200 \<and>
     AvailableScore sample_agent = Fin q \<and> 0 \<le> q \<and> q \<le> 200"
  by (rule scores_bounded [OF _ sample_status_sane]) (simp add: sample_agent_def)

end
