(* ===== verification/Json_Codec.thy ===== *)
theory Json_Codec imports Models "HOL-Library.Monad_Syntax" begin

text \<open>
  The documents the program stores and exchanges as JSON: what \<open>json.Marshal\<close> makes of an
  \<open>Agent\<close>, a \<open>Function\<close> and an \<open>ExecutionRecord\<close>, and what \<open>json.Unmarshal\<close> reads back.  A
  document is its syntax tree; the text layer of \<open>encoding/json\<close> is not spelled out.  A string is
  valid UTF-8, as every string the program decodes from JSON, YAML or protobuf is.  Marshalling
  fails where Go fails: on a NaN or infinite \<open>float64\<close> and on an instant outside the years 0 to
  9999.  Decoding is that of \<open>encoding/json\<close>: keys match fields without regard to (ASCII) case and
  every occurrence is taken in turn; a missing field keeps the zero value; a value of the wrong
  kind or out of the field's range is an error.
\<close>

section \<open>Documents\<close>

datatype json =
    JNull
  | JBool bool
  | JInt int
  | JFloat rat
  | JStr string
  | JTime time
  | JArr "json list"
  | JObj "(string \<times> json) list"

text \<open>A byte string the program handles: the text of a document, or any other bytes.\<close>

datatype bytes = JsonText json | RawBytes string

definition bytes_empty :: "bytes \<Rightarrow> bool" where
  "bytes_empty b \<longleftrightarrow> b = RawBytes []"

section \<open>Reading fields\<close>

text \<open>
  \<open>encoding/json\<close> matches an object's keys to fields without regard to case and takes every
  occurrence in turn, each given the value so far; \<open>null\<close> leaves a plain value as it is and makes
  a pointer, a slice or a map nil; a value of the wrong kind is an error.
\<close>

definition lower_char :: "char \<Rightarrow> char" where
  "lower_char c =
     (let n = (of_char c :: nat) in if 65 \<le> n \<and> n \<le> 90 then char_of (n + 32) else c)"

definition equal_fold :: "string \<Rightarrow> string \<Rightarrow> bool" where
  "equal_fold a b \<longleftrightarrow> map lower_char a = map lower_char b"

fun set_field ::
  "string \<Rightarrow> ('a \<Rightarrow> json \<Rightarrow> 'a option) \<Rightarrow> (string \<times> json) list \<Rightarrow> 'a \<Rightarrow> 'a option" where
  "set_field f dec [] v = Some v"
| "set_field f dec ((k, j) # kvs) v =
     (if equal_fold k f then Option.bind (dec v j) (set_field f dec kvs) else set_field f dec kvs v)"

fun json_string :: "string \<Rightarrow> json \<Rightarrow> string option" where
  "json_string old JNull = Some old"
| "json_string old (JStr s) = Some s"
| "json_string old _ = None"

fun json_bool :: "bool \<Rightarrow> json \<Rightarrow> bool option" where
  "json_bool old JNull = Some old"
| "json_bool old (JBool b) = Some b"
| "json_bool old _ = None"

fun json_float :: "f64 \<Rightarrow> json \<Rightarrow> f64 option" where
  "json_float old JNull = Some old"
| "json_float old (JFloat q) = Some (Fin q)"
| "json_float old (JInt z) = Some (f64_of_int z)"
| "json_float old _ = None"

fun json_signed :: "'a::len word \<Rightarrow> json \<Rightarrow> 'a word option" where
  "json_signed old JNull = Some old"
| "json_signed old (JInt z) = (if sint (word_of_int z :: 'a word) = z then Some (word_of_int z) else None)"
| "json_signed old _ = None"

fun json_unsigned :: "'a::len word \<Rightarrow> json \<Rightarrow> 'a word option" where
  "json_unsigned old JNull = Some old"
| "json_unsigned old (JInt z) = (if uint (word_of_int z :: 'a word) = z then Some (word_of_int z) else None)"
| "json_unsigned old _ = None"

fun json_time :: "time \<Rightarrow> json \<Rightarrow> time option" where
  "json_time old JNull = Some old"
| "json_time old (JTime t) = Some t"
| "json_time old _ = None"

text \<open>An \<open>AgentStatus\<close> is a Go \<open>int\<close>; the program writes only the four named values.\<close>

fun json_status :: "AgentStatus \<Rightarrow> json \<Rightarrow> AgentStatus option" where
  "json_status old JNull = Some old"
| "json_status old (JInt z) =
     (if z = 0 then Some AgentOnline else if z = 1 then Some AgentOffline
      else if z = 2 then Some AgentBusy else if z = 3 then Some AgentDraining else None)"
| "json_status old _ = None"

text \<open>A pointer: \<open>null\<close> is nil, anything else is read into what it points to, fresh if it was nil.\<close>

fun json_pointer :: "'a \<Rightarrow> ('a \<Rightarrow> json \<Rightarrow> 'a option) \<Rightarrow> 'a option \<Rightarrow> json \<Rightarrow> 'a option option" where
  "json_pointer zero dec old JNull = Some None"
| "json_pointer zero dec old j = map_option Some (dec (case old of None \<Rightarrow> zero | Some v \<Rightarrow> v) j)"

section \<open>Leaves\<close>

definition enc_float :: "f64 \<Rightarrow> json option" where
  "enc_float x = (case x of Fin q \<Rightarrow> Some (JFloat q) | _ \<Rightarrow> None)"

definition time_json_ok :: "time \<Rightarrow> bool" where
  "time_json_ok t \<longleftrightarrow> - 62167219200 * 10 ^ 9 \<le> t \<and> t < 253402300800 * 10 ^ 9"

definition enc_time :: "time \<Rightarrow> json option" where
  "enc_time t = (if time_json_ok t then Some (JTime t) else None)"

definition enc_status :: "AgentStatus \<Rightarrow> json" where
  "enc_status st =
     JInt (case st of AgentOnline \<Rightarrow> 0 | AgentOffline \<Rightarrow> 1 | AgentBusy \<Rightarrow> 2 | AgentDraining \<Rightarrow> 3)"

section \<open>Node status and agent\<close>

definition marshal_node_status :: "node_status \<Rightarrow> json option" where
  "marshal_node_status ns =
     do {
       c \<leftarrow> enc_float (CPUPercent ns);
       m \<leftarrow> enc_float (MemPercent ns);
       t \<leftarrow> enc_time (CollectedAt ns);
       Some (JObj
         [(''AgentID'', JStr (ns_AgentID ns)), (''CPUPercent'', c), (''MemPercent'', m),
          (''MemTotalMB'', JInt (uint (MemTotalMB ns))), (''MemUsedMB'', JInt (uint (MemUsedMB ns))),
          (''ActiveTasks'', JInt (sint (ActiveTasks ns))), (''UptimeSec'', JInt (sint (UptimeSec ns))),
          (''CollectedAt'', t)])
     }"

definition zero_node_status :: node_status where
  "zero_node_status =
     \<lparr>ns_AgentID = [], CPUPercent = Fin 0, MemPercent = Fin 0, MemTotalMB = 0, MemUsedMB = 0,
      ActiveTasks = 0, UptimeSec = 0, CollectedAt = zero_time\<rparr>"

fun unmarshal_node_status :: "node_status \<Rightarrow> json \<Rightarrow> node_status option" where
  "unmarshal_node_status old JNull = Some old"
| "unmarshal_node_status old (JObj kvs) =
     do {
       i \<leftarrow> set_field ''AgentID'' json_string kvs (ns_AgentID old);
       c \<leftarrow> set_field ''CPUPercent'' json_float kvs (CPUPercent old);
       m \<leftarrow> set_field ''MemPercent'' json_float kvs (MemPercent old);
       tot \<leftarrow> set_field ''MemTotalMB'' json_unsigned kvs (MemTotalMB old);
       usd \<leftarrow> set_field ''MemUsedMB'' json_unsigned kvs (MemUsedMB old);
       act \<leftarrow> set_field ''ActiveTasks'' json_signed kvs (ActiveTasks old);
       up \<leftarrow> set_field ''UptimeSec'' json_signed kvs (UptimeSec old);
       t \<leftarrow> set_field ''CollectedAt'' json_time kvs (CollectedAt old);
       Some \<lparr>ns_AgentID = i, CPUPercent = c, MemPercent = m, MemTotalMB = tot, MemUsedMB = usd,
             ActiveTasks = act, UptimeSec = up, CollectedAt = t\<rparr>
     }"
| "unmarshal_node_status old _ = None"

definition marshal_agent :: "agent \<Rightarrow> json option" where
  "marshal_agent a =
     do {
       t \<leftarrow> enc_time (LastHeartbeat a);
       n \<leftarrow> (case NodeStatus a of None \<Rightarrow> Some JNull | Some ns \<Rightarrow> marshal_node_status ns);
       Some (JObj
         [(''ID'', JStr (ID a)), (''Address'', JStr (Address a)),
          (''ActiveCount'', JInt (sint (ActiveCount a))), (''LastHeartbeat'', t),
          (''Status'', enc_status (Status a)), (''ProviderID'', JStr (ProviderID a)),
          (''InstanceType'', JStr (InstanceType a)), (''Provider'', JStr (Provider a)),
          (''NodeStatus'', n)])
     }"

definition zero_agent :: agent where
  "zero_agent =
     \<lparr>ID = [], Address = [], ActiveCount = 0, LastHeartbeat = zero_time, Status = AgentOnline,
      ProviderID = [], InstanceType = [], Provider = [], NodeStatus = None\<rparr>"

fun unmarshal_agent :: "json \<Rightarrow> agent option" where
  "unmarshal_agent JNull = Some zero_agent"
| "unmarshal_agent (JObj kvs) =
     do {
       i \<leftarrow> set_field ''ID'' json_string kvs [];
       ad \<leftarrow> set_field ''Address'' json_string kvs [];
       act \<leftarrow> set_field ''ActiveCount'' json_signed kvs 0;
       t \<leftarrow> set_field ''LastHeartbeat'' json_time kvs zero_time;
       st \<leftarrow> set_field ''Status'' json_status kvs AgentOnline;
       pid \<leftarrow> set_field ''ProviderID'' json_string kvs [];
       ity \<leftarrow> set_field ''InstanceType'' json_string kvs [];
       p \<leftarrow> set_field ''Provider'' json_string kvs [];
       n \<leftarrow> set_field ''NodeStatus'' (json_pointer zero_node_status unmarshal_node_status) kvs None;
       Some \<lparr>ID = i, Address = ad, ActiveCount = act, LastHeartbeat = t, Status = st,
             ProviderID = pid, InstanceType = ity, Provider = p, NodeStatus = n\<rparr>
     }"
| "unmarshal_agent _ = None"

section \<open>Function\<close>

definition enc_env :: "(string \<times> string) list option \<Rightarrow> json" where
  "enc_env e = (case e of None \<Rightarrow> JNull | Some kvs \<Rightarrow> JObj (map (\<lambda>(k, v). (k, JStr v)) kvs))"

text \<open>The entries of a string map, \<open>null\<close> being the empty string; an object adds to the map so far.\<close>

fun json_entries :: "(string \<times> json) list \<Rightarrow> (string \<times> string) list option" where
  "json_entries [] = Some []"
| "json_entries ((k, j) # kvs) =
     Option.bind (json_string [] j) (\<lambda>s. map_option (Cons (k, s)) (json_entries kvs))"

fun json_map :: "(string \<times> string) list option \<Rightarrow> json \<Rightarrow> (string \<times> string) list option option" where
  "json_map old JNull = Some None"
| "json_map old (JObj kvs) =
     map_option (\<lambda>es. Some ((case old of None \<Rightarrow> [] | Some m \<Rightarrow> m) @ es)) (json_entries kvs)"
| "json_map old _ = None"

definition marshal_func :: "func \<Rightarrow> json" where
  "marshal_func f =
     JObj
       [(''Name'', JStr (Name f)), (''Handler'', JStr (Handler f)),
        (''CPUMillicores'', JInt (sint (CPUMillicores f))), (''MemoryMB'', JInt (sint (MemoryMB f))),
        (''TimeoutSec'', JInt (sint (TimeoutSec f))),
        (''MaxConcurrency'', JInt (sint (MaxConcurrency f))),
        (''MaxConcurrencyBehavior'', JStr (MaxConcurrencyBehavior f)),
        (''ResourcePressureBehavior'', JStr (ResourcePressureBehavior f)),
        (''CodePath'', JStr (CodePath f)), (''Env'', enc_env (Env f))]"

fun unmarshal_func :: "json \<Rightarrow> func option" where
  "unmarshal_func JNull =
     Some \<lparr>Name = [], Handler = [], CPUMillicores = 0, MemoryMB = 0, TimeoutSec = 0, MaxConcurrency = 0,
           MaxConcurrencyBehavior = [], ResourcePressureBehavior = [], CodePath = [], Env = None\<rparr>"
| "unmarshal_func (JObj kvs) =
     do {
       n \<leftarrow> set_field ''Name'' json_string kvs [];
       h \<leftarrow> set_field ''Handler'' json_string kvs [];
       c \<leftarrow> set_field ''CPUMillicores'' json_signed kvs 0;
       m \<leftarrow> set_field ''MemoryMB'' json_signed kvs 0;
       t \<leftarrow> set_field ''TimeoutSec'' json_signed kvs 0;
       k \<leftarrow> set_field ''MaxConcurrency'' json_signed kvs 0;
       cb \<leftarrow> set_field ''MaxConcurrencyBehavior'' json_string kvs [];
       pb \<leftarrow> set_field ''ResourcePressureBehavior'' json_string kvs [];
       cp \<leftarrow> set_field ''CodePath'' json_string kvs [];
       e \<leftarrow> set_field ''Env'' json_map kvs None;
       Some \<lparr>Name = n, Handler = h, CPUMillicores = c, MemoryMB = m, TimeoutSec = t,
             MaxConcurrency = k, MaxConcurrencyBehavior = cb, ResourcePressureBehavior = pb,
             CodePath = cp, Env = e\<rparr>
     }"
| "unmarshal_func _ = None"

section \<open>Execution record\<close>

text \<open>Agents write these documents; the program reads them with the field names of the struct tags.\<close>

fun unmarshal_execution_record :: "json \<Rightarrow> execution_record option" where
  "unmarshal_execution_record JNull =
     Some \<lparr>er_ExecutionID = [], er_AgentID = [], er_FunctionName = [], er_Status = [],
           er_Output = [], er_Error = [], er_DurationMs = 0, er_StartedAt = zero_time, er_StatusAt = None\<rparr>"
| "unmarshal_execution_record (JObj kvs) =
     do {
       i \<leftarrow> set_field ''execution_id'' json_string kvs [];
       ag \<leftarrow> set_field ''agent_id'' json_string kvs [];
       f \<leftarrow> set_field ''function_name'' json_string kvs [];
       st \<leftarrow> set_field ''status'' json_string kvs [];
       ou \<leftarrow> set_field ''output'' json_string kvs [];
       er \<leftarrow> set_field ''error'' json_string kvs [];
       du \<leftarrow> set_field ''duration_ms'' json_signed kvs 0;
       sa \<leftarrow> set_field ''started_at'' json_time kvs zero_time;
       sta \<leftarrow> set_field ''status_at'' (json_pointer zero_time json_time) kvs None;
       Some \<lparr>er_ExecutionID = i, er_AgentID = ag, er_FunctionName = f, er_Status = st,
             er_Output = ou, er_Error = er, er_DurationMs = du, er_StartedAt = sa,
             er_StatusAt = sta\<rparr>
     }"
| "unmarshal_execution_record _ = None"

text \<open>\<open>omitempty\<close> drops a field that holds its zero value.\<close>

definition omitempty :: "bool \<Rightarrow> string \<times> json \<Rightarrow> (string \<times> json) list" where
  "omitempty z kv = (if z then [] else [kv])"

definition marshal_execution_record :: "execution_record \<Rightarrow> json option" where
  "marshal_execution_record r =
     do {
       sa \<leftarrow> enc_time (er_StartedAt r);
       sta \<leftarrow> (case er_StatusAt r of None \<Rightarrow> Some JNull | Some t \<Rightarrow> enc_time t);
       Some (JObj
         ([(''execution_id'', JStr (er_ExecutionID r)), (''agent_id'', JStr (er_AgentID r)),
           (''function_name'', JStr (er_FunctionName r)), (''status'', JStr (er_Status r))] @
          omitempty (er_Output r = []) (''output'', JStr (er_Output r)) @
          omitempty (er_Error r = []) (''error'', JStr (er_Error r)) @
          omitempty (er_DurationMs r = 0) (''duration_ms'', JInt (sint (er_DurationMs r))) @
          [(''started_at'', sa)] @
          omitempty (er_StatusAt r = None) (''status_at'', sta)))
     }"

section \<open>Reading back what was written\<close>

lemma lower_char_Char [code, json_simps]:
  "lower_char (Char b0 b1 b2 b3 b4 b5 b6 b7) =
     (if \<not> b7 \<and> b6 \<and> \<not> b5 \<and> (b4 \<or> b3 \<or> b2 \<or> b1 \<or> b0) \<and> \<not> (b4 \<and> b3 \<and> (b2 \<or> b1 \<and> b0))
      then Char b0 b1 b2 b3 b4 True b6 b7 else Char b0 b1 b2 b3 b4 b5 b6 b7)"
  by (cases b0; cases b1; cases b2; cases b3; cases b4; cases b5; cases b6; cases b7)
    (simp_all add: lower_char_def char_of_def bit_Suc_0_iff)

text \<open>Folded comparison stops at the first difference.\<close>

lemma equal_fold_step [code]:
  "equal_fold [] [] \<longleftrightarrow> True"
  "equal_fold [] (y # ys) \<longleftrightarrow> False"
  "equal_fold (x # xs) [] \<longleftrightarrow> False"
  "equal_fold (x # xs) (y # ys) \<longleftrightarrow> (if lower_char x = lower_char y then equal_fold xs ys else False)"
  by (simp_all add: equal_fold_def)

lemma json_leaves [json_simps]:
  "json_signed v (JInt (sint w)) = Some w"
  "json_unsigned v' (JInt (uint w')) = Some w'"
  "json_status st (enc_status st') = Some st'"
  by (simp_all add: enc_status_def split: AgentStatus.splits)

lemma enc_float_SomeD: "enc_float x = Some j \<Longrightarrow> \<exists>q. x = Fin q \<and> j = JFloat q"
  by (auto simp: enc_float_def split: f64.splits)

lemma enc_time_SomeD: "enc_time t = Some j \<Longrightarrow> j = JTime t"
  by (auto simp: enc_time_def split: if_splits)

lemma json_entries_map [json_simps]: "json_entries (map (\<lambda>(k, v). (k, JStr v)) kvs) = Some kvs"
  by (induction kvs) auto

lemma json_map_enc [json_simps]: "json_map None (enc_env e) = Some e"
  by (cases e) (simp_all add: enc_env_def json_simps)

lemma unmarshal_node_status_marshal:
  "marshal_node_status ns = Some j \<Longrightarrow> unmarshal_node_status old j = Some ns"
  by (auto simp: marshal_node_status_def equal_fold_def json_simps
      dest!: enc_float_SomeD enc_time_SomeD split: Option.bind_splits)

lemma marshal_node_status_obj: "marshal_node_status ns = Some j \<Longrightarrow> \<exists>kvs. j = JObj kvs"
  by (auto simp: marshal_node_status_def split: Option.bind_splits)

lemma unmarshal_agent_marshal:
  assumes "marshal_agent a = Some j"
  shows "unmarshal_agent j = Some a"
proof (cases "NodeStatus a")
  case None
  then show ?thesis
    using assms by (auto simp: marshal_agent_def equal_fold_def json_simps
        dest!: enc_time_SomeD split: Option.bind_splits)
next
  case (Some ns)
  then obtain d where d: "marshal_node_status ns = Some d"
    using assms by (auto simp: marshal_agent_def split: Option.bind_splits)
  then obtain kvs where kvs: "d = JObj kvs" using marshal_node_status_obj by blast
  have "json_pointer zero_node_status unmarshal_node_status None d = Some (Some ns)"
    using unmarshal_node_status_marshal [OF d] unfolding kvs by (simp del: unmarshal_node_status.simps)
  then show ?thesis
    using assms Some d by (auto simp: marshal_agent_def equal_fold_def json_simps
        dest!: enc_time_SomeD split: Option.bind_splits)
qed

lemma unmarshal_func_marshal: "unmarshal_func (marshal_func f) = Some f"
  by (simp add: marshal_func_def equal_fold_def json_simps)

text \<open>Exactly the agents whose floats are finite and whose instants are printable can be written.\<close>

definition agent_json_ok :: "agent \<Rightarrow> bool" where
  "agent_json_ok a \<longleftrightarrow>
     time_json_ok (LastHeartbeat a) \<and>
     (case NodeStatus a of
        None \<Rightarrow> True
      | Some ns \<Rightarrow> is_finite (CPUPercent ns) \<and> is_finite (MemPercent ns) \<and> time_json_ok (CollectedAt ns))"

lemma marshal_agent_ok_iff: "(\<exists>j. marshal_agent a = Some j) \<longleftrightarrow> agent_json_ok a"
  by (cases "NodeStatus a")
    (auto simp: marshal_agent_def agent_json_ok_def marshal_node_status_def enc_time_def
      enc_float_def is_finite_def split: Option.bind_splits f64.splits)

lemma unmarshal_execution_record_marshal:
  assumes "marshal_execution_record r = Some j"
  shows "unmarshal_execution_record j = Some r"
  using assms
  by (cases "er_Output r = []"; cases "er_Error r = []"; cases "er_DurationMs r = 0";
        cases "er_StatusAt r")
    (auto simp: marshal_execution_record_def equal_fold_def omitempty_def json_simps dest!: enc_time_SomeD split: Option.bind_splits)

end
