(* ===== verification/Memory.thy ===== *)
theory Memory imports Json_Codec begin

text \<open>
  The interface \<open>Memory\<close> of \<open>pkg/memory/storage.go\<close> as a record of its methods over a store
  state, the way a Go interface value carries its method table, and the contract the registry
  relies on.  The contract is stated on four maps, the views of a store: agents, functions, code
  archives and the owner of each execution.  A failed write is in doubt: it may or may not have
  happened.
\<close>

section \<open>The interface\<close>

record 'm memory =
  SaveFunction :: "func \<Rightarrow> 'm \<Rightarrow> go_error option \<times> 'm"
  GetFunction :: "string \<Rightarrow> 'm \<Rightarrow> go_error + func option"
  GetAllFunctions :: "'m \<Rightarrow> go_error + func list"
  SaveCodeArchive :: "string \<Rightarrow> bytes \<Rightarrow> 'm \<Rightarrow> go_error option \<times> 'm"
  GetCodeArchive :: "string \<Rightarrow> 'm \<Rightarrow> go_error + bytes option"
  SaveAgent :: "agent \<Rightarrow> 'm \<Rightarrow> go_error option \<times> 'm"
  GetAgent :: "string \<Rightarrow> 'm \<Rightarrow> go_error + agent option"
  GetAllAgents :: "'m \<Rightarrow> go_error + agent list"
  DeleteAgent :: "string \<Rightarrow> 'm \<Rightarrow> go_error option \<times> 'm"
  SaveExecutionToAgentMap :: "string \<Rightarrow> string \<Rightarrow> 'm \<Rightarrow> go_error option \<times> 'm"
  GetExecutionToAgentMap :: "string \<Rightarrow> 'm \<Rightarrow> go_error + string"
  Flush :: "'m \<Rightarrow> go_error option \<times> 'm"

section \<open>Views and the contract\<close>

text \<open>The four maps a store represents.\<close>

record store_view =
  v_agents :: "string \<rightharpoonup> agent"
  v_funcs :: "string \<rightharpoonup> func"
  v_codes :: "string \<rightharpoonup> bytes"
  v_execs :: "string \<rightharpoonup> string"

text \<open>
  The values of a map, each once per key, in some order: what a scan of all keys returns.
\<close>

definition enumerates :: "'v list \<Rightarrow> (string \<rightharpoonup> 'v) \<Rightarrow> bool" where
  "enumerates vs m \<longleftrightarrow>
     (\<exists>ks. distinct ks \<and> set ks = dom m \<and> vs = map (\<lambda>k. the (m k)) ks)"

lemma enumerates_set: "enumerates vs m \<Longrightarrow> set vs = ran m"
  by (force simp: enumerates_def ran_def dom_def image_iff)

lemma enumerates_empty [simp]: "enumerates [] m \<longleftrightarrow> m = Map.empty"
  by (auto simp: enumerates_def)

lemma enumerates_length: "enumerates vs m \<Longrightarrow> length vs = card (dom m)"
  by (metis distinct_card enumerates_def length_map)

text \<open>When every value carries its key, the enumeration has no duplicate keys.\<close>

lemma enumerates_distinct:
  assumes "enumerates vs m" and "\<And>k v. m k = Some v \<Longrightarrow> key v = k"
  shows "distinct (map key vs)"
proof -
  obtain ks where ks: "distinct ks" "set ks = dom m" "vs = map (\<lambda>k. the (m k)) ks"
    using assms(1) by (auto simp: enumerates_def)
  then have "map key vs = ks" using assms(2) by (intro nth_equalityI) (auto simp: dom_def dest!: nth_mem)
  with ks(1) show ?thesis by simp
qed

locale memory_contract =
  fixes M :: "'m memory" and view :: "'m \<Rightarrow> store_view"
  assumes get_agent: "GetAgent M i s = Inr r \<Longrightarrow> r = v_agents (view s) i"
    and all_agents: "GetAllAgents M s = Inr as \<Longrightarrow> enumerates as (v_agents (view s))"
    and get_function: "GetFunction M n s = Inr fo \<Longrightarrow> fo = v_funcs (view s) n"
    and all_functions: "GetAllFunctions M s = Inr fs \<Longrightarrow> enumerates fs (v_funcs (view s))"
    and get_code: "GetCodeArchive M n s = Inr c \<Longrightarrow> c = v_codes (view s) n"
    and get_exec: "GetExecutionToAgentMap M x s = Inr i \<Longrightarrow>
      i = (case v_execs (view s) x of None \<Rightarrow> [] | Some i \<Rightarrow> i)"
    and save_agent: "SaveAgent M a s = (e, s') \<Longrightarrow>
      view s' = view s\<lparr>v_agents := (v_agents (view s))(ID a \<mapsto> a)\<rparr> \<or> e \<noteq> None \<and> view s' = view s"
    and delete_agent: "DeleteAgent M i s = (e, s') \<Longrightarrow>
      view s' = view s\<lparr>v_agents := (v_agents (view s))(i := None)\<rparr> \<or> e \<noteq> None \<and> view s' = view s"
    and save_function: "SaveFunction M f s = (e, s') \<Longrightarrow>
      view s' = view s\<lparr>v_funcs := (v_funcs (view s))(Name f \<mapsto> f)\<rparr> \<or> e \<noteq> None \<and> view s' = view s"
    and save_code: "SaveCodeArchive M n b s = (e, s') \<Longrightarrow>
      view s' = view s\<lparr>v_codes := (v_codes (view s))(n \<mapsto> b)\<rparr> \<or> e \<noteq> None \<and> view s' = view s"
    and save_exec: "SaveExecutionToAgentMap M x i s = (e, s') \<Longrightarrow>
      view s' = view s\<lparr>v_execs := (v_execs (view s))(x \<mapsto> i)\<rparr> \<or> e \<noteq> None \<and> view s' = view s"
    and flush: "Flush M s = (None, s') \<Longrightarrow>
      view s' = \<lparr>v_agents = Map.empty, v_funcs = Map.empty, v_codes = Map.empty, v_execs = Map.empty\<rparr>"
    and flush_shrinks: "Flush M s = (e, s') \<Longrightarrow>
      v_agents (view s') \<subseteq>\<^sub>m v_agents (view s) \<and> v_funcs (view s') \<subseteq>\<^sub>m v_funcs (view s) \<and>
      v_codes (view s') \<subseteq>\<^sub>m v_codes (view s) \<and> v_execs (view s') \<subseteq>\<^sub>m v_execs (view s)"

text \<open>
  A view is keyed when every agent and every function is stored under its own name.
\<close>

definition keyed :: "store_view \<Rightarrow> bool" where
  "keyed v \<longleftrightarrow>
     (\<forall>i a. v_agents v i = Some a \<longrightarrow> ID a = i) \<and> (\<forall>n f. v_funcs v n = Some f \<longrightarrow> Name f = n)"

text \<open>
  A store in service: from a state that is \<open>up\<close> every read answers, every write of a document that
  can be encoded succeeds, and the state stays \<open>up\<close>.
\<close>

locale memory_in_service = memory_contract +
  fixes up :: "'a \<Rightarrow> bool"
  assumes up_get_agent: "up s \<Longrightarrow> \<exists>r. GetAgent M i s = Inr r"
    and up_all_agents: "up s \<Longrightarrow> \<exists>as. GetAllAgents M s = Inr as"
    and up_get_function: "up s \<Longrightarrow> \<exists>f. GetFunction M n s = Inr f"
    and up_all_functions: "up s \<Longrightarrow> \<exists>fs. GetAllFunctions M s = Inr fs"
    and up_get_code: "up s \<Longrightarrow> \<exists>c. GetCodeArchive M n s = Inr c"
    and up_get_exec: "up s \<Longrightarrow> \<exists>i. GetExecutionToAgentMap M x s = Inr i"
    and up_save_agent: "up s \<Longrightarrow> agent_json_ok a \<Longrightarrow> \<exists>s'. SaveAgent M a s = (None, s') \<and> up s'"
    and up_delete_agent: "up s \<Longrightarrow> \<exists>s'. DeleteAgent M i s = (None, s') \<and> up s'"
    and up_save_function: "up s \<Longrightarrow> \<exists>s'. SaveFunction M f s = (None, s') \<and> up s'"
    and up_save_code: "up s \<Longrightarrow> \<exists>s'. SaveCodeArchive M n b s = (None, s') \<and> up s'"
    and up_save_exec: "up s \<Longrightarrow> \<exists>s'. SaveExecutionToAgentMap M x i s = (None, s') \<and> up s'"
    and up_flush: "up s \<Longrightarrow> \<exists>s'. Flush M s = (None, s') \<and> up s'"
    and up_stored: "up s \<Longrightarrow> v_agents (view s) i = Some a \<Longrightarrow> agent_json_ok a"
    and up_save_agent_refused: "up s \<Longrightarrow> \<not> agent_json_ok a \<Longrightarrow> \<exists>e. SaveAgent M a s = (Some e, s)"

end
