(* ===== verification/Redis_Memory.thy ===== *)
theory Redis_Memory imports Memory begin

text \<open>
  \<open>RedisMemory\<close> of \<open>pkg/memory/redis.go\<close>: the implementation of \<open>Memory\<close> over a Redis client.
  The client and the server behind it are a parameter, a record of the five commands the code
  issues; the locale \<open>redis_server\<close> states what Redis documents of them.  The sublocale proof is
  the refinement: whatever the client, \<open>RedisMemory\<close> over it satisfies the contract of \<open>Memory\<close>.
  A small association-list server at the end shows the contract is met by something.
\<close>

section \<open>The commands of the client\<close>

datatype redis_error = RedisNil | RedisError go_error

record 'r redis_client =
  RKeys :: "string \<Rightarrow> 'r \<Rightarrow> go_error + string list"
  RMGet :: "string list \<Rightarrow> 'r \<Rightarrow> go_error + bytes option list"
  RGet :: "string \<Rightarrow> 'r \<Rightarrow> redis_error + bytes"
  RSet :: "string \<Rightarrow> bytes \<Rightarrow> duration \<Rightarrow> 'r \<Rightarrow> go_error option \<times> 'r"
  RDel :: "string list \<Rightarrow> 'r \<Rightarrow> go_error option \<times> 'r"

section \<open>Keys\<close>

definition agent_key :: "string \<Rightarrow> string" where
  "agent_key i = ''flux:agents:'' @ i"

definition function_key :: "string \<Rightarrow> string" where
  "function_key n = ''flux:functions:'' @ n"

definition code_key :: "string \<Rightarrow> string" where
  "code_key n = ''flux:code:'' @ n"

definition execmap_key :: "string \<Rightarrow> string" where
  "execmap_key x = ''flux:execmap:'' @ x"

section \<open>Operations\<close>

text \<open>\<open>json.Unmarshal\<close> of a stored value; bytes that are not a document do not parse.\<close>

definition parse_json :: "(json \<Rightarrow> 'a option) \<Rightarrow> bytes \<Rightarrow> 'a option" where
  "parse_json dec b = (case b of JsonText j \<Rightarrow> dec j | RawBytes _ \<Rightarrow> None)"

abbreviation decode_agent :: "bytes \<Rightarrow> agent option" where
  "decode_agent \<equiv> parse_json unmarshal_agent"

abbreviation decode_func :: "bytes \<Rightarrow> func option" where
  "decode_func \<equiv> parse_json unmarshal_func"

definition redis_SaveFunction :: "'r redis_client \<Rightarrow> func \<Rightarrow> 'r \<Rightarrow> go_error option \<times> 'r" where
  "redis_SaveFunction R f r = RSet R (function_key (Name f)) (JsonText (marshal_func f)) 0 r"

definition redis_GetFunction :: "'r redis_client \<Rightarrow> string \<Rightarrow> 'r \<Rightarrow> go_error + func option" where
  "redis_GetFunction R n r =
     (case RGet R (function_key n) r of
        Inl RedisNil \<Rightarrow> Inr None
      | Inl (RedisError e) \<Rightarrow> Inl e
      | Inr b \<Rightarrow>
          (case decode_func b of None \<Rightarrow> Inl ''json: cannot unmarshal'' | Some f \<Rightarrow> Inr (Some f)))"

text \<open>The loop over the values of \<open>MGet\<close>: a nil value and one that does not decode are skipped.\<close>

fun decode_values :: "(bytes \<Rightarrow> 'a option) \<Rightarrow> bytes option list \<Rightarrow> 'a list" where
  "decode_values dec [] = []"
| "decode_values dec (None # vs) = decode_values dec vs"
| "decode_values dec (Some b # vs) =
     (case dec b of None \<Rightarrow> decode_values dec vs | Some a \<Rightarrow> a # decode_values dec vs)"

definition redis_GetAllFunctions :: "'r redis_client \<Rightarrow> 'r \<Rightarrow> go_error + func list" where
  "redis_GetAllFunctions R r =
     (case RKeys R ''flux:functions:*'' r of
        Inl e \<Rightarrow> Inl e
      | Inr ks \<Rightarrow>
          if ks = [] then Inr []
          else (case RMGet R ks r of
                  Inl e \<Rightarrow> Inl e
                | Inr vs \<Rightarrow> Inr (decode_values decode_func vs)))"

definition redis_SaveCodeArchive :: "'r redis_client \<Rightarrow> string \<Rightarrow> bytes \<Rightarrow> 'r \<Rightarrow> go_error option \<times> 'r" where
  "redis_SaveCodeArchive R n b r = RSet R (code_key n) b 0 r"

definition redis_GetCodeArchive :: "'r redis_client \<Rightarrow> string \<Rightarrow> 'r \<Rightarrow> go_error + bytes option" where
  "redis_GetCodeArchive R n r =
     (case RGet R (code_key n) r of
        Inl RedisNil \<Rightarrow> Inr None
      | Inl (RedisError e) \<Rightarrow> Inl e
      | Inr b \<Rightarrow> Inr (Some b))"

definition redis_SaveAgent :: "'r redis_client \<Rightarrow> agent \<Rightarrow> 'r \<Rightarrow> go_error option \<times> 'r" where
  "redis_SaveAgent R a r =
     (case marshal_agent a of
        None \<Rightarrow> (Some ''json: unsupported value'', r)
      | Some j \<Rightarrow> RSet R (agent_key (ID a)) (JsonText j) 0 r)"

definition redis_GetAgent :: "'r redis_client \<Rightarrow> string \<Rightarrow> 'r \<Rightarrow> go_error + agent option" where
  "redis_GetAgent R i r =
     (case RGet R (agent_key i) r of
        Inl RedisNil \<Rightarrow> Inr None
      | Inl (RedisError e) \<Rightarrow> Inl e
      | Inr b \<Rightarrow>
          (case decode_agent b of None \<Rightarrow> Inl ''json: cannot unmarshal'' | Some a \<Rightarrow> Inr (Some a)))"

definition redis_DeleteAgent :: "'r redis_client \<Rightarrow> string \<Rightarrow> 'r \<Rightarrow> go_error option \<times> 'r" where
  "redis_DeleteAgent R i r = RDel R [agent_key i] r"

text \<open>
  The value of an execution key is the agent's identifier as it stands; no document is ever
  stored there, and reading one back as a string is left an error.
\<close>

definition redis_SaveExecutionToAgentMap ::
  "'r redis_client \<Rightarrow> string \<Rightarrow> string \<Rightarrow> 'r \<Rightarrow> go_error option \<times> 'r" where
  "redis_SaveExecutionToAgentMap R x i r =
     RSet R (execmap_key x) (RawBytes i) (2 * 3600 * 10 ^ 9) r"

definition redis_GetExecutionToAgentMap :: "'r redis_client \<Rightarrow> string \<Rightarrow> 'r \<Rightarrow> go_error + string" where
  "redis_GetExecutionToAgentMap R x r =
     (case RGet R (execmap_key x) r of
        Inl RedisNil \<Rightarrow> Inr []
      | Inl (RedisError e) \<Rightarrow> Inl e
      | Inr (RawBytes i) \<Rightarrow> Inr i
      | Inr (JsonText _) \<Rightarrow> Inl ''unexpected document'')"

definition redis_GetAllAgents :: "'r redis_client \<Rightarrow> 'r \<Rightarrow> go_error + agent list" where
  "redis_GetAllAgents R r =
     (case RKeys R ''flux:agents:*'' r of
        Inl e \<Rightarrow> Inl e
      | Inr ks \<Rightarrow>
          if ks = [] then Inr []
          else (case RMGet R ks r of
                  Inl e \<Rightarrow> Inl e
                | Inr vs \<Rightarrow> Inr (decode_values decode_agent vs)))"

text \<open>\<open>Flush\<close> deletes the keys of one pattern after the other and stops at the first error.\<close>

fun flush_patterns :: "'r redis_client \<Rightarrow> string list \<Rightarrow> 'r \<Rightarrow> go_error option \<times> 'r" where
  "flush_patterns R [] r = (None, r)"
| "flush_patterns R (p # ps) r =
     (case RKeys R p r of
        Inl e \<Rightarrow> (Some e, r)
      | Inr ks \<Rightarrow>
          if 0 < length ks
          then (case RDel R ks r of
                  (Some e, r') \<Rightarrow> (Some e, r')
                | (None, r') \<Rightarrow> flush_patterns R ps r')
          else flush_patterns R ps r)"

definition redis_Flush :: "'r redis_client \<Rightarrow> 'r \<Rightarrow> go_error option \<times> 'r" where
  "redis_Flush R r =
     flush_patterns R [''flux:agents:*'', ''flux:execmap:*'', ''flux:functions:*'', ''flux:code:*''] r"

definition RedisMemory :: "'r redis_client \<Rightarrow> 'r memory" where
  "RedisMemory R =
     \<lparr>SaveFunction = redis_SaveFunction R, GetFunction = redis_GetFunction R,
      GetAllFunctions = redis_GetAllFunctions R,
      SaveCodeArchive = redis_SaveCodeArchive R, GetCodeArchive = redis_GetCodeArchive R,
      SaveAgent = redis_SaveAgent R, GetAgent = redis_GetAgent R,
      GetAllAgents = redis_GetAllAgents R, DeleteAgent = redis_DeleteAgent R,
      SaveExecutionToAgentMap = redis_SaveExecutionToAgentMap R,
      GetExecutionToAgentMap = redis_GetExecutionToAgentMap R,
      Flush = redis_Flush R\<rparr>"

text \<open>
  \<open>NewRedisMemory\<close> takes the configured address; \<open>redis.ParseURL\<close> and \<open>redis.NewClient\<close> are parameters,
  and an address that does not parse is a panic.
\<close>

definition NewRedisMemory ::
  "(string \<Rightarrow> go_error + 'o) \<Rightarrow> ('o \<Rightarrow> 'r redis_client) \<Rightarrow> string \<Rightarrow> 'r memory go_result" where
  "NewRedisMemory ParseURL NewClient addr =
     (case ParseURL addr of
        Inl e \<Rightarrow> Panic e
      | Inr opt \<Rightarrow> Ret (RedisMemory (NewClient opt)))"

section \<open>What Redis documents\<close>

text \<open>
  \<open>kv\<close> is the content of the database.  \<open>KEYS\<close> of a literal prefix and a star lists the keys with
  that prefix, in any order; a command that reports an error may or may not have run.
\<close>

definition glob_literal :: "string \<Rightarrow> bool" where
  "glob_literal p \<longleftrightarrow> set p \<inter> {CHR ''*'', CHR ''?'', CHR ''['', CHR 0x5C} = {}"

locale redis_server =
  fixes R :: "'r redis_client" and kv :: "'r \<Rightarrow> string \<rightharpoonup> bytes"
  assumes keys: "RKeys R (p @ ''*'') r = Inr ks \<Longrightarrow> glob_literal p \<Longrightarrow>
      distinct ks \<and> set ks = {k \<in> dom (kv r). prefix p k}"
    and mget: "RMGet R ks r = Inr vs \<Longrightarrow> vs = map (kv r) ks"
    and get_some: "RGet R k r = Inr b \<Longrightarrow> kv r k = Some b"
    and get_nil: "RGet R k r = Inl RedisNil \<Longrightarrow> kv r k = None"
    and set_value: "RSet R k b ttl r = (e, r') \<Longrightarrow>
      kv r' = (kv r)(k \<mapsto> b) \<or> e \<noteq> None \<and> kv r' = kv r"
    and del: "RDel R ks r = (e, r') \<Longrightarrow>
      kv r' = kv r |` (- set ks) \<or> e \<noteq> None \<and> kv r' = kv r"

section \<open>The view of a database\<close>

lemma key_simps [simp]:
  "agent_key i = agent_key i' \<longleftrightarrow> i = i'"
  "function_key i = function_key i' \<longleftrightarrow> i = i'"
  "code_key i = code_key i' \<longleftrightarrow> i = i'"
  "execmap_key i = execmap_key i' \<longleftrightarrow> i = i'"
  "agent_key i \<noteq> function_key n" "function_key n \<noteq> agent_key i"
  "agent_key i \<noteq> code_key n" "code_key n \<noteq> agent_key i"
  "agent_key i \<noteq> execmap_key x" "execmap_key x \<noteq> agent_key i"
  "function_key n \<noteq> code_key m" "code_key m \<noteq> function_key n"
  "function_key n \<noteq> execmap_key x" "execmap_key x \<noteq> function_key n"
  "code_key n \<noteq> execmap_key x" "execmap_key x \<noteq> code_key n"
  by (simp_all add: agent_key_def function_key_def code_key_def execmap_key_def)

definition exec_owner :: "bytes \<Rightarrow> string option" where
  "exec_owner b = (case b of RawBytes i \<Rightarrow> Some i | JsonText _ \<Rightarrow> None)"

definition redis_view :: "(string \<rightharpoonup> bytes) \<Rightarrow> store_view" where
  "redis_view m =
     \<lparr>v_agents = (\<lambda>i. Option.bind (m (agent_key i)) decode_agent),
      v_funcs = (\<lambda>n. Option.bind (m (function_key n)) decode_func),
      v_codes = (\<lambda>n. m (code_key n)),
      v_execs = (\<lambda>x. Option.bind (m (execmap_key x)) exec_owner)\<rparr>"

lemma decode_values_filter:
  "decode_values dec (map m ks) =
     map (\<lambda>k. the (Option.bind (m k) dec)) (filter (\<lambda>k. Option.bind (m k) dec \<noteq> None) ks)"
proof (induction ks)
  case (Cons k ks)
  then show ?case by (cases "m k") (auto split: option.splits)
qed simp

lemma decode_values_enumerates:
  assumes "distinct ks" and "set ks = {k \<in> dom m. prefix p k}"
  shows "enumerates (decode_values dec (map m ks)) (\<lambda>i. Option.bind (m (p @ i)) dec)"
proof -
  define good where "good = filter (\<lambda>k. Option.bind (m k) dec \<noteq> None) ks"
  define ids where "ids = map (drop (length p)) good"
  have pre: "k \<in> set good \<Longrightarrow> p @ drop (length p) k = k" for k
    using assms(2) by (auto simp: good_def prefix_def)
  have "inj_on (drop (length p)) (set good)" by (rule inj_onI) (metis pre)
  then have "distinct ids" unfolding ids_def distinct_map using assms(1) by (simp add: good_def)
  moreover have "set ids = dom (\<lambda>i. Option.bind (m (p @ i)) dec)"
  proof
    show "set ids \<subseteq> dom (\<lambda>i. Option.bind (m (p @ i)) dec)"
      using pre by (auto simp: ids_def good_def)
    show "dom (\<lambda>i. Option.bind (m (p @ i)) dec) \<subseteq> set ids"
    proof
      fix i
      assume "i \<in> dom (\<lambda>i. Option.bind (m (p @ i)) dec)"
      then have "p @ i \<in> set good"
        using assms(2) by (auto simp: good_def dom_def bind_eq_Some_conv)
      then have "drop (length p) (p @ i) \<in> set ids" unfolding ids_def set_map by (rule imageI)
      then show "i \<in> set ids" by simp
    qed
  qed
  moreover have "decode_values dec (map m ks) = map (\<lambda>i. the (Option.bind (m (p @ i)) dec)) ids"
  proof -
    have "map (\<lambda>i. the (Option.bind (m (p @ i)) dec)) ids = map (\<lambda>k. the (Option.bind (m k) dec)) good"
      unfolding ids_def map_map by (rule map_cong) (simp_all add: pre)
    then show ?thesis unfolding decode_values_filter good_def by simp
  qed
  ultimately show ?thesis unfolding enumerates_def by blast
qed

lemma redis_view_shrinks:
  "m \<subseteq>\<^sub>m n \<Longrightarrow>
     v_agents (redis_view m) \<subseteq>\<^sub>m v_agents (redis_view n) \<and>
     v_funcs (redis_view m) \<subseteq>\<^sub>m v_funcs (redis_view n) \<and>
     v_codes (redis_view m) \<subseteq>\<^sub>m v_codes (redis_view n) \<and>
     v_execs (redis_view m) \<subseteq>\<^sub>m v_execs (redis_view n)"
  by (auto simp: redis_view_def map_le_def dom_def bind_eq_Some_conv)

section \<open>RedisMemory satisfies the contract\<close>

lemma glob_patterns [simp]:
  "glob_literal ''flux:agents:''" "glob_literal ''flux:functions:''"
  "glob_literal ''flux:code:''" "glob_literal ''flux:execmap:''"
  by (simp_all add: glob_literal_def)

context redis_server begin

lemma scan_enumerates:
  assumes "glob_literal p" and "RKeys R (p @ ''*'') r = Inr ks" and "RMGet R ks r = Inr vs"
  shows "enumerates (decode_values dec vs) (\<lambda>i. Option.bind (kv r (p @ i)) dec)"
  using keys [OF assms(2,1)] mget [OF assms(3)] decode_values_enumerates by blast

lemma scan_empty:
  assumes "glob_literal p" and "RKeys R (p @ ''*'') r = Inr []"
  shows "(\<lambda>i. Option.bind (kv r (p @ i)) dec) = Map.empty"
  using keys [OF assms(2,1)] by (force simp: dom_def bind_eq_None_conv)

lemma flush_step:
  assumes "glob_literal p" and "RKeys R (p @ ''*'') r = Inr ks"
    and "RDel R ks r = (None, r')"
  shows "kv r' = kv r |` {k. \<not> prefix p k}"
  using keys [OF assms(2,1)] del [OF assms(3)] by (auto simp: restrict_map_def fun_eq_iff dom_def)

lemma flush_patterns_kv:
  assumes "\<forall>p \<in> set ps. glob_literal p"
  shows "flush_patterns R (map (\<lambda>p. p @ ''*'') ps) r = (e, r') \<Longrightarrow>
    kv r' \<subseteq>\<^sub>m kv r \<and> (e = None \<longrightarrow> kv r' = kv r |` {k. \<forall>p \<in> set ps. \<not> prefix p k})"
  using assms
proof (induction ps arbitrary: r)
  case (Cons p ps)
  consider (err) x where "RKeys R (p @ ''*'') r = Inl x"
    | (none) "RKeys R (p @ ''*'') r = Inr []"
    | (del) ks x r1 where "RKeys R (p @ ''*'') r = Inr ks" "ks \<noteq> []" "RDel R ks r = (x, r1)"
    by (metis old.sum.exhaust surj_pair)
  then show ?case
  proof cases
    case err
    then show ?thesis using Cons.prems by auto
  next
    case none
    then have "kv r |` {k. \<forall>q \<in> set (p # ps). \<not> prefix q k} = kv r |` {k. \<forall>q \<in> set ps. \<not> prefix q k}"
      using keys [OF none] Cons.prems(2) by (auto simp: restrict_map_def fun_eq_iff dom_def) metis
    then show ?thesis using Cons none by simp
  next
    case del
    have le: "kv r1 \<subseteq>\<^sub>m kv r"
      using redis_server.del [OF redis_server_axioms del(3)] by (auto simp: map_le_def restrict_map_def split: if_splits)
    show ?thesis
    proof (cases x)
      case None
      then have eq: "kv r1 = kv r |` {k. \<not> prefix p k}"
        using flush_step [of p r ks r1] del Cons.prems(2) by simp
      have "flush_patterns R (map (\<lambda>p. p @ ''*'') ps) r1 = (e, r')"
        using Cons.prems(1) del None by simp
      then have IH: "kv r' \<subseteq>\<^sub>m kv r1"
          "e = None \<longrightarrow> kv r' = kv r1 |` {k. \<forall>p \<in> set ps. \<not> prefix p k}"
        using Cons.IH Cons.prems(2) by simp_all
      have "kv r1 |` {k. \<forall>p \<in> set ps. \<not> prefix p k} = kv r |` {k. \<forall>q \<in> set (p # ps). \<not> prefix q k}"
        by (simp add: eq restrict_map_def fun_eq_iff)
      then show ?thesis using IH map_le_trans [OF IH(1) le] by simp
    next
      case (Some y)
      then show ?thesis using Cons.prems(1) del le by auto
    qed
  qed
qed (auto simp: restrict_map_def)

lemma redis_Flush_kv:
  assumes "redis_Flush R r = (e, r')"
  shows "kv r' \<subseteq>\<^sub>m kv r" and "e = None \<Longrightarrow> kv r' = kv r |` {k. \<not> prefix ''flux:agents:'' k \<and>
    \<not> prefix ''flux:execmap:'' k \<and> \<not> prefix ''flux:functions:'' k \<and> \<not> prefix ''flux:code:'' k}"
proof -
  let ?ps = "[''flux:agents:'', ''flux:execmap:'', ''flux:functions:'', ''flux:code:'']"
  have "flush_patterns R (map (\<lambda>p. p @ ''*'') ?ps) r = (e, r')"
    using assms by (simp add: redis_Flush_def)
  from flush_patterns_kv [OF _ this]
  show "kv r' \<subseteq>\<^sub>m kv r" and "e = None \<Longrightarrow> kv r' = kv r |` {k. \<not> prefix ''flux:agents:'' k \<and>
    \<not> prefix ''flux:execmap:'' k \<and> \<not> prefix ''flux:functions:'' k \<and> \<not> prefix ''flux:code:'' k}"
    by (simp_all add: Collect_conj_eq)
qed

lemma redis_view_update [simp]:
  "redis_view ((kv r)(agent_key i \<mapsto> b)) =
     redis_view (kv r)\<lparr>v_agents := (v_agents (redis_view (kv r)))(i := decode_agent b)\<rparr>"
  "redis_view ((kv r)(function_key n \<mapsto> b)) =
     redis_view (kv r)\<lparr>v_funcs := (v_funcs (redis_view (kv r)))(n := decode_func b)\<rparr>"
  "redis_view ((kv r)(code_key n \<mapsto> b)) =
     redis_view (kv r)\<lparr>v_codes := (v_codes (redis_view (kv r)))(n \<mapsto> b)\<rparr>"
  "redis_view ((kv r)(execmap_key n \<mapsto> b)) =
     redis_view (kv r)\<lparr>v_execs := (v_execs (redis_view (kv r)))(n := exec_owner b)\<rparr>"
  by (auto simp: redis_view_def fun_eq_iff)

lemma redis_view_restrict_agent:
  "redis_view (kv r |` (- {agent_key i})) =
     redis_view (kv r)\<lparr>v_agents := (v_agents (redis_view (kv r)))(i := None)\<rparr>"
  by (auto simp: redis_view_def fun_eq_iff restrict_map_def)

lemma redis_SaveAgent_view:
  assumes "redis_SaveAgent R a r = (e, r')"
  shows "redis_view (kv r') =
      redis_view (kv r)\<lparr>v_agents := (v_agents (redis_view (kv r)))(ID a \<mapsto> a)\<rparr> \<or>
    e \<noteq> None \<and> redis_view (kv r') = redis_view (kv r)"
proof (cases "marshal_agent a")
  case None
  then show ?thesis using assms by (auto simp: redis_SaveAgent_def)
next
  case (Some j)
  then have "RSet R (agent_key (ID a)) (JsonText j) 0 r = (e, r')"
    using assms by (simp add: redis_SaveAgent_def)
  from set_value [OF this] show ?thesis
    using unmarshal_agent_marshal [OF Some] by (auto simp: parse_json_def)
qed

lemma redis_Flush_view:
  "redis_Flush R r = (None, r') \<Longrightarrow>
     redis_view (kv r') =
       \<lparr>v_agents = Map.empty, v_funcs = Map.empty, v_codes = Map.empty, v_execs = Map.empty\<rparr>"
  using redis_Flush_kv(2) [of r None r']
  by (simp add: redis_view_def fun_eq_iff restrict_map_def agent_key_def function_key_def
      code_key_def execmap_key_def)

lemma redis_reads:
  "redis_GetAgent R i r = Inr ao \<Longrightarrow> ao = v_agents (redis_view (kv r)) i"
  "redis_GetFunction R n r = Inr fo \<Longrightarrow> fo = v_funcs (redis_view (kv r)) n"
  "redis_GetCodeArchive R n r = Inr c \<Longrightarrow> c = v_codes (redis_view (kv r)) n"
  "redis_GetExecutionToAgentMap R x r = Inr w \<Longrightarrow>
     w = (case v_execs (redis_view (kv r)) x of None \<Rightarrow> [] | Some i \<Rightarrow> i)"
  by (auto simp: redis_GetAgent_def redis_GetFunction_def redis_GetCodeArchive_def
      redis_GetExecutionToAgentMap_def redis_view_def exec_owner_def
      split: sum.splits redis_error.splits option.splits bytes.splits dest!: get_some get_nil)

lemma redis_scans:
  "redis_GetAllAgents R r = Inr as \<Longrightarrow> enumerates as (v_agents (redis_view (kv r)))"
  "redis_GetAllFunctions R r = Inr fs \<Longrightarrow> enumerates fs (v_funcs (redis_view (kv r)))"
  using scan_enumerates [of "''flux:agents:''" r _ _ decode_agent] scan_empty [of "''flux:agents:''" r decode_agent]
    scan_enumerates [of "''flux:functions:''" r _ _ decode_func] scan_empty [of "''flux:functions:''" r decode_func]
  by (auto simp: redis_GetAllAgents_def redis_GetAllFunctions_def redis_view_def
      agent_key_def [abs_def] function_key_def [abs_def] split: sum.splits if_splits)

lemma redis_memory_contract: "memory_contract (RedisMemory R) (\<lambda>r. redis_view (kv r))"
proof (unfold_locales, goal_cases)
  case (7 a s e s')
  then show ?case using redis_SaveAgent_view by (simp add: RedisMemory_def)
next
  case (8 i s e s')
  then show ?case
    using del [of "[agent_key i]" s e s'] redis_view_restrict_agent [of s i]
    by (auto simp: RedisMemory_def redis_DeleteAgent_def)
next
  case (9 f s e s')
  then show ?case
    using set_value [of "function_key (Name f)" "JsonText (marshal_func f)" 0 s e s']
    by (auto simp: RedisMemory_def redis_SaveFunction_def parse_json_def unmarshal_func_marshal)
next
  case (10 n b s e s')
  then show ?case
    using set_value [of "code_key n" b 0 s e s']
    by (auto simp: RedisMemory_def redis_SaveCodeArchive_def)
next
  case (11 x i s e s')
  then show ?case
    by (auto simp: RedisMemory_def redis_SaveExecutionToAgentMap_def exec_owner_def dest!: set_value)
next
  case (13 s e s')
  then show ?case using redis_Flush_kv(1) redis_view_shrinks by (simp add: RedisMemory_def)
qed (simp_all add: RedisMemory_def redis_reads redis_scans redis_Flush_view)

end

sublocale redis_server \<subseteq> stored: memory_contract "RedisMemory R" "\<lambda>r. redis_view (kv r)"
  by (rule redis_memory_contract)

section \<open>In service\<close>

text \<open>From a live state every command answers and leaves the server live.\<close>

locale redis_in_service = redis_server R kv for R :: "'r redis_client" and kv +
  fixes live :: "'r \<Rightarrow> bool"
  assumes live_keys: "live r \<Longrightarrow> \<exists>ks. RKeys R p r = Inr ks"
    and live_mget: "live r \<Longrightarrow> \<exists>vs. RMGet R ks r = Inr vs"
    and live_get: "live r \<Longrightarrow> RGet R k r \<noteq> Inl (RedisError e)"
    and live_set: "live r \<Longrightarrow> \<exists>r'. RSet R k b ttl r = (None, r') \<and> live r'"
    and live_del: "live r \<Longrightarrow> \<exists>r'. RDel R ks r = (None, r') \<and> live r'"

text \<open>
  Every value under a key of the program decodes, agents to records that can be written again:
  what the program's own writes leave.
\<close>

definition decodable :: "(string \<rightharpoonup> bytes) \<Rightarrow> bool" where
  "decodable m \<longleftrightarrow>
     (\<forall>i b. m (agent_key i) = Some b \<longrightarrow> (\<exists>a. decode_agent b = Some a \<and> agent_json_ok a)) \<and>
     (\<forall>n b. m (function_key n) = Some b \<longrightarrow> decode_func b \<noteq> None) \<and>
     (\<forall>x b. m (execmap_key x) = Some b \<longrightarrow> exec_owner b \<noteq> None)"

lemma decodable_agent:
  "decodable m \<Longrightarrow> m (agent_key i) = Some b \<Longrightarrow> \<exists>a. decode_agent b = Some a \<and> agent_json_ok a"
  unfolding decodable_def by blast

lemma decodable_shrinks: "m \<subseteq>\<^sub>m n \<Longrightarrow> decodable n \<Longrightarrow> decodable m"
  by (force simp: decodable_def map_le_def dom_def)

lemma decodable_update:
  "decodable m \<Longrightarrow> marshal_agent a = Some j \<Longrightarrow> decodable (m(agent_key i \<mapsto> JsonText j))"
  "decodable m \<Longrightarrow> decodable (m(function_key n \<mapsto> JsonText (marshal_func f)))"
  "decodable m \<Longrightarrow> decodable (m(code_key n \<mapsto> b))"
  "decodable m \<Longrightarrow> decodable (m(execmap_key x \<mapsto> RawBytes w))"
  using marshal_agent_ok_iff [of a]
  by (auto simp: decodable_def parse_json_def unmarshal_agent_marshal unmarshal_func_marshal exec_owner_def)

context redis_in_service begin

lemma live_RSet:
  assumes "live r"
  shows "\<exists>r'. RSet R k b ttl r = (None, r') \<and> live r' \<and> kv r' = (kv r)(k \<mapsto> b)"
  using live_set [OF assms, of k b ttl] by (auto dest: set_value)

lemma live_RDel:
  assumes "live r"
  shows "\<exists>r'. RDel R ks r = (None, r') \<and> live r' \<and> kv r' = kv r |` (- set ks)"
  using live_del [OF assms, of ks] by (auto dest: del)

lemma live_flush_patterns: "live r \<Longrightarrow> \<exists>r'. flush_patterns R ps r = (None, r') \<and> live r'"
proof (induction ps arbitrary: r)
  case (Cons p ps)
  obtain ks where ks: "RKeys R p r = Inr ks" using live_keys [OF Cons.prems] by blast
  obtain r1 where "RDel R ks r = (None, r1)" "live r1" using live_del [OF Cons.prems] by blast
  then show ?case using Cons ks by auto
qed simp

lemma redis_memory_in_service:
  "memory_in_service (RedisMemory R) (\<lambda>r. redis_view (kv r)) (\<lambda>r. live r \<and> decodable (kv r))"
proof (unfold_locales, goal_cases)
  case (1 s i)
  then have "\<And>b. kv s (agent_key i) = Some b \<Longrightarrow> decode_agent b \<noteq> None"
    using decodable_agent by fastforce
  then show ?case
    using 1 live_get [of s "agent_key i"] get_some [of "agent_key i" s]
    by (cases "RGet R (agent_key i) s")
      (auto simp: RedisMemory_def redis_GetAgent_def split: redis_error.splits option.splits)
next
  case (2 s)
  then show ?case
    using live_keys [of s "''flux:agents:*''"] live_mget [of s]
    by (auto simp: RedisMemory_def redis_GetAllAgents_def split: sum.splits) (metis sum.distinct(1))
next
  case (3 s n)
  then show ?case
    using live_get [of s "function_key n"] get_some [of "function_key n" s]
    by (cases "RGet R (function_key n) s")
      (auto simp: RedisMemory_def redis_GetFunction_def decodable_def split: redis_error.splits option.splits)
next
  case (4 s)
  then show ?case
    using live_keys [of s "''flux:functions:*''"] live_mget [of s]
    by (auto simp: RedisMemory_def redis_GetAllFunctions_def split: sum.splits) (metis sum.distinct(1))
next
  case (5 s n)
  then show ?case
    using live_get [of s "code_key n"]
    by (cases "RGet R (code_key n) s")
      (auto simp: RedisMemory_def redis_GetCodeArchive_def split: redis_error.splits)
next
  case (6 s x)
  then have "\<nexists>j. kv s (execmap_key x) = Some (JsonText j)"
    unfolding decodable_def exec_owner_def by force
  then show ?case
    using 6 live_get [of s "execmap_key x"] get_some [of "execmap_key x" s]
    by (cases "RGet R (execmap_key x) s")
      (auto simp: RedisMemory_def redis_GetExecutionToAgentMap_def split: redis_error.splits bytes.splits)
next
  case (7 s a)
  then obtain j where "marshal_agent a = Some j" using marshal_agent_ok_iff [of a] by blast
  then show ?case
    using 7 live_RSet [of s "agent_key (ID a)" "JsonText j" 0] decodable_update(1)
    by (auto simp: RedisMemory_def redis_SaveAgent_def)
next
  case (8 s i)
  then obtain r' where r': "RDel R [agent_key i] s = (None, r')" "live r'"
    "kv r' = kv s |` (- set [agent_key i])" using live_RDel by blast
  then have "kv r' \<subseteq>\<^sub>m kv s" by (auto simp: map_le_def restrict_map_def split: if_splits)
  then have "decodable (kv r')" using 8 decodable_shrinks by blast
  then show ?case using r' by (simp add: RedisMemory_def redis_DeleteAgent_def)
next
  case (9 s f)
  then show ?case
    using live_RSet [of s "function_key (Name f)" "JsonText (marshal_func f)" 0] decodable_update(2)
    by (auto simp: RedisMemory_def redis_SaveFunction_def)
next
  case (10 s n b)
  then show ?case
    using live_RSet [of s "code_key n" b 0] decodable_update(3)
    by (auto simp: RedisMemory_def redis_SaveCodeArchive_def)
next
  case (11 s x i)
  then show ?case
    using live_RSet [of s "execmap_key x" "RawBytes i" "2 * 3600 * 10 ^ 9"] decodable_update(4)
    by (auto simp: RedisMemory_def redis_SaveExecutionToAgentMap_def)
next
  case (12 s)
  then obtain r' where "redis_Flush R s = (None, r')" "live r'"
    unfolding redis_Flush_def using live_flush_patterns by blast
  then show ?case
    using 12 redis_Flush_kv(1) [of s None r'] decodable_shrinks by (auto simp: RedisMemory_def)
next
  case (13 s i a)
  then obtain b where "kv s (agent_key i) = Some b" "decode_agent b = Some a"
    by (auto simp: redis_view_def bind_eq_Some_conv)
  then show ?case using 13(1) decodable_agent [of "kv s" i b] by auto
next
  case (14 s a)
  then have "marshal_agent a = None" using marshal_agent_ok_iff [of a] by (cases "marshal_agent a") auto
  then show ?case by (simp add: RedisMemory_def redis_SaveAgent_def)
qed

end

sublocale redis_in_service \<subseteq>
  stored: memory_in_service "RedisMemory R" "\<lambda>r. redis_view (kv r)" "\<lambda>r. live r \<and> decodable (kv r)"
  by (rule redis_memory_in_service)

section \<open>A server\<close>

text \<open>
  An association list answers the commands as documented, for the patterns the code uses: a
  prefix followed by a star.
\<close>

definition alist_redis :: "(string \<times> bytes) list redis_client" where
  "alist_redis =
     \<lparr>RKeys = (\<lambda>p r. Inr (remdups (filter (prefix (butlast p)) (map fst r)))),
      RMGet = (\<lambda>ks r. Inr (map (map_of r) ks)),
      RGet = (\<lambda>k r. case map_of r k of None \<Rightarrow> Inl RedisNil | Some b \<Rightarrow> Inr b),
      RSet = (\<lambda>k b ttl r. (None, AList.update k b r)),
      RDel = (\<lambda>ks r. (None, filter (\<lambda>(k, _). k \<notin> set ks) r))\<rparr>"

lemma map_of_filter_keys: "map_of (filter (\<lambda>(k, _). P k) r) = map_of r |` {k. P k}"
  by (induction r) (auto simp: restrict_map_def fun_eq_iff)

interpretation alist: redis_in_service alist_redis map_of "\<lambda>_. True"
  by unfold_locales
    (auto simp: alist_redis_def update_conv' map_of_filter_keys Compl_eq dom_map_of_conv_image_fst
      split: option.splits)

section \<open>Properties\<close>

text \<open>
  C13. Whatever Redis client is plugged in, as long as it answers its five commands as documented,
  \<open>RedisMemory\<close> over it implements the contract of \<open>Memory\<close>: a read that answers returns what the
  view of the database holds, a write changes exactly its own entry or, when it reports an error,
  possibly nothing, and \<open>Flush\<close> empties all four maps.
\<close>

theorem redis_memory_refines:
  assumes "redis_server R kv"
  shows "memory_contract (RedisMemory R) (\<lambda>r. redis_view (kv r))"
  by (rule redis_server.redis_memory_contract [OF assms])

theorem redis_memory_refines_witness:
  "memory_contract (RedisMemory alist_redis) (\<lambda>r. redis_view (map_of r))"
  by (rule redis_memory_refines [OF alist.redis_server_axioms])

text \<open>
  C28. \<open>Flush\<close> deletes exactly the program's own keys: when it reports success, the keys of agents,
  execution owners, functions and code are gone and every other key keeps its value; when it
  fails half way, no key has appeared or changed its value.
\<close>

theorem redis_flush_exact:
  assumes "redis_server R kv" and "redis_Flush R r = (e, r')"
  shows "kv r' \<subseteq>\<^sub>m kv r \<and>
    (e = None \<longrightarrow> kv r' = kv r |` {k. \<not> prefix ''flux:agents:'' k \<and>
       \<not> prefix ''flux:execmap:'' k \<and> \<not> prefix ''flux:functions:'' k \<and> \<not> prefix ''flux:code:'' k})"
  using redis_server.redis_Flush_kv [OF assms(1,2)] by blast

theorem redis_flush_exact_witness:
  "\<exists>r'. redis_Flush alist_redis [(''flux:agents:a1'', RawBytes ''x''), (''other:1'', RawBytes ''y'')] = (None, r') \<and>
     map_of r' ''other:1'' = Some (RawBytes ''y'') \<and> map_of r' ''flux:agents:a1'' = None"
proof -
  let ?r = "[(''flux:agents:a1'', RawBytes ''x''), (''other:1'', RawBytes ''y'')]"
  obtain r' where run: "redis_Flush alist_redis ?r = (None, r')"
    by (simp add: redis_Flush_def alist_redis_def)
  from redis_flush_exact [OF alist.redis_server_axioms run] run show ?thesis
    by (auto simp: restrict_map_def)
qed

end
