(* ===== verification/Registry.thy ===== *)
theory Registry imports Redis_Memory begin

text \<open>
  \<open>pkg/registry/registry.go\<close>: the registry over a \<open>Memory\<close>.  A \<open>Registry\<close> value holds nothing but
  its memory, so an operation takes the method table and the store state.  Store errors are
  logged and dropped: a write that fails leaves the store's answer as it was, a read that fails
  looks like an absent record.
\<close>

section \<open>Agents\<close>

definition RegisterAgent ::
  "'m memory \<Rightarrow> time \<Rightarrow> string \<Rightarrow> string \<Rightarrow> string \<Rightarrow> string \<Rightarrow> string \<Rightarrow> 'm \<Rightarrow> 'm" where
  "RegisterAgent M now i address providerID instanceType provider s =
     snd (SaveAgent M
       \<lparr>ID = i, Address = address, ActiveCount = 0, LastHeartbeat = now, Status = AgentOnline,
        ProviderID = providerID, InstanceType = instanceType, Provider = provider,
        NodeStatus = None\<rparr> s)"

definition RegisterOfflineAgent ::
  "'m memory \<Rightarrow> time \<Rightarrow> string \<Rightarrow> string \<Rightarrow> string \<Rightarrow> string \<Rightarrow> string \<Rightarrow> 'm \<Rightarrow> 'm" where
  "RegisterOfflineAgent M now i address providerID instanceType provider s =
     snd (SaveAgent M
       \<lparr>ID = i, Address = address, ActiveCount = 0, LastHeartbeat = now, Status = AgentOffline,
        ProviderID = providerID, InstanceType = instanceType, Provider = provider,
        NodeStatus = None\<rparr> s)"

definition DeregisterAgent :: "'m memory \<Rightarrow> string \<Rightarrow> 'm \<Rightarrow> 'm" where
  "DeregisterAgent M i s = snd (DeleteAgent M i s)"

definition reg_Flush :: "'m memory \<Rightarrow> 'm \<Rightarrow> 'm" where
  "reg_Flush M s = snd (Flush M s)"

definition SetOffline :: "'m memory \<Rightarrow> string \<Rightarrow> 'm \<Rightarrow> 'm" where
  "SetOffline M i s =
     (case GetAgent M i s of
        Inl _ \<Rightarrow> s
      | Inr None \<Rightarrow> s
      | Inr (Some a) \<Rightarrow>
          if Status a = AgentDraining then s
          else snd (SaveAgent M (a\<lparr>Status := AgentOffline\<rparr>) s))"

definition SetDraining :: "'m memory \<Rightarrow> string \<Rightarrow> 'm \<Rightarrow> 'm" where
  "SetDraining M i s =
     (case GetAgent M i s of
        Inl _ \<Rightarrow> s
      | Inr None \<Rightarrow> s
      | Inr (Some a) \<Rightarrow> snd (SaveAgent M (a\<lparr>Status := AgentDraining\<rparr>) s))"

definition UpdateHeartbeat :: "'m memory \<Rightarrow> time \<Rightarrow> string \<Rightarrow> i32 \<Rightarrow> 'm \<Rightarrow> 'm" where
  "UpdateHeartbeat M now i activeCount s =
     (case GetAgent M i s of
        Inl _ \<Rightarrow> s
      | Inr None \<Rightarrow> s
      | Inr (Some a) \<Rightarrow>
          let a1 = a\<lparr>LastHeartbeat := now, ActiveCount := activeCount\<rparr>;
              a2 = (if Status a1 = AgentOffline then a1\<lparr>Status := AgentOnline\<rparr> else a1)
          in snd (SaveAgent M a2 s))"

definition UpdateNodeStatus :: "'m memory \<Rightarrow> string \<Rightarrow> node_status \<Rightarrow> 'm \<Rightarrow> 'm" where
  "UpdateNodeStatus M i status s =
     (case GetAgent M i s of
        Inl _ \<Rightarrow> s
      | Inr None \<Rightarrow> s
      | Inr (Some a) \<Rightarrow>
          let a1 = a\<lparr>NodeStatus := Some status, ActiveCount := ActiveTasks status,
                     LastHeartbeat := CollectedAt status\<rparr>;
              a2 = (if Status a1 = AgentOffline then a1\<lparr>Status := AgentOnline\<rparr> else a1)
          in snd (SaveAgent M a2 s))"

definition reg_GetAgent :: "'m memory \<Rightarrow> string \<Rightarrow> 'm \<Rightarrow> agent option" where
  "reg_GetAgent M i s = (case GetAgent M i s of Inl _ \<Rightarrow> None | Inr ao \<Rightarrow> ao)"

definition reg_GetAllAgents :: "'m memory \<Rightarrow> 'm \<Rightarrow> agent list" where
  "reg_GetAllAgents M s = (case GetAllAgents M s of Inl _ \<Rightarrow> [] | Inr as \<Rightarrow> as)"

text \<open>The two filters have the same body in the source.\<close>

definition GetAvailableAgents :: "'m memory \<Rightarrow> 'm \<Rightarrow> agent list" where
  "GetAvailableAgents M s =
     (case GetAllAgents M s of Inl _ \<Rightarrow> [] | Inr as \<Rightarrow> filter (\<lambda>a. Status a = AgentOnline) as)"

definition GetOnlineAgents :: "'m memory \<Rightarrow> 'm \<Rightarrow> agent list" where
  "GetOnlineAgents M s =
     (case GetAllAgents M s of Inl _ \<Rightarrow> [] | Inr as \<Rightarrow> filter (\<lambda>a. Status a = AgentOnline) as)"

section \<open>Functions, code and executions\<close>

definition RegisterFunction :: "'m memory \<Rightarrow> func \<Rightarrow> 'm \<Rightarrow> 'm" where
  "RegisterFunction M f s = snd (SaveFunction M f s)"

definition reg_GetFunction :: "'m memory \<Rightarrow> string \<Rightarrow> 'm \<Rightarrow> func option" where
  "reg_GetFunction M n s = (case GetFunction M n s of Inl _ \<Rightarrow> None | Inr fo \<Rightarrow> fo)"

definition reg_GetAllFunctions :: "'m memory \<Rightarrow> 'm \<Rightarrow> func list" where
  "reg_GetAllFunctions M s = (case GetAllFunctions M s of Inl _ \<Rightarrow> [] | Inr fs \<Rightarrow> fs)"

definition reg_SaveCodeArchive :: "'m memory \<Rightarrow> string \<Rightarrow> bytes \<Rightarrow> 'm \<Rightarrow> 'm" where
  "reg_SaveCodeArchive M n b s = snd (SaveCodeArchive M n b s)"

definition reg_GetCodeArchive :: "'m memory \<Rightarrow> string \<Rightarrow> 'm \<Rightarrow> bytes option" where
  "reg_GetCodeArchive M n s = (case GetCodeArchive M n s of Inl _ \<Rightarrow> None | Inr b \<Rightarrow> b)"

definition reg_SaveExecutionToAgentMap :: "'m memory \<Rightarrow> string \<Rightarrow> string \<Rightarrow> 'm \<Rightarrow> 'm" where
  "reg_SaveExecutionToAgentMap M x i s = snd (SaveExecutionToAgentMap M x i s)"

text \<open>The second result of the source is whether the identifier is non-empty.\<close>

definition reg_GetExecutionToAgentMap :: "'m memory \<Rightarrow> string \<Rightarrow> 'm \<Rightarrow> string \<times> bool" where
  "reg_GetExecutionToAgentMap M x s =
     (case GetExecutionToAgentMap M x s of Inl _ \<Rightarrow> ([], False) | Inr i \<Rightarrow> (i, i \<noteq> []))"

section \<open>The read-modify-write operations\<close>

text \<open>Four operations read a record, compute its successor and write it back.\<close>

definition offline_of :: "agent \<Rightarrow> agent option" where
  "offline_of a = (if Status a = AgentDraining then None else Some (a\<lparr>Status := AgentOffline\<rparr>))"

definition draining_of :: "agent \<Rightarrow> agent option" where
  "draining_of a = Some (a\<lparr>Status := AgentDraining\<rparr>)"

definition promoted :: "AgentStatus \<Rightarrow> AgentStatus" where
  "promoted st = (if st = AgentOffline then AgentOnline else st)"

definition heartbeat_of :: "time \<Rightarrow> i32 \<Rightarrow> agent \<Rightarrow> agent option" where
  "heartbeat_of now n a =
     Some (a\<lparr>LastHeartbeat := now, ActiveCount := n, Status := promoted (Status a)\<rparr>)"

definition status_of :: "node_status \<Rightarrow> agent \<Rightarrow> agent option" where
  "status_of ns a =
     Some (a\<lparr>NodeStatus := Some ns, ActiveCount := ActiveTasks ns, LastHeartbeat := CollectedAt ns,
             Status := promoted (Status a)\<rparr>)"

definition modify_agent :: "'m memory \<Rightarrow> string \<Rightarrow> (agent \<Rightarrow> agent option) \<Rightarrow> 'm \<Rightarrow> 'm" where
  "modify_agent M i f s =
     (case GetAgent M i s of
        Inr (Some a) \<Rightarrow> (case f a of None \<Rightarrow> s | Some a' \<Rightarrow> snd (SaveAgent M a' s))
      | _ \<Rightarrow> s)"

declare offline_of_def [store_simps] draining_of_def [store_simps] heartbeat_of_def [store_simps]
  status_of_def [store_simps] promoted_def [store_simps]

lemma modify_agent_forms:
  "SetOffline M i s = modify_agent M i offline_of s"
  "SetDraining M i s = modify_agent M i draining_of s"
  "UpdateHeartbeat M now i n s = modify_agent M i (heartbeat_of now n) s"
  "UpdateNodeStatus M i ns s = modify_agent M i (status_of ns) s"
  by (auto simp: SetOffline_def SetDraining_def UpdateHeartbeat_def UpdateNodeStatus_def
      modify_agent_def store_simps
      Let_def split: sum.splits option.splits)

lemma successor_ID:
  "offline_of a = Some a' \<Longrightarrow> ID a' = ID a"
  "draining_of a = Some a' \<Longrightarrow> ID a' = ID a"
  "heartbeat_of now n a = Some a' \<Longrightarrow> ID a' = ID a"
  "status_of ns a = Some a' \<Longrightarrow> ID a' = ID a"
  by (auto simp: store_simps split: if_splits)

text \<open>The effect a read-modify-write is meant to have on the stored agents.\<close>

definition apply_agent ::
  "string \<Rightarrow> (agent \<Rightarrow> agent option) \<Rightarrow> (string \<rightharpoonup> agent) \<Rightarrow> (string \<rightharpoonup> agent)" where
  "apply_agent i f m =
     (case m i of
        None \<Rightarrow> m
      | Some a \<Rightarrow> (case f a of None \<Rightarrow> m | Some a' \<Rightarrow> m(i \<mapsto> a')))"

lemma apply_agent_other [simp]: "j \<noteq> i \<Longrightarrow> apply_agent i f m j = m j"
  by (simp add: apply_agent_def split: option.splits)

lemma apply_agent_same:
  "apply_agent i f m i = (case m i of None \<Rightarrow> None | Some a \<Rightarrow> (case f a of None \<Rightarrow> Some a | Some a' \<Rightarrow> Some a'))"
  by (simp add: apply_agent_def split: option.splits)

section \<open>What the operations do to any store that keeps the contract\<close>

context memory_contract begin

lemma save_agent_view:
  "view (snd (SaveAgent M a s)) = view s\<lparr>v_agents := (v_agents (view s))(ID a \<mapsto> a)\<rparr> \<or>
   view (snd (SaveAgent M a s)) = view s"
  using save_agent [of a s "fst (SaveAgent M a s)" "snd (SaveAgent M a s)"] by auto

lemma modify_agent_view:
  assumes "keyed (view s)" and "\<And>a a'. f a = Some a' \<Longrightarrow> ID a' = ID a"
  shows "view (modify_agent M i f s) = view s\<lparr>v_agents := apply_agent i f (v_agents (view s))\<rparr> \<or>
    view (modify_agent M i f s) = view s"
proof (cases "\<exists>a a'. GetAgent M i s = Inr (Some a) \<and> f a = Some a'")
  case True
  then obtain a a' where get: "GetAgent M i s = Inr (Some a)" and succ: "f a = Some a'" by blast
  have stored: "v_agents (view s) i = Some a" using get_agent [OF get] by simp
  then have "ID a' = i" using assms succ by (auto simp: keyed_def)
  then show ?thesis
    using save_agent_view [of a' s] get succ stored
    by (simp add: modify_agent_def apply_agent_def)
next
  case False
  then have "modify_agent M i f s = s"
    by (auto simp: modify_agent_def split: sum.splits option.splits)
  then show ?thesis by simp
qed

lemma delete_agent_view:
  "view (DeregisterAgent M i s) = view s\<lparr>v_agents := (v_agents (view s))(i := None)\<rparr> \<or>
   view (DeregisterAgent M i s) = view s"
  using delete_agent [of i s "fst (DeleteAgent M i s)" "snd (DeleteAgent M i s)"]
  by (auto simp: DeregisterAgent_def)

lemma scan_sound:
  "set (reg_GetAllAgents M s) \<subseteq> ran (v_agents (view s))"
  using enumerates_set [OF all_agents [of s]]
  by (auto simp: reg_GetAllAgents_def split: sum.splits)

lemma get_agent_sound: "reg_GetAgent M i s = Some a \<Longrightarrow> v_agents (view s) i = Some a"
  using get_agent [of i s] by (auto simp: reg_GetAgent_def split: sum.splits)

lemma get_function_sound: "reg_GetFunction M n s = Some f \<Longrightarrow> v_funcs (view s) n = Some f"
  using get_function [of n s] by (auto simp: reg_GetFunction_def split: sum.splits)

lemma available_sound:
  "a \<in> set (GetAvailableAgents M s) \<Longrightarrow> Status a = AgentOnline \<and> a \<in> ran (v_agents (view s))"
  using enumerates_set [OF all_agents [of s]]
  by (auto simp: GetAvailableAgents_def split: sum.splits)

end

lemma available_eq_online: "GetAvailableAgents M s = GetOnlineAgents M s"
  by (simp add: GetAvailableAgents_def GetOnlineAgents_def)

lemma online_of_all: "GetOnlineAgents M s = filter (\<lambda>a. Status a = AgentOnline) (reg_GetAllAgents M s)"
  by (simp add: GetOnlineAgents_def reg_GetAllAgents_def split: sum.splits)

end
