(* ===== verification/Registry_Runs.thy ===== *)
theory Registry_Runs imports Registry begin

text \<open>
  Sequences of registry operations.  \<open>registry_step\<close> runs one operation of the code on a store;
  \<open>view_step\<close> is what it means on the four maps a store represents.  On a store in service the
  first refines the second; on any store that keeps the contract, whatever writes fail, the
  lifecycle of an agent's record obeys \<open>status_move\<close> and its placement is fixed.
\<close>

section \<open>Operations as data\<close>

datatype registry_op =
    OpRegister time string string string string string
  | OpRegisterOffline time string string string string string
  | OpDeregister string
  | OpFlush
  | OpOffline string
  | OpDraining string
  | OpHeartbeat time string i32
  | OpNodeStatus string node_status
  | OpFunction func
  | OpCode string bytes
  | OpExecution string string

fun registry_step :: "'m memory \<Rightarrow> registry_op \<Rightarrow> 'm \<Rightarrow> 'm" where
  "registry_step M (OpRegister now i addr pid it p) s = RegisterAgent M now i addr pid it p s"
| "registry_step M (OpRegisterOffline now i addr pid it p) s =
     RegisterOfflineAgent M now i addr pid it p s"
| "registry_step M (OpDeregister i) s = DeregisterAgent M i s"
| "registry_step M OpFlush s = reg_Flush M s"
| "registry_step M (OpOffline i) s = SetOffline M i s"
| "registry_step M (OpDraining i) s = SetDraining M i s"
| "registry_step M (OpHeartbeat now i n) s = UpdateHeartbeat M now i n s"
| "registry_step M (OpNodeStatus i ns) s = UpdateNodeStatus M i ns s"
| "registry_step M (OpFunction f) s = RegisterFunction M f s"
| "registry_step M (OpCode n b) s = reg_SaveCodeArchive M n b s"
| "registry_step M (OpExecution x i) s = reg_SaveExecutionToAgentMap M x i s"

definition run_ops :: "'m memory \<Rightarrow> registry_op list \<Rightarrow> 'm \<Rightarrow> 'm" where
  "run_ops M ops s = fold (registry_step M) ops s"

section \<open>The specification\<close>

definition new_agent ::
  "AgentStatus \<Rightarrow> time \<Rightarrow> string \<Rightarrow> string \<Rightarrow> string \<Rightarrow> string \<Rightarrow> string \<Rightarrow> agent" where
  "new_agent st now i addr pid it p =
     \<lparr>ID = i, Address = addr, ActiveCount = 0, LastHeartbeat = now, Status = st, ProviderID = pid,
      InstanceType = it, Provider = p, NodeStatus = None\<rparr>"

definition empty_view :: store_view where
  "empty_view = \<lparr>v_agents = Map.empty, v_funcs = Map.empty, v_codes = Map.empty, v_execs = Map.empty\<rparr>"

text \<open>Storing a record: a record that has no JSON form is dropped.\<close>

definition put_agent :: "agent \<Rightarrow> store_view \<Rightarrow> store_view" where
  "put_agent a v =
     (if agent_json_ok a then v\<lparr>v_agents := (v_agents v)(ID a \<mapsto> a)\<rparr> else v)"

definition modify_view :: "string \<Rightarrow> (agent \<Rightarrow> agent option) \<Rightarrow> store_view \<Rightarrow> store_view" where
  "modify_view i f v =
     (case Option.bind (v_agents v i) f of None \<Rightarrow> v | Some a \<Rightarrow> put_agent a v)"

fun view_step :: "registry_op \<Rightarrow> store_view \<Rightarrow> store_view" where
  "view_step (OpRegister now i addr pid it p) v = put_agent (new_agent AgentOnline now i addr pid it p) v"
| "view_step (OpRegisterOffline now i addr pid it p) v =
     put_agent (new_agent AgentOffline now i addr pid it p) v"
| "view_step (OpDeregister i) v = v\<lparr>v_agents := (v_agents v)(i := None)\<rparr>"
| "view_step OpFlush v = empty_view"
| "view_step (OpOffline i) v = modify_view i offline_of v"
| "view_step (OpDraining i) v = modify_view i draining_of v"
| "view_step (OpHeartbeat now i n) v = modify_view i (heartbeat_of now n) v"
| "view_step (OpNodeStatus i ns) v = modify_view i (status_of ns) v"
| "view_step (OpFunction f) v = v\<lparr>v_funcs := (v_funcs v)(Name f \<mapsto> f)\<rparr>"
| "view_step (OpCode n b) v = v\<lparr>v_codes := (v_codes v)(n \<mapsto> b)\<rparr>"
| "view_step (OpExecution x i) v = v\<lparr>v_execs := (v_execs v)(x \<mapsto> i)\<rparr>"

section \<open>Refinement on a store in service\<close>

context memory_in_service begin

lemma save_agent_put:
  assumes "up s"
  shows "view (snd (SaveAgent M a s)) = put_agent a (view s) \<and> up (snd (SaveAgent M a s))"
proof (cases "agent_json_ok a")
  case True
  then obtain s' where "SaveAgent M a s = (None, s')" "up s'" using assms up_save_agent by blast
  then show ?thesis using True save_agent by (fastforce simp: put_agent_def)
next
  case False
  then obtain e where "SaveAgent M a s = (Some e, s)" using assms up_save_agent_refused by blast
  then show ?thesis using False assms by (simp add: put_agent_def)
qed

lemma get_agent_up: "up s \<Longrightarrow> GetAgent M i s = Inr (v_agents (view s) i)"
  using up_get_agent [of s i] get_agent by auto

lemma reg_get_agent_up: "up s \<Longrightarrow> reg_GetAgent M i s = v_agents (view s) i"
  by (simp add: reg_GetAgent_def get_agent_up)

lemma reg_get_function_up: "up s \<Longrightarrow> reg_GetFunction M n s = v_funcs (view s) n"
  using up_get_function [of s n] get_function by (fastforce simp: reg_GetFunction_def)

lemma reg_get_code_up: "up s \<Longrightarrow> reg_GetCodeArchive M n s = v_codes (view s) n"
  using up_get_code [of s n] get_code by (fastforce simp: reg_GetCodeArchive_def)

lemma reg_get_exec_up:
  "up s \<Longrightarrow> reg_GetExecutionToAgentMap M x s =
     (case v_execs (view s) x of None \<Rightarrow> ([], False) | Some i \<Rightarrow> (i, i \<noteq> []))"
  using up_get_exec [of s x] get_exec
  by (fastforce simp: reg_GetExecutionToAgentMap_def split: option.splits)

lemma reg_get_all_up: "up s \<Longrightarrow> enumerates (reg_GetAllAgents M s) (v_agents (view s))"
  using up_all_agents [of s] all_agents by (fastforce simp: reg_GetAllAgents_def)

lemma modify_agent_up:
  assumes "up s"
  shows "view (modify_agent M i f s) = modify_view i f (view s) \<and> up (modify_agent M i f s)"
  using assms save_agent_put
  by (auto simp: modify_agent_def modify_view_def get_agent_up split: option.splits)

lemma deregister_up:
  assumes "up s"
  shows "view (DeregisterAgent M i s) = view s\<lparr>v_agents := (v_agents (view s))(i := None)\<rparr> \<and>
    up (DeregisterAgent M i s)"
  using up_delete_agent [OF assms, of i] delete_agent by (fastforce simp: DeregisterAgent_def)

lemma flush_up:
  assumes "up s"
  shows "view (reg_Flush M s) = empty_view \<and> up (reg_Flush M s)"
  using up_flush [OF assms] flush by (fastforce simp: reg_Flush_def empty_view_def)

lemma writes_up:
  assumes "up s"
  shows "view (RegisterFunction M f s) = view s\<lparr>v_funcs := (v_funcs (view s))(Name f \<mapsto> f)\<rparr> \<and>
      up (RegisterFunction M f s)"
    and "view (reg_SaveCodeArchive M n b s) = view s\<lparr>v_codes := (v_codes (view s))(n \<mapsto> b)\<rparr> \<and>
      up (reg_SaveCodeArchive M n b s)"
    and "view (reg_SaveExecutionToAgentMap M x i s) = view s\<lparr>v_execs := (v_execs (view s))(x \<mapsto> i)\<rparr> \<and>
      up (reg_SaveExecutionToAgentMap M x i s)"
  using up_save_function [OF assms, of f] save_function [of f s]
    up_save_code [OF assms, of n b] save_code [of n b s]
    up_save_exec [OF assms, of x i] save_exec [of x i s]
  by (fastforce simp: RegisterFunction_def reg_SaveCodeArchive_def reg_SaveExecutionToAgentMap_def)+

lemma registry_step_refines:
  assumes "up s"
  shows "view (registry_step M op s) = view_step op (view s) \<and> up (registry_step M op s)"
  using assms save_agent_put modify_agent_up deregister_up flush_up writes_up
  by (cases op)
    (simp_all add: modify_agent_forms RegisterAgent_def RegisterOfflineAgent_def new_agent_def)

lemma run_ops_refines:
  "up s \<Longrightarrow> view (run_ops M ops s) = fold view_step ops (view s) \<and> up (run_ops M ops s)"
  using registry_step_refines by (induction ops arbitrary: s) (simp_all add: run_ops_def)

end

section \<open>Lifecycle on any store\<close>

text \<open>The moves an agent's status can make while its record is neither registered again nor removed.\<close>

inductive status_move :: "AgentStatus \<Rightarrow> AgentStatus \<Rightarrow> bool" where
  stay: "status_move st st"
| drain: "status_move st AgentDraining"
| lose: "st \<noteq> AgentDraining \<Longrightarrow> status_move st AgentOffline"
| promote: "status_move AgentOffline AgentOnline"

inductive_cases draining_moveE: "status_move AgentDraining st"

inductive_simps status_move_simps: "status_move st st'"

code_pred (modes: i \<Rightarrow> i \<Rightarrow> bool) status_move .

definition same_placement :: "agent \<Rightarrow> agent \<Rightarrow> bool" where
  "same_placement a b \<longleftrightarrow>
     ID a = ID b \<and> Address a = Address b \<and> ProviderID a = ProviderID b \<and>
     InstanceType a = InstanceType b \<and> Provider a = Provider b"

fun rebinds :: "registry_op \<Rightarrow> string \<Rightarrow> bool" where
  "rebinds (OpRegister _ j _ _ _ _) i = (j = i)"
| "rebinds (OpRegisterOffline _ j _ _ _ _) i = (j = i)"
| "rebinds (OpDeregister j) i = (j = i)"
| "rebinds OpFlush i = True"
| "rebinds _ i = False"

definition evolves :: "agent \<Rightarrow> agent \<Rightarrow> bool" where
  "evolves a b \<longleftrightarrow> status_move (Status a) (Status b) \<and> same_placement a b"

lemma evolves_refl: "evolves a a"
  by (simp add: evolves_def same_placement_def stay)

lemma successor_evolves:
  "offline_of a = Some b \<Longrightarrow> evolves a b"
  "draining_of a = Some b \<Longrightarrow> evolves a b"
  "heartbeat_of now n a = Some b \<Longrightarrow> evolves a b"
  "status_of ns a = Some b \<Longrightarrow> evolves a b"
  by (auto simp: store_simps
      evolves_def same_placement_def status_move_simps split: if_splits)

lemma apply_agent_evolves:
  assumes "\<And>a b. f a = Some b \<Longrightarrow> evolves a b" and "m i = Some a"
  shows "\<exists>b. apply_agent j f m i = Some b \<and> evolves a b"
  using assms evolves_refl
  by (cases "i = j") (auto simp: apply_agent_same split: option.splits)

lemma apply_agent_keyed:
  assumes "\<And>a b. f a = Some b \<Longrightarrow> ID b = ID a" and "\<forall>i a. m i = Some a \<longrightarrow> ID a = i"
  shows "\<forall>i a. apply_agent j f m i = Some a \<longrightarrow> ID a = i"
  using assms by (auto simp: apply_agent_def split: option.splits)

context memory_contract begin

lemma other_writes_view:
  "v_agents (view (RegisterFunction M f s)) = v_agents (view s)"
  "v_agents (view (reg_SaveCodeArchive M n b s)) = v_agents (view s)"
  "v_agents (view (reg_SaveExecutionToAgentMap M x i s)) = v_agents (view s)"
  using save_function [of f s "fst (SaveFunction M f s)" "snd (SaveFunction M f s)"]
    save_code [of n b s "fst (SaveCodeArchive M n b s)" "snd (SaveCodeArchive M n b s)"]
    save_exec [of x i s "fst (SaveExecutionToAgentMap M x i s)" "snd (SaveExecutionToAgentMap M x i s)"]
  by (auto simp: RegisterFunction_def reg_SaveCodeArchive_def reg_SaveExecutionToAgentMap_def)

lemma save_agent_funcs: "v_funcs (view (snd (SaveAgent M a s))) = v_funcs (view s)"
  using save_agent_view [of a s] by auto

lemma other_writes_funcs:
  "v_funcs (view (reg_SaveCodeArchive M n b s)) = v_funcs (view s)"
  "v_funcs (view (reg_SaveExecutionToAgentMap M x i s)) = v_funcs (view s)"
  "v_funcs (view (DeregisterAgent M i s)) = v_funcs (view s)"
  using save_code [of n b s "fst (SaveCodeArchive M n b s)" "snd (SaveCodeArchive M n b s)"]
    save_exec [of x i s "fst (SaveExecutionToAgentMap M x i s)" "snd (SaveExecutionToAgentMap M x i s)"]
    delete_agent_view [of i s]
  by (auto simp: reg_SaveCodeArchive_def reg_SaveExecutionToAgentMap_def)

lemma register_function_view:
  "v_funcs (view (RegisterFunction M f s)) \<in> {(v_funcs (view s))(Name f \<mapsto> f), v_funcs (view s)}"
  using save_function [of f s "fst (SaveFunction M f s)" "snd (SaveFunction M f s)"]
  by (auto simp: RegisterFunction_def)

lemma flush_view:
  "v_agents (view (reg_Flush M s)) \<subseteq>\<^sub>m v_agents (view s)"
  "v_funcs (view (reg_Flush M s)) \<subseteq>\<^sub>m v_funcs (view s)"
  using flush_shrinks [of s "fst (Flush M s)" "snd (Flush M s)"] by (auto simp: reg_Flush_def)

lemma modify_agent_keyed:
  assumes "keyed (view s)" and "\<And>a b. f a = Some b \<Longrightarrow> ID b = ID a"
  shows "keyed (view (modify_agent M i f s))"
proof -
  have "\<forall>j a. apply_agent i f (v_agents (view s)) j = Some a \<longrightarrow> ID a = j"
    using assms by (intro apply_agent_keyed) (auto simp: keyed_def)
  then have "keyed (view s\<lparr>v_agents := apply_agent i f (v_agents (view s))\<rparr>)"
    using assms(1) unfolding keyed_def by simp
  moreover have "view (modify_agent M i f s) = view s\<lparr>v_agents := apply_agent i f (v_agents (view s))\<rparr> \<or>
      view (modify_agent M i f s) = view s"
    by (rule modify_agent_view [OF assms])
  ultimately show ?thesis using assms(1) by (elim disjE) simp_all
qed

lemma keyed_funcs:
  "keyed v \<Longrightarrow> v_funcs v' \<subseteq>\<^sub>m v_funcs v \<Longrightarrow> v_agents v' \<subseteq>\<^sub>m v_agents v \<Longrightarrow> keyed v'"
  by (force simp: keyed_def map_le_def dom_def)

lemma registry_step_keyed:
  assumes "keyed (view s)"
  shows "keyed (view (registry_step M op s))"
proof -
  have save: "keyed (view (snd (SaveAgent M a s)))" for a
    using save_agent_view [of a s] assms by (auto simp: keyed_def split: if_splits)
  have mods: "keyed (view (modify_agent M i offline_of s))" "keyed (view (modify_agent M i draining_of s))"
    "keyed (view (modify_agent M i (heartbeat_of now n) s))" "keyed (view (modify_agent M i (status_of ns) s))"
    for i now n ns
    by (rule modify_agent_keyed [OF assms]; erule successor_ID)+
  have del: "keyed (view (DeregisterAgent M i s))" for i
    using delete_agent_view [of i s] assms by (auto simp: keyed_def split: if_splits)
  have fn: "keyed (view (RegisterFunction M f s))" for f
    using register_function_view [of f s] other_writes_view(1) [of f s] assms
    by (auto simp: keyed_def split: if_splits)
  have "keyed (view (reg_SaveCodeArchive M n b s))" "keyed (view (reg_SaveExecutionToAgentMap M x i s))" for n b x i
    using assms by (simp_all add: keyed_def other_writes_view other_writes_funcs)
  moreover have "keyed (view (reg_Flush M s))" using keyed_funcs [OF assms] flush_view by blast
  ultimately show ?thesis using save mods del fn
    by (cases op) (simp_all add: RegisterAgent_def RegisterOfflineAgent_def modify_agent_forms)
qed

lemma registry_step_evolves:
  assumes "keyed (view s)" and "\<not> rebinds op i" and "v_agents (view s) i = Some a"
  shows "\<exists>b. v_agents (view (registry_step M op s)) i = Some b \<and> evolves a b"
proof -
  have save: "\<exists>b. v_agents (view (snd (SaveAgent M c s))) i = Some b \<and> evolves a b" if "ID c \<noteq> i" for c
    using save_agent_view [of c s] assms(3) evolves_refl that by auto
  have modify: "\<exists>b. v_agents (view (modify_agent M j f s)) i = Some b \<and> evolves a b"
    if "\<And>a b. f a = Some b \<Longrightarrow> evolves a b" for j f
  proof -
    have "\<And>a b. f a = Some b \<Longrightarrow> ID b = ID a" using that by (auto simp: evolves_def same_placement_def)
    from modify_agent_view [of s f j, OF assms(1) this]
    show ?thesis using apply_agent_evolves [of f "v_agents (view s)" i a j, OF that] assms(3) evolves_refl
      by auto
  qed
  have "\<exists>b. v_agents (view (DeregisterAgent M j s)) i = Some b \<and> evolves a b" if "j \<noteq> i" for j
    using delete_agent_view [of j s] that assms(3) evolves_refl by auto
  then show ?thesis
    using assms save modify evolves_refl successor_evolves other_writes_view
    by (cases op) (simp_all add: RegisterAgent_def RegisterOfflineAgent_def modify_agent_forms)
qed

lemma run_ops_keyed: "keyed (view s) \<Longrightarrow> keyed (view (run_ops M ops s))"
  by (induction ops arbitrary: s) (auto simp: run_ops_def registry_step_keyed)

lemma run_ops_evolves:
  "keyed (view s) \<Longrightarrow> \<forall>op \<in> set ops. \<not> rebinds op i \<Longrightarrow> v_agents (view s) i = Some a \<Longrightarrow>
     \<exists>b. v_agents (view (run_ops M ops s)) i = Some b \<and>
         status_move\<^sup>*\<^sup>* (Status a) (Status b) \<and> same_placement a b"
proof (induction ops arbitrary: s a)
  case Nil
  then show ?case by (simp add: run_ops_def same_placement_def)
next
  case (Cons op ops)
  obtain b where b: "v_agents (view (registry_step M op s)) i = Some b" "evolves a b"
    using registry_step_evolves [of s op i a] Cons.prems by auto
  obtain c where c: "v_agents (view (run_ops M ops (registry_step M op s))) i = Some c"
    "status_move\<^sup>*\<^sup>* (Status b) (Status c)" "same_placement b c"
    using Cons.IH [OF registry_step_keyed _ b(1)] Cons.prems by auto
  have "status_move\<^sup>*\<^sup>* (Status a) (Status c)"
    using b(2) c(2) by (auto simp: evolves_def intro: converse_rtranclp_into_rtranclp)
  moreover have "same_placement a c" using b(2) c(3) by (simp add: evolves_def same_placement_def)
  moreover have "run_ops M (op # ops) s = run_ops M ops (registry_step M op s)" by (simp add: run_ops_def)
  ultimately show ?case using c(1) by (intro exI [of _ c]) simp
qed

end

lemma draining_forever: "status_move\<^sup>*\<^sup>* AgentDraining st \<Longrightarrow> st = AgentDraining"
  by (induction rule: rtranclp_induct) (auto elim: draining_moveE)

lemma never_busy: "status_move\<^sup>*\<^sup>* st st' \<Longrightarrow> st \<noteq> AgentBusy \<Longrightarrow> st' \<noteq> AgentBusy"
  by (induction rule: rtranclp_induct) (auto simp: status_move_simps)

section \<open>Properties\<close>

text \<open>
  C5. On a Redis server in service any sequence of registry operations refines the specification:
  the four maps the database represents afterwards are those of folding \<open>view_step\<close> over the
  sequence, and the server is still in service.  In particular a node report with a non-finite
  load, which has no JSON form, changes nothing.
\<close>

theorem registry_refines:
  assumes "redis_in_service R kv live" and "live r" and "decodable (kv r)"
  shows "redis_view (kv (run_ops (RedisMemory R) ops r)) = fold view_step ops (redis_view (kv r)) \<and>
    live (run_ops (RedisMemory R) ops r) \<and> decodable (kv (run_ops (RedisMemory R) ops r))"
  using memory_in_service.run_ops_refines [OF redis_in_service.redis_memory_in_service [OF assms(1)]]
    assms(2,3) by blast

lemma decodable_empty: "decodable Map.empty"
  by (simp add: decodable_def)

theorem registry_refines_witness:
  "v_agents (redis_view (map_of (run_ops (RedisMemory alist_redis)
     [OpRegister 0 ''a1'' ''10.0.0.1:50052'' ''i-1'' ''c5.large'' ''aws'', OpDraining ''a1'',
      OpHeartbeat 7 ''a1'' 3] []))) ''a1'' =
   Some \<lparr>ID = ''a1'', Address = ''10.0.0.1:50052'', ActiveCount = 3, LastHeartbeat = 7,
         Status = AgentDraining, ProviderID = ''i-1'', InstanceType = ''c5.large'', Provider = ''aws'',
         NodeStatus = None\<rparr>"
proof -
  have ok: "time_json_ok 0" "time_json_ok 7" by code_simp+
  show ?thesis
    using registry_refines [OF alist.redis_in_service_axioms, of "[]"] decodable_empty ok
    by (simp add: put_agent_def modify_view_def new_agent_def draining_of_def heartbeat_of_def
        promoted_def agent_json_ok_def redis_view_def)
qed

text \<open>
  C11. Whatever writes fail, an agent that is neither registered again nor removed keeps its
  address, provider, provider identifier and instance type, its status makes only the moves of
  \<open>status_move\<close>, and once it is draining it stays draining.
\<close>

theorem agent_lifecycle:
  assumes "redis_server R kv" and "keyed (redis_view (kv r))"
    and "v_agents (redis_view (kv r)) i = Some a" and "\<forall>op \<in> set ops. \<not> rebinds op i"
  shows "\<exists>b. v_agents (redis_view (kv (run_ops (RedisMemory R) ops r))) i = Some b \<and>
    same_placement a b \<and> status_move\<^sup>*\<^sup>* (Status a) (Status b) \<and>
    (Status a = AgentDraining \<longrightarrow> Status b = AgentDraining)"
  using memory_contract.run_ops_evolves [OF redis_server.redis_memory_contract [OF assms(1)] assms(2,4,3)]
    draining_forever by auto

lemma sample_in_redis:
  "v_agents (redis_view (map_of [(agent_key ''a1'', JsonText (the (marshal_agent sample_agent)))])) ''a1''
     = Some sample_agent"
  "keyed (redis_view (map_of [(agent_key ''a1'', JsonText (the (marshal_agent sample_agent)))]))"
proof -
  have "\<not> Option.is_none (marshal_agent sample_agent)" by code_simp
  then obtain j where j: "marshal_agent sample_agent = Some j" by (auto simp: Option.is_none_def)
  have "ID sample_agent = ''a1''" by (simp add: sample_agent_def)
  then show "v_agents (redis_view (map_of [(agent_key ''a1'', JsonText (the (marshal_agent sample_agent)))])) ''a1''
      = Some sample_agent"
    and "keyed (redis_view (map_of [(agent_key ''a1'', JsonText (the (marshal_agent sample_agent)))]))"
    using j by (auto simp: redis_view_def keyed_def parse_json_def unmarshal_agent_marshal)
qed

theorem agent_lifecycle_witness:
  "\<exists>b. v_agents (redis_view (map_of (run_ops (RedisMemory alist_redis)
       [OpDraining ''a1'', OpNodeStatus ''a1'' sample_status, OpOffline ''a1'']
       [(agent_key ''a1'', JsonText (the (marshal_agent sample_agent)))]))) ''a1'' = Some b \<and>
     ProviderID b = ''i-1''"
  using agent_lifecycle [OF alist.redis_server_axioms sample_in_redis(2,1),
    of "[OpDraining ''a1'', OpNodeStatus ''a1'' sample_status, OpOffline ''a1'']"]
  by (force simp: same_placement_def sample_agent_def)

end
