(* ===== verification/Config.thy ===== *)
theory Config imports Redis_Memory begin

text \<open>
  \<open>pkg/config/config.go\<close>: the configuration structures, the defaults and checks \<open>parse\<close> applies
  after decoding, and the global store \<open>Load\<close> fills.  Reading the file and decoding YAML are
  arguments (\<open>os.ReadFile\<close> of the path, \<open>yaml.Unmarshal\<close>), as are the build platform's
  \<open>filepath.Join\<close>, \<open>runtime.GOOS\<close> and the environment.
\<close>

section \<open>Structures\<close>

record NodeTypeConfig =
  nt_InstanceType :: string
  nt_VCPUs :: int
  nt_MemoryGB :: f64

record AutoscaleConfig =
  Enabled :: bool
  as_Name :: string
  CPUUpperThreshold :: f64
  CPULowerThreshold :: f64
  MemUpperThreshold :: f64
  MemLowerThreshold :: f64
  EvaluationWindowSec :: int
  PollIntervalSec :: int
  CooldownSec :: int
  MaxNodes :: int
  MinNodes :: int
  NodeTypes :: "NodeTypeConfig list"

record AWSProviderConfig =
  Region :: string
  AMI :: string
  SecurityGroupID :: string
  AccessKeyID :: string
  SecretAccessKey :: string
  aws_SSHUser :: string
  aws_AgentVersion :: string
  Tags :: "(string \<times> string) list"
  aws_AgentSetupCommands :: "string list"
  aws_Autoscaling :: "AutoscaleConfig option"

record GCPProviderConfig =
  ProjectID :: string
  Zone :: string
  Image :: string
  CredentialsFile :: string
  ServiceAccountEmail :: string
  gcp_SSHUser :: string
  gcp_AgentVersion :: string
  Labels :: "(string \<times> string) list"
  gcp_AgentSetupCommands :: "string list"
  gcp_Autoscaling :: "AutoscaleConfig option"

record ProvidersConfig =
  AWS :: "AWSProviderConfig option"
  GCP :: "GCPProviderConfig option"

record FluxConfig =
  APIKey :: string
  RedisAddr :: string
  AgentPort :: int
  CertsDir :: string
  DisableGRPCTLS :: bool
  Providers :: "ProvidersConfig option"

section \<open>Defaults\<close>

text \<open>The platform the binary runs on.\<close>

record platform =
  GOOS :: string
  Getenv :: "string \<Rightarrow> string"
  Join :: "string list \<Rightarrow> string"

definition defaultCertsDir :: "platform \<Rightarrow> string" where
  "defaultCertsDir pf =
     (if GOOS pf = ''windows'' then
        let base = Getenv pf ''PROGRAMDATA'';
            base = (if base = [] then ''C:'' @ [CHR 0x5C] @ ''ProgramData'' else base)
        in Join pf [base, ''flux'', ''certs'']
      else ''/etc/flux/certs'')"

definition applyAutoscaleDefaults :: "AutoscaleConfig \<Rightarrow> AutoscaleConfig" where
  "applyAutoscaleDefaults a0 =
     (let a1 = (if feq (CPUUpperThreshold a0) (Fin 0) then a0\<lparr>CPUUpperThreshold := Fin 80\<rparr> else a0);
          a2 = (if feq (CPULowerThreshold a1) (Fin 0) then a1\<lparr>CPULowerThreshold := Fin 20\<rparr> else a1);
          a3 = (if feq (MemUpperThreshold a2) (Fin 0) then a2\<lparr>MemUpperThreshold := Fin 80\<rparr> else a2);
          a4 = (if feq (MemLowerThreshold a3) (Fin 0) then a3\<lparr>MemLowerThreshold := Fin 20\<rparr> else a3);
          a5 = (if EvaluationWindowSec a4 = 0 then a4\<lparr>EvaluationWindowSec := 60\<rparr> else a4);
          a6 = (if PollIntervalSec a5 = 0 then a5\<lparr>PollIntervalSec := 10\<rparr> else a5);
          a7 = (if CooldownSec a6 = 0 then a6\<lparr>CooldownSec := 300\<rparr> else a6);
          a8 = (if MaxNodes a7 = 0 then a7\<lparr>MaxNodes := 10\<rparr> else a7);
          a9 = (if MinNodes a8 = 0 then a8\<lparr>MinNodes := 1\<rparr> else a8)
      in a9)"

section \<open>Parsing\<close>

text \<open>
  The AWS section: the SSH user's default, then the autoscaling defaults and the two checks.  The
  decoded structures are reached through pointers in the source; the updated copies are put back.
\<close>

definition parse_aws :: "AWSProviderConfig \<Rightarrow> go_error + AWSProviderConfig" where
  "parse_aws p0 =
     (let p = (if aws_SSHUser p0 = [] then p0\<lparr>aws_SSHUser := ''ec2-user''\<rparr> else p0)
      in case aws_Autoscaling p of
           None \<Rightarrow> Inr p
         | Some a0 \<Rightarrow>
             let a = applyAutoscaleDefaults a0
             in if Enabled a \<and> as_Name a = [] then
                  Inl ''providers.aws.autoscaling.name is required when autoscaling is enabled''
                else if Enabled a \<and> length (NodeTypes a) = 0 then
                  Inl ''providers.aws.autoscaling.node_types must have at least one entry when autoscaling is enabled''
                else Inr (p\<lparr>aws_Autoscaling := Some a\<rparr>))"

definition parse_gcp :: "GCPProviderConfig \<Rightarrow> GCPProviderConfig" where
  "parse_gcp p = (if gcp_SSHUser p = [] then p\<lparr>gcp_SSHUser := ''ubuntu''\<rparr> else p)"

definition parse_providers :: "ProvidersConfig \<Rightarrow> go_error + ProvidersConfig" where
  "parse_providers ps =
     (case AWS ps of
        None \<Rightarrow> Inr (ps\<lparr>GCP := map_option parse_gcp (GCP ps)\<rparr>)
      | Some p \<Rightarrow>
          (case parse_aws p of
             Inl e \<Rightarrow> Inl e
           | Inr p' \<Rightarrow> Inr (ps\<lparr>AWS := Some p', GCP := map_option parse_gcp (GCP ps)\<rparr>)))"

text \<open>What \<open>parse\<close> does with the decoded configuration.\<close>

definition check_config :: "platform \<Rightarrow> FluxConfig \<Rightarrow> FluxConfig go_result" where
  "check_config pf c0 =
     (if APIKey c0 = [] then Panic ''api_key is required in flux.yaml''
      else
        let c1 = (if CertsDir c0 = [] then c0\<lparr>CertsDir := defaultCertsDir pf\<rparr> else c0);
            c2 = (if RedisAddr c1 = [] then c1\<lparr>RedisAddr := ''localhost:6379''\<rparr> else c1);
            c3 = (if AgentPort c2 = 0 then c2\<lparr>AgentPort := 50052\<rparr> else c2)
        in case Providers c3 of
             None \<Rightarrow> Ret c3
           | Some ps \<Rightarrow>
               (case parse_providers ps of
                  Inl e \<Rightarrow> Err e
                | Inr ps' \<Rightarrow> Ret (c3\<lparr>Providers := Some ps'\<rparr>)))"

definition parse ::
  "(string \<Rightarrow> go_error + string) \<Rightarrow> (string \<Rightarrow> go_error + FluxConfig) \<Rightarrow> platform \<Rightarrow> string \<Rightarrow>
   FluxConfig go_result" where
  "parse ReadFile Unmarshal pf path =
     (case ReadFile path of
        Inl e \<Rightarrow> Err e
      | Inr data \<Rightarrow>
          (case Unmarshal data of
             Inl e \<Rightarrow> Err e
           | Inr c \<Rightarrow> check_config pf c))"

text \<open>The global configuration is the last state component; \<open>Load\<close> keeps it on an error.\<close>

definition Load ::
  "(string \<Rightarrow> go_error + string) \<Rightarrow> (string \<Rightarrow> go_error + FluxConfig) \<Rightarrow> platform \<Rightarrow> string \<Rightarrow>
   FluxConfig option \<Rightarrow> unit go_result \<times> FluxConfig option" where
  "Load ReadFile Unmarshal pf path store =
     (case parse ReadFile Unmarshal pf path of
        Panic m \<Rightarrow> (Panic m, store)
      | Err e \<Rightarrow> (Err e, store)
      | Ret cfg \<Rightarrow> (Ret (), Some cfg))"

definition config_Get :: "FluxConfig option \<Rightarrow> FluxConfig go_result" where
  "config_Get store =
     (case store of
        None \<Rightarrow> Panic ''config.Load must be called before config.Get''
      | Some c \<Rightarrow> Ret c)"

section \<open>What the defaults give\<close>

text \<open>An autoscaling section with no field left at its zero value.\<close>

definition complete :: "AutoscaleConfig \<Rightarrow> bool" where
  "complete a \<longleftrightarrow>
     \<not> feq (CPUUpperThreshold a) (Fin 0) \<and> \<not> feq (CPULowerThreshold a) (Fin 0) \<and>
     \<not> feq (MemUpperThreshold a) (Fin 0) \<and> \<not> feq (MemLowerThreshold a) (Fin 0) \<and>
     EvaluationWindowSec a \<noteq> 0 \<and> PollIntervalSec a \<noteq> 0 \<and> CooldownSec a \<noteq> 0 \<and>
     MaxNodes a \<noteq> 0 \<and> MinNodes a \<noteq> 0"

definition usable :: "AutoscaleConfig \<Rightarrow> bool" where
  "usable a \<longleftrightarrow> complete a \<and> (Enabled a \<longrightarrow> as_Name a \<noteq> [] \<and> NodeTypes a \<noteq> [])"

lemma default_update:
  "(if b then a\<lparr>CPUUpperThreshold := x\<rparr> else a) = a\<lparr>CPUUpperThreshold := if b then x else CPUUpperThreshold a\<rparr>"
  "(if b then a\<lparr>CPULowerThreshold := x\<rparr> else a) = a\<lparr>CPULowerThreshold := if b then x else CPULowerThreshold a\<rparr>"
  "(if b then a\<lparr>MemUpperThreshold := x\<rparr> else a) = a\<lparr>MemUpperThreshold := if b then x else MemUpperThreshold a\<rparr>"
  "(if b then a\<lparr>MemLowerThreshold := x\<rparr> else a) = a\<lparr>MemLowerThreshold := if b then x else MemLowerThreshold a\<rparr>"
  "(if b then a\<lparr>EvaluationWindowSec := n\<rparr> else a) = a\<lparr>EvaluationWindowSec := if b then n else EvaluationWindowSec a\<rparr>"
  "(if b then a\<lparr>PollIntervalSec := n\<rparr> else a) = a\<lparr>PollIntervalSec := if b then n else PollIntervalSec a\<rparr>"
  "(if b then a\<lparr>CooldownSec := n\<rparr> else a) = a\<lparr>CooldownSec := if b then n else CooldownSec a\<rparr>"
  "(if b then a\<lparr>MaxNodes := n\<rparr> else a) = a\<lparr>MaxNodes := if b then n else MaxNodes a\<rparr>"
  "(if b then a\<lparr>MinNodes := n\<rparr> else a) = a\<lparr>MinNodes := if b then n else MinNodes a\<rparr>"
  by simp_all

lemma applyAutoscaleDefaults_fields [simp]:
  "CPUUpperThreshold (applyAutoscaleDefaults a) = (if feq (CPUUpperThreshold a) (Fin 0) then Fin 80 else CPUUpperThreshold a)"
  "CPULowerThreshold (applyAutoscaleDefaults a) = (if feq (CPULowerThreshold a) (Fin 0) then Fin 20 else CPULowerThreshold a)"
  "MemUpperThreshold (applyAutoscaleDefaults a) = (if feq (MemUpperThreshold a) (Fin 0) then Fin 80 else MemUpperThreshold a)"
  "MemLowerThreshold (applyAutoscaleDefaults a) = (if feq (MemLowerThreshold a) (Fin 0) then Fin 20 else MemLowerThreshold a)"
  "EvaluationWindowSec (applyAutoscaleDefaults a) = (if EvaluationWindowSec a = 0 then 60 else EvaluationWindowSec a)"
  "PollIntervalSec (applyAutoscaleDefaults a) = (if PollIntervalSec a = 0 then 10 else PollIntervalSec a)"
  "CooldownSec (applyAutoscaleDefaults a) = (if CooldownSec a = 0 then 300 else CooldownSec a)"
  "MaxNodes (applyAutoscaleDefaults a) = (if MaxNodes a = 0 then 10 else MaxNodes a)"
  "MinNodes (applyAutoscaleDefaults a) = (if MinNodes a = 0 then 1 else MinNodes a)"
  "Enabled (applyAutoscaleDefaults a) = Enabled a"
  "as_Name (applyAutoscaleDefaults a) = as_Name a"
  "NodeTypes (applyAutoscaleDefaults a) = NodeTypes a"
  unfolding applyAutoscaleDefaults_def Let_def default_update by simp_all

lemma defaults_complete: "complete (applyAutoscaleDefaults a)"
  by (simp add: complete_def feq_def)

lemma defaults_on_complete: "complete a \<Longrightarrow> applyAutoscaleDefaults a = a"
  by (simp add: complete_def applyAutoscaleDefaults_def)

lemma parse_aws_ok:
  "parse_aws p = Inr p' \<Longrightarrow> aws_SSHUser p' \<noteq> [] \<and> (\<forall>a. aws_Autoscaling p' = Some a \<longrightarrow> usable a)"
  using defaults_complete
  by (auto simp: parse_aws_def Let_def usable_def split: if_splits option.splits)

lemma parse_aws_id:
  "aws_SSHUser p \<noteq> [] \<Longrightarrow> (\<forall>a. aws_Autoscaling p = Some a \<longrightarrow> usable a) \<Longrightarrow> parse_aws p = Inr p"
  by (auto simp: parse_aws_def Let_def usable_def defaults_on_complete split: option.splits)

lemma parse_gcp_user: "gcp_SSHUser (parse_gcp p) \<noteq> []"
  by (simp add: parse_gcp_def)

lemma parse_providers_ok:
  assumes "parse_providers ps = Inr qs"
  shows "\<forall>p. AWS qs = Some p \<longrightarrow> aws_SSHUser p \<noteq> [] \<and> (\<forall>a. aws_Autoscaling p = Some a \<longrightarrow> usable a)"
    and "\<forall>p. GCP qs = Some p \<longrightarrow> gcp_SSHUser p \<noteq> []"
  using assms parse_aws_ok
  by (auto simp: parse_providers_def parse_gcp_user split: option.splits sum.splits)

lemma map_option_unchanged: "(\<And>x. m = Some x \<Longrightarrow> f x = x) \<Longrightarrow> map_option f m = m"
  by (cases m) simp_all

lemma parse_providers_id:
  assumes "\<forall>p. AWS qs = Some p \<longrightarrow> aws_SSHUser p \<noteq> [] \<and> (\<forall>a. aws_Autoscaling p = Some a \<longrightarrow> usable a)"
    and "\<forall>p. GCP qs = Some p \<longrightarrow> gcp_SSHUser p \<noteq> []"
  shows "parse_providers qs = Inr qs"
proof -
  have "map_option parse_gcp (GCP qs) = GCP qs"
    by (rule map_option_unchanged) (use assms(2) in \<open>simp add: parse_gcp_def\<close>)
  then show ?thesis using assms(1) parse_aws_id
    by (cases "AWS qs") (auto simp: parse_providers_def)
qed

lemma check_config_ok:
  assumes "check_config pf c = Ret d"
  shows "APIKey d = APIKey c" "APIKey d \<noteq> []" "RedisAddr d \<noteq> []" "AgentPort d \<noteq> 0"
    "RedisAddr d = (if RedisAddr c = [] then ''localhost:6379'' else RedisAddr c)"
    "CertsDir d = (if CertsDir c = [] then defaultCertsDir pf else CertsDir c)"
    "(Providers c = None \<and> Providers d = None) \<or>
     (\<exists>ps qs. Providers c = Some ps \<and> parse_providers ps = Inr qs \<and> Providers d = Some qs)"
  using assms by (auto simp: check_config_def Let_def split: if_splits option.splits sum.splits)

lemma check_config_error_iff:
  "(\<exists>m. check_config pf c = Panic m) \<longleftrightarrow> APIKey c = []"
  "(\<exists>e. check_config pf c = Err e) \<longleftrightarrow> APIKey c \<noteq> [] \<and>
     (\<exists>ps p a. Providers c = Some ps \<and> AWS ps = Some p \<and> aws_Autoscaling p = Some a \<and> Enabled a \<and>
               (as_Name a = [] \<or> NodeTypes a = []))"
  by (auto simp: check_config_def parse_providers_def parse_aws_def Let_def
      split: option.splits sum.splits if_splits)

section \<open>Properties\<close>

definition sample_types :: "NodeTypeConfig list" where
  "sample_types =
     [\<lparr>nt_InstanceType = ''m5.xlarge'', nt_VCPUs = 4, nt_MemoryGB = Fin 16\<rparr>,
      \<lparr>nt_InstanceType = ''c5.large'', nt_VCPUs = 2, nt_MemoryGB = Fin 4\<rparr>]"

text \<open>An autoscaling section that only names itself and its node types.\<close>

definition sample_autoscale :: AutoscaleConfig where
  "sample_autoscale =
     \<lparr>Enabled = True, as_Name = ''fleet'', CPUUpperThreshold = Fin 0, CPULowerThreshold = Fin 0,
      MemUpperThreshold = Fin 0, MemLowerThreshold = Fin 0, EvaluationWindowSec = 0,
      PollIntervalSec = 0, CooldownSec = 0, MaxNodes = 0, MinNodes = 0, NodeTypes = sample_types\<rparr>"

definition sample_aws :: AWSProviderConfig where
  "sample_aws =
     \<lparr>Region = ''eu-west-1'', AMI = ''ami-1'', SecurityGroupID = ''sg-1'', AccessKeyID = [],
      SecretAccessKey = [], aws_SSHUser = [], aws_AgentVersion = [], Tags = [],
      aws_AgentSetupCommands = [], aws_Autoscaling = Some sample_autoscale\<rparr>"

definition sample_gcp :: GCPProviderConfig where
  "sample_gcp =
     \<lparr>ProjectID = ''p'', Zone = ''europe-west1-b'', Image = ''img'', CredentialsFile = [],
      ServiceAccountEmail = [], gcp_SSHUser = [], gcp_AgentVersion = [], Labels = [],
      gcp_AgentSetupCommands = [], gcp_Autoscaling = Some sample_autoscale\<rparr>"

definition sample_config :: FluxConfig where
  "sample_config =
     \<lparr>APIKey = ''k'', RedisAddr = [], AgentPort = 0, CertsDir = [], DisableGRPCTLS = False,
      Providers = Some \<lparr>AWS = Some sample_aws, GCP = Some sample_gcp\<rparr>\<rparr>"

definition linux :: platform where
  "linux = \<lparr>GOOS = ''linux'', Getenv = (\<lambda>_. []), Join = (\<lambda>ps. tl (concat (map ((#) (CHR ''/'')) ps)))\<rparr>"

text \<open>
  C33. \<open>parse\<close> panics exactly without an API key and fails, once the file decodes, exactly when an
  enabled AWS autoscaler has no name or no node types.
\<close>

theorem parse_outcomes:
  assumes "ReadFile path = Inr data" and "Unmarshal data = Inr c"
  shows "((\<exists>m. parse ReadFile Unmarshal pf path = Panic m) \<longleftrightarrow> APIKey c = []) \<and>
    ((\<exists>e. parse ReadFile Unmarshal pf path = Err e) \<longleftrightarrow> APIKey c \<noteq> [] \<and>
       (\<exists>ps p a. Providers c = Some ps \<and> AWS ps = Some p \<and> aws_Autoscaling p = Some a \<and> Enabled a \<and>
                 (as_Name a = [] \<or> NodeTypes a = [])))"
  using assms check_config_error_iff by (simp add: parse_def)

theorem parse_outcomes_witness:
  "(\<exists>m. parse Inr (\<lambda>_. Inr (sample_config\<lparr>APIKey := []\<rparr>)) linux ''flux.yaml'' = Panic m) \<and>
   (\<nexists>e. parse Inr (\<lambda>_. Inr sample_config) linux ''flux.yaml'' = Err e)"
  using parse_outcomes [of Inr "''flux.yaml''" "''flux.yaml''" "\<lambda>_. Inr (sample_config\<lparr>APIKey := []\<rparr>)"]
    parse_outcomes [of Inr "''flux.yaml''" "''flux.yaml''" "\<lambda>_. Inr sample_config" sample_config linux]
  by (simp add: sample_config_def sample_aws_def sample_autoscale_def sample_types_def)

text \<open>
  C32. A configuration that \<open>parse\<close> returns has an API key, a Redis address, a non-zero agent port,
  an SSH user for each provider, and an AWS autoscaling section in which no threshold, window,
  interval, cooldown or bound is left zero; checking it again changes nothing (its certificate
  directory being set).
\<close>

theorem parsed_config_complete:
  assumes "parse ReadFile Unmarshal pf path = Ret d"
  shows "APIKey d \<noteq> [] \<and> RedisAddr d \<noteq> [] \<and> AgentPort d \<noteq> 0 \<and>
    (\<forall>qs p. Providers d = Some qs \<longrightarrow> AWS qs = Some p \<longrightarrow>
       aws_SSHUser p \<noteq> [] \<and> (\<forall>a. aws_Autoscaling p = Some a \<longrightarrow> usable a)) \<and>
    (\<forall>qs p. Providers d = Some qs \<longrightarrow> GCP qs = Some p \<longrightarrow> gcp_SSHUser p \<noteq> []) \<and>
    (CertsDir d \<noteq> [] \<longrightarrow> check_config pf d = Ret d)"
proof -
  obtain c where c: "check_config pf c = Ret d"
    using assms by (auto simp: parse_def split: sum.splits)
  note ok = check_config_ok [OF c]
  have ps: "(\<forall>p. AWS qs = Some p \<longrightarrow> aws_SSHUser p \<noteq> [] \<and> (\<forall>a. aws_Autoscaling p = Some a \<longrightarrow> usable a)) \<and>
      (\<forall>p. GCP qs = Some p \<longrightarrow> gcp_SSHUser p \<noteq> [])" if "Providers d = Some qs" for qs
    using ok(7) that parse_providers_ok by auto
  have "check_config pf d = Ret d" if "CertsDir d \<noteq> []"
    using ok(2,3,4) that ps parse_providers_id by (auto simp: check_config_def split: option.splits)
  with ok(2,3,4) ps show ?thesis by blast
qed

theorem parsed_config_complete_witness:
  "\<exists>d. parse Inr (\<lambda>_. Inr sample_config) linux ''flux.yaml'' = Ret d \<and> RedisAddr d \<noteq> [] \<and>
     check_config linux d = Ret d"
proof -
  obtain d where d: "parse Inr (\<lambda>_. Inr sample_config) linux ''flux.yaml'' = Ret d"
    by (simp add: parse_def check_config_def sample_config_def parse_providers_def parse_aws_def
        sample_aws_def sample_autoscale_def sample_types_def Let_def)
  then have "CertsDir d \<noteq> []"
    using check_config_ok(6) [of linux sample_config d]
    by (simp add: parse_def sample_config_def defaultCertsDir_def linux_def)
  with parsed_config_complete [OF d] d show ?thesis by blast
qed

text \<open>
  The default Redis address does not start the server: \<open>redis.ParseURL\<close> documents that it
  accepts only URLs of the schemes redis, rediss and unix, so without \<open>redis_addr\<close> in the file
  \<open>NewRedisMemory\<close> panics on the address \<open>parse\<close> filled in.
\<close>

theorem default_redis_address_panics:
  assumes "\<And>u. \<not> prefix ''redis://'' u \<Longrightarrow> \<not> prefix ''rediss://'' u \<Longrightarrow> \<not> prefix ''unix://'' u \<Longrightarrow>
      \<exists>e. ParseURL u = Inl e"
    and "check_config pf c = Ret d" and "RedisAddr c = []"
  shows "\<exists>m. NewRedisMemory ParseURL NewClient (RedisAddr d) = Panic m"
proof -
  have "RedisAddr d = ''localhost:6379''" using check_config_ok(5) [OF assms(2)] assms(3) by simp
  then obtain e where "ParseURL (RedisAddr d) = Inl e" using assms(1) [of "RedisAddr d"] by auto
  then show ?thesis by (simp add: NewRedisMemory_def)
qed

definition strict_ParseURL :: "string \<Rightarrow> go_error + string" where
  "strict_ParseURL u =
     (if prefix ''redis://'' u \<or> prefix ''rediss://'' u \<or> prefix ''unix://'' u then Inr u
      else Inl ''redis: invalid URL scheme'')"

theorem default_redis_address_panics_witness:
  "\<exists>d. check_config linux sample_config = Ret d \<and>
     (\<exists>m. NewRedisMemory strict_ParseURL (\<lambda>_. alist_redis) (RedisAddr d) = Panic m)"
proof -
  obtain d where d: "check_config linux sample_config = Ret d"
    by (simp add: check_config_def sample_config_def parse_providers_def parse_aws_def
        sample_aws_def sample_autoscale_def sample_types_def Let_def)
  from default_redis_address_panics [where ParseURL = strict_ParseURL, OF _ d, of "\<lambda>_. alist_redis"]
  have "\<exists>m. NewRedisMemory strict_ParseURL (\<lambda>_. alist_redis) (RedisAddr d) = Panic m"
    by (simp add: strict_ParseURL_def sample_config_def)
  with d show ?thesis by blast
qed

end
