(* ===== verification/Instance_Catalog.thy ===== *)
theory Instance_Catalog imports Config "HOL-Library.Multiset" begin

text \<open>
  \<open>pkg/resource/instance_catalog.go\<close>, the node structures of \<open>provider.go\<close> and the catalogue
  helpers of \<open>scaler.go\<close>: choosing an instance type from the operator's list.  \<open>sort.Slice\<close>
  promises a sorted permutation and nothing about equal elements, so the sorting function is an
  argument and \<open>slice_sort\<close> its contract.
\<close>

section \<open>Node resources\<close>

record NodeResources =
  VCPUs :: int
  MemoryGB :: f64

record ProvisionedNode =
  pn_ProviderID :: string
  pn_AgentID :: string
  pn_InstanceType :: string
  PublicIP :: string
  PrivateIP :: string

section \<open>Smallest and largest\<close>

fun smaller_loop :: "NodeTypeConfig list \<Rightarrow> NodeTypeConfig \<Rightarrow> NodeTypeConfig" where
  "smaller_loop [] smallest = smallest"
| "smaller_loop (nt # nts) smallest =
     smaller_loop nts
       (if nt_VCPUs nt < nt_VCPUs smallest \<or>
           nt_VCPUs nt = nt_VCPUs smallest \<and> flt (nt_MemoryGB nt) (nt_MemoryGB smallest)
        then nt else smallest)"

definition smallestNodeResources :: "NodeTypeConfig list \<Rightarrow> NodeResources" where
  "smallestNodeResources nodeTypes =
     (case nodeTypes of
        [] \<Rightarrow> \<lparr>VCPUs = 1, MemoryGB = Fin 1\<rparr>
      | nt # nts \<Rightarrow>
          let smallest = smaller_loop nts nt
          in \<lparr>VCPUs = nt_VCPUs smallest, MemoryGB = nt_MemoryGB smallest\<rparr>)"

fun larger_loop :: "NodeTypeConfig list \<Rightarrow> NodeTypeConfig \<Rightarrow> NodeTypeConfig" where
  "larger_loop [] largest = largest"
| "larger_loop (nt # nts) largest =
     larger_loop nts
       (if nt_VCPUs largest < nt_VCPUs nt \<or>
           nt_VCPUs nt = nt_VCPUs largest \<and> flt (nt_MemoryGB largest) (nt_MemoryGB nt)
        then nt else largest)"

definition largestNodeResources :: "NodeTypeConfig list \<Rightarrow> NodeResources" where
  "largestNodeResources nodeTypes =
     (case nodeTypes of
        [] \<Rightarrow> \<lparr>VCPUs = 1, MemoryGB = Fin 1\<rparr>
      | nt # nts \<Rightarrow>
          let largest = larger_loop nts nt
          in \<lparr>VCPUs = nt_VCPUs largest, MemoryGB = nt_MemoryGB largest\<rparr>)"

fun find_type :: "NodeResources \<Rightarrow> NodeTypeConfig list \<Rightarrow> string" where
  "find_type r [] = []"
| "find_type r (nt # nts) =
     (if nt_VCPUs nt = VCPUs r \<and> feq (nt_MemoryGB nt) (MemoryGB r) then nt_InstanceType nt
      else find_type r nts)"

definition largestInstanceType :: "NodeTypeConfig list \<Rightarrow> string" where
  "largestInstanceType nodeTypes = find_type (largestNodeResources nodeTypes) nodeTypes"

section \<open>Selecting an instance type\<close>

record candidate =
  c_instanceType :: string
  c_score :: f64

definition type_score :: "NodeTypeConfig \<Rightarrow> NodeResources \<Rightarrow> f64" where
  "type_score nt required =
     (let excessCPU = f64_of_int (wrap64 (nt_VCPUs nt - VCPUs required));
          excessMem = fsub (nt_MemoryGB nt) (MemoryGB required)
      in fsqrt (fadd (fmul excessCPU excessCPU) (fmul excessMem excessMem)))"

fun collect_candidates :: "NodeTypeConfig list \<Rightarrow> NodeResources \<Rightarrow> candidate list" where
  "collect_candidates [] required = []"
| "collect_candidates (nt # nts) required =
     (if nt_VCPUs nt < VCPUs required \<or> flt (nt_MemoryGB nt) (MemoryGB required)
      then collect_candidates nts required
      else \<lparr>c_instanceType = nt_InstanceType nt, c_score = type_score nt required\<rparr> #
           collect_candidates nts required)"

text \<open>The texts of \<open>fmt.Errorf\<close> carry the two numbers; here they are the constant prefixes.\<close>

definition selectInstanceType ::
  "((candidate \<Rightarrow> candidate \<Rightarrow> bool) \<Rightarrow> candidate list \<Rightarrow> candidate list) \<Rightarrow>
   NodeTypeConfig list \<Rightarrow> NodeResources \<Rightarrow> go_error + string" where
  "selectInstanceType slice_sort nodeTypes required =
     (if VCPUs required \<le> 0 \<or> fle (MemoryGB required) (Fin 0) then
        Inl ''invalid resource requirements''
      else if length nodeTypes = 0 then Inl ''no node_types configured''
      else
        let candidates = collect_candidates nodeTypes required
        in if length candidates = 0 then Inl ''no configured node_type meets requirements''
           else
             (case slice_sort (\<lambda>c d. flt (c_score c) (c_score d)) candidates of
                [] \<Rightarrow> Inl ''index out of range''
              | c # _ \<Rightarrow> Inr (c_instanceType c)))"

section \<open>Sorting\<close>

text \<open>A strict weak order on a set of elements: what \<open>sort.Slice\<close> asks of its comparison.\<close>

definition weak_order :: "('a \<Rightarrow> 'a \<Rightarrow> bool) \<Rightarrow> 'a set \<Rightarrow> bool" where
  "weak_order lt A \<longleftrightarrow>
     (\<forall>x \<in> A. \<not> lt x x) \<and>
     (\<forall>x \<in> A. \<forall>y \<in> A. \<forall>z \<in> A. lt x y \<longrightarrow> lt y z \<longrightarrow> lt x z) \<and>
     (\<forall>x \<in> A. \<forall>y \<in> A. \<forall>z \<in> A. lt x y \<longrightarrow> lt x z \<or> lt z y)"

lemma weak_order_subset: "weak_order lt A \<Longrightarrow> B \<subseteq> A \<Longrightarrow> weak_order lt B"
  unfolding weak_order_def by (meson subsetD)

lemma weak_orderD:
  assumes "weak_order lt A" and "x \<in> A" and "y \<in> A" and "z \<in> A"
  shows "\<not> lt x x" and "lt x y \<Longrightarrow> \<not> lt y x" and "lt x y \<Longrightarrow> lt x z \<or> lt z y"
  using assms unfolding weak_order_def by blast+

locale slice_sort =
  fixes sort_slice :: "('a \<Rightarrow> 'a \<Rightarrow> bool) \<Rightarrow> 'a list \<Rightarrow> 'a list"
  assumes sort_mset: "mset (sort_slice lt xs) = mset xs"
    and sort_sorted: "weak_order lt (set xs) \<Longrightarrow> sorted_wrt (\<lambda>x y. \<not> lt y x) (sort_slice lt xs)"
begin

lemma sort_set [simp]: "set (sort_slice lt xs) = set xs"
  by (metis set_mset_mset sort_mset)

lemma sort_Nil_iff [simp]: "sort_slice lt xs = [] \<longleftrightarrow> xs = []"
  by (metis mset_zero_iff sort_mset)

lemma sort_head: "sort_slice lt xs = y # ys \<Longrightarrow> y \<in> set xs"
  by (metis list.set_intros(1) sort_set)

lemma sort_head_least:
  assumes "weak_order lt (set xs)" and "sort_slice lt xs = y # ys" and "x \<in> set xs"
  shows "\<not> lt x y"
proof -
  have "x \<in> set (y # ys)" using assms(2,3) sort_set by metis
  moreover have "\<not> lt y y"
    using weak_orderD(1) [OF assms(1)] sort_head [OF assms(2)] by blast
  ultimately show ?thesis using sort_sorted [OF assms(1)] assms(2) by auto
qed

end

text \<open>
  Go sorts up to twelve elements by insertion: each element moves left past the greater ones.
  The sorted prefix is kept reversed.
\<close>

fun insert_back :: "('a \<Rightarrow> 'a \<Rightarrow> bool) \<Rightarrow> 'a \<Rightarrow> 'a list \<Rightarrow> 'a list" where
  "insert_back lt x [] = [x]"
| "insert_back lt x (y # ys) = (if lt x y then y # insert_back lt x ys else x # y # ys)"

definition insertion_sort :: "('a \<Rightarrow> 'a \<Rightarrow> bool) \<Rightarrow> 'a list \<Rightarrow> 'a list" where
  "insertion_sort lt xs = rev (fold (insert_back lt) xs [])"

lemma insert_back_mset [simp]: "mset (insert_back lt x ys) = add_mset x (mset ys)"
  by (induction ys) auto

lemma insert_back_set [simp]: "set (insert_back lt x ys) = insert x (set ys)"
  by (metis insert_back_mset set_mset_add_mset_insert set_mset_mset)

lemma fold_insert_mset: "mset (fold (insert_back lt) xs ys) = mset xs + mset ys"
  by (induction xs arbitrary: ys) auto

lemma insert_back_sorted:
  "weak_order lt (insert x (set ys)) \<Longrightarrow> sorted_wrt (\<lambda>a b. \<not> lt a b) ys \<Longrightarrow>
     sorted_wrt (\<lambda>a b. \<not> lt a b) (insert_back lt x ys)"
proof (induction ys)
  case (Cons y ys)
  have sub: "weak_order lt (insert x (set ys))"
    by (rule weak_order_subset [OF Cons.prems(1)]) auto
  show ?case
  proof (cases "lt x y")
    case True
    then have "\<not> lt y x" using weak_orderD(2) [OF Cons.prems(1), of x y x] by simp
    then show ?thesis using True Cons.IH [OF sub] Cons.prems(2) by simp
  next
    case False
    have "\<not> lt x z" if "z \<in> set ys" for z
    proof
      assume "lt x z"
      then have "lt x y \<or> lt y z"
        using weak_orderD(3) [OF Cons.prems(1), of x z y] that by simp
      then show False using False Cons.prems(2) that by simp
    qed
    then show ?thesis using False Cons.prems(2) by simp
  qed
qed simp

lemma fold_insert_sorted:
  "weak_order lt (set xs \<union> set ys) \<Longrightarrow> sorted_wrt (\<lambda>a b. \<not> lt a b) ys \<Longrightarrow>
     sorted_wrt (\<lambda>a b. \<not> lt a b) (fold (insert_back lt) xs ys)"
proof (induction xs arbitrary: ys)
  case (Cons x xs)
  have "weak_order lt (insert x (set ys))"
    by (rule weak_order_subset [OF Cons.prems(1)]) auto
  then have "sorted_wrt (\<lambda>a b. \<not> lt a b) (insert_back lt x ys)"
    by (rule insert_back_sorted [OF _ Cons.prems(2)])
  moreover have "weak_order lt (set xs \<union> set (insert_back lt x ys))" using Cons.prems(1) by simp
  ultimately show ?case using Cons.IH [of "insert_back lt x ys"] by simp
qed simp

interpretation insertion: slice_sort insertion_sort
proof unfold_locales
  show "mset (insertion_sort lt xs) = mset xs" for lt and xs :: "'a list"
    by (simp add: insertion_sort_def fold_insert_mset)
  show "sorted_wrt (\<lambda>x y. \<not> lt y x) (insertion_sort lt xs)" if "weak_order lt (set xs)"
    for lt and xs :: "'a list"
    using fold_insert_sorted [of lt xs "[]"] that by (simp add: insertion_sort_def sorted_wrt_rev)
qed

section \<open>The largest and the smallest type\<close>

definition larger :: "NodeTypeConfig \<Rightarrow> NodeTypeConfig \<Rightarrow> bool" where
  "larger a b \<longleftrightarrow>
     nt_VCPUs b < nt_VCPUs a \<or> nt_VCPUs a = nt_VCPUs b \<and> flt (nt_MemoryGB b) (nt_MemoryGB a)"

lemma loops_select:
  "Some (larger_loop nts nt) = select_loop (\<lambda>_. True) larger nts (Some nt)"
  "Some (smaller_loop nts nt) = select_loop (\<lambda>_. True) (\<lambda>a b. larger b a) nts (Some nt)"
  by (induction nts arbitrary: nt) (auto simp: larger_def)

interpretation largest: selection larger
  by unfold_locales (auto simp: larger_def dest: flt_trans)

interpretation smallest: selection "\<lambda>a b. larger b a"
  by unfold_locales (auto simp: larger_def dest: flt_trans)

lemma larger_loop_max:
  "larger_loop nts nt \<in> set (nt # nts) \<and> (\<forall>a \<in> set (nt # nts). \<not> larger a (larger_loop nts nt))"
proof -
  have run: "select_loop (\<lambda>_. True) larger nts (Some nt) = Some (larger_loop nts nt)"
    by (simp add: loops_select)
  show ?thesis
    using largest.select_from [OF run] largest.select_max_aux [OF run] largest.select_above [OF run]
      largest.better_irrefl by auto
qed

lemma smaller_loop_min:
  "smaller_loop nts nt \<in> set (nt # nts) \<and> (\<forall>a \<in> set (nt # nts). \<not> larger (smaller_loop nts nt) a)"
proof -
  have run: "select_loop (\<lambda>_. True) (\<lambda>a b. larger b a) nts (Some nt) = Some (smaller_loop nts nt)"
    by (simp add: loops_select)
  show ?thesis
    using smallest.select_from [OF run] smallest.select_max_aux [OF run] smallest.select_above [OF run]
      smallest.better_irrefl by auto
qed

definition has_resources :: "NodeTypeConfig \<Rightarrow> NodeResources \<Rightarrow> bool" where
  "has_resources nt r \<longleftrightarrow> nt_VCPUs nt = VCPUs r \<and> nt_MemoryGB nt = MemoryGB r"

lemma largestNodeResources_max:
  "nts \<noteq> [] \<Longrightarrow> \<exists>nt \<in> set nts. has_resources nt (largestNodeResources nts) \<and> (\<forall>a \<in> set nts. \<not> larger a nt)"
proof (cases nts)
  case (Cons nt nts')
  then show ?thesis
    using larger_loop_max [of nts' nt]
    by (intro bexI [of _ "larger_loop nts' nt"])
      (simp_all add: largestNodeResources_def has_resources_def Let_def)
qed simp

lemma smallestNodeResources_min:
  "nts \<noteq> [] \<Longrightarrow> \<exists>nt \<in> set nts. has_resources nt (smallestNodeResources nts) \<and> (\<forall>a \<in> set nts. \<not> larger nt a)"
proof (cases nts)
  case (Cons nt nts')
  then show ?thesis
    using smaller_loop_min [of nts' nt]
    by (intro bexI [of _ "smaller_loop nts' nt"])
      (simp_all add: smallestNodeResources_def has_resources_def Let_def)
qed simp

lemma find_type_some:
  "\<exists>nt \<in> set nts. has_resources nt r \<and> nt_MemoryGB nt \<noteq> FNaN \<Longrightarrow>
     \<exists>nt \<in> set nts. has_resources nt r \<and> find_type r nts = nt_InstanceType nt"
  by (induction nts) (auto simp: has_resources_def feq_def)

section \<open>Scores\<close>

lemma mk_f64_ge:
  "0 \<le> q \<Longrightarrow> fle (Fin 0) (mk_f64 q)"
  "1 \<le> q \<Longrightarrow> fle (Fin 1) (mk_f64 q)"
  using mk_f64_mono [of 0 q] mk_f64_mono [of 1 q] by simp_all

lemma fmul_square_nonneg: "x \<noteq> FNaN \<Longrightarrow> fle (Fin 0) (fmul x x)"
  by (cases x) (auto simp: mk_f64_ge)

lemma fmul_square_ge_1: "fle (Fin 1) x \<Longrightarrow> fle (Fin 1) (fmul x x)"
proof (cases x)
  case (Fin q)
  assume "fle (Fin 1) x"
  then have "1 * 1 \<le> q * q" using Fin by (intro mult_mono) simp_all
  then show ?thesis using Fin by (simp add: mk_f64_ge(2))
qed simp_all

lemma fadd_ge:
  "fle (Fin 0) x \<Longrightarrow> fle (Fin 0) y \<Longrightarrow> fle (Fin 0) (fadd x y)"
  "fle (Fin 1) x \<Longrightarrow> fle (Fin 0) y \<Longrightarrow> fle (Fin 1) (fadd x y)"
  by (cases x; cases y; auto intro!: mk_f64_ge)+

lemma fsqrt_ge:
  "fle (Fin 0) x \<Longrightarrow> fle (Fin 0) (fsqrt x)"
  "fle (Fin 1) x \<Longrightarrow> fle (Fin 1) (fsqrt x)"
  using f64_sqrt_pos f64_sqrt_ge_1 f64_sqrt_0
  by (cases x; force simp: order_le_less)+

text \<open>Type lists as an operator writes them: finite memory sizes and vCPU counts of Go's \<open>int\<close>.\<close>

definition proper_types :: "NodeTypeConfig list \<Rightarrow> bool" where
  "proper_types nts \<longleftrightarrow> (\<forall>nt \<in> set nts. is_finite (nt_MemoryGB nt) \<and> nt_VCPUs nt < 2 ^ 63)"

definition meets :: "NodeTypeConfig \<Rightarrow> NodeResources \<Rightarrow> bool" where
  "meets nt r \<longleftrightarrow> VCPUs r \<le> nt_VCPUs nt \<and> fle (MemoryGB r) (nt_MemoryGB nt)"

lemma mk_f64_not_NaN [simp]: "mk_f64 q \<noteq> FNaN"
  by (simp add: mk_f64_def Let_def)

lemma excess_cpu:
  assumes "0 < c" "c \<le> v" "v < 2 ^ 63"
  shows "fle (Fin 0) (f64_of_int (wrap64 (v - c)))"
    and "c < v \<Longrightarrow> fle (Fin 1) (f64_of_int (wrap64 (v - c)))"
proof -
  have "wrap64 (v - c) = v - c" using assms by (intro wrap64_id) simp_all
  then show "fle (Fin 0) (f64_of_int (wrap64 (v - c)))"
    and "c < v \<Longrightarrow> fle (Fin 1) (f64_of_int (wrap64 (v - c)))"
    using assms mk_f64_ge(1) [of "of_int (v - c)"] mk_f64_ge(2) [of "of_int (v - c)"]
    by (simp_all add: f64_of_int_def del: of_int_diff)
qed

lemma type_score_bounds:
  assumes "0 < VCPUs r" "VCPUs r \<le> nt_VCPUs nt" "nt_VCPUs nt < 2 ^ 63"
    and "is_finite (nt_MemoryGB nt)" "is_finite (MemoryGB r)"
  shows "fle (Fin 0) (type_score nt r)"
    and "VCPUs r < nt_VCPUs nt \<Longrightarrow> fle (Fin 1) (type_score nt r)"
proof -
  let ?c = "f64_of_int (wrap64 (nt_VCPUs nt - VCPUs r))" and ?m = "fsub (nt_MemoryGB nt) (MemoryGB r)"
  have m: "fle (Fin 0) (fmul ?m ?m)"
    using assms(4,5) by (intro fmul_square_nonneg) (auto simp: is_finite_iff fsub_def)
  have "?c \<noteq> FNaN" by (simp add: f64_of_int_def)
  then have "fle (Fin 0) (fadd (fmul ?c ?c) (fmul ?m ?m))"
    using fadd_ge(1) fmul_square_nonneg m by blast
  then show "fle (Fin 0) (type_score nt r)" unfolding type_score_def Let_def by (rule fsqrt_ge(1))
  assume "VCPUs r < nt_VCPUs nt"
  then have "fle (Fin 1) (fadd (fmul ?c ?c) (fmul ?m ?m))"
    using fadd_ge(2) fmul_square_ge_1 [OF excess_cpu(2)] m assms(1-3) by blast
  then show "fle (Fin 1) (type_score nt r)" unfolding type_score_def Let_def by (rule fsqrt_ge(2))
qed

lemma type_score_exact:
  "has_resources nt r \<Longrightarrow> is_finite (MemoryGB r) \<Longrightarrow> type_score nt r = Fin 0"
  by (auto simp: has_resources_def type_score_def is_finite_iff fsub_def wrap64_id)

lemma collect_candidates_map:
  "collect_candidates nts r =
     map (\<lambda>nt. \<lparr>c_instanceType = nt_InstanceType nt, c_score = type_score nt r\<rparr>)
       (filter (\<lambda>nt. \<not> (nt_VCPUs nt < VCPUs r \<or> flt (nt_MemoryGB nt) (MemoryGB r))) nts)"
  by (induction nts) auto

lemma candidate_meets:
  "is_finite (nt_MemoryGB nt) \<Longrightarrow> is_finite (MemoryGB r) \<Longrightarrow>
     \<not> (nt_VCPUs nt < VCPUs r \<or> flt (nt_MemoryGB nt) (MemoryGB r)) \<longleftrightarrow> meets nt r"
  by (auto simp: meets_def is_finite_iff)

lemma candidates_of:
  assumes "proper_types nts" and "is_finite (MemoryGB r)"
  shows "set (collect_candidates nts r) =
    (\<lambda>nt. \<lparr>c_instanceType = nt_InstanceType nt, c_score = type_score nt r\<rparr>) ` {nt \<in> set nts. meets nt r}"
  using assms candidate_meets by (auto simp: collect_candidates_map proper_types_def)

lemma candidates_weak_order:
  assumes "proper_types nts" and "is_finite (MemoryGB r)" and "0 < VCPUs r"
  shows "weak_order (\<lambda>c d. flt (c_score c) (c_score d)) (set (collect_candidates nts r))"
proof -
  have num: "c_score c \<noteq> FNaN" if "c \<in> set (collect_candidates nts r)" for c
    using that type_score_bounds(1) [of r] assms candidates_of [OF assms(1,2)]
    by (force simp: proper_types_def meets_def fle_iff)
  have tri: "flt (c_score x) (c_score y) \<Longrightarrow> flt (c_score x) (c_score z) \<or> flt (c_score z) (c_score y)"
    if "z \<in> set (collect_candidates nts r)" for x y z
    using num [OF that] by (cases "c_score x"; cases "c_score y"; cases "c_score z") auto
  show ?thesis unfolding weak_order_def
    by (intro conjI ballI impI) (simp, erule (1) flt_trans, erule (1) tri [rotated])
qed

section \<open>Properties\<close>

text \<open>
  C9. The instance type selected is one of the operator's list, meets both requirements, and no
  other listed type that meets them is closer to them.
\<close>

theorem select_tightest:
  assumes "slice_sort sort_slice" and "proper_types nodeTypes" and "is_finite (MemoryGB required)"
    and "selectInstanceType sort_slice nodeTypes required = Inr t"
  shows "\<exists>nt \<in> set nodeTypes. nt_InstanceType nt = t \<and> meets nt required \<and>
    (\<forall>nt' \<in> set nodeTypes. meets nt' required \<longrightarrow>
       fle (type_score nt required) (type_score nt' required))"
proof -
  let ?cs = "collect_candidates nodeTypes required" and ?lt = "\<lambda>c d. flt (c_score c) (c_score d)"
  obtain c cs where c: "sort_slice ?lt ?cs = c # cs" "t = c_instanceType c" "0 < VCPUs required"
    using assms(4) by (auto simp: selectInstanceType_def Let_def split: if_splits list.splits)
  note cands = candidates_of [OF assms(2,3)]
  have least: "\<not> ?lt d c" if "d \<in> set ?cs" for d
    using slice_sort.sort_head_least [OF assms(1) candidates_weak_order [OF assms(2,3) c(3)] c(1) that] .
  obtain nt where nt: "nt \<in> set nodeTypes" "meets nt required" "nt_InstanceType nt = t"
    "c_score c = type_score nt required"
    using slice_sort.sort_head [OF assms(1) c(1)] c(2) cands by auto
  have "fle (type_score nt required) (type_score nt' required)"
    if "nt' \<in> set nodeTypes" "meets nt' required" for nt'
  proof -
    have "\<not> flt (type_score nt' required) (type_score nt required)"
      using least [of "\<lparr>c_instanceType = nt_InstanceType nt', c_score = type_score nt' required\<rparr>"]
        cands that nt(4) by auto
    moreover have "fle (Fin 0) (type_score nt' required)" "fle (Fin 0) (type_score nt required)"
      using type_score_bounds(1) that nt assms(2,3) c(3) by (auto simp: proper_types_def meets_def)
    ultimately show ?thesis by (simp add: fle_iff)
  qed
  with nt show ?thesis by blast
qed

theorem select_tightest_witness:
  "\<exists>nt \<in> set sample_types. nt_InstanceType nt = ''c5.large'' \<and> meets nt \<lparr>VCPUs = 2, MemoryGB = Fin 2\<rparr>"
proof -
  have "selectInstanceType insertion_sort sample_types \<lparr>VCPUs = 2, MemoryGB = Fin 2\<rparr> = Inr ''c5.large''"
    by code_simp
  then show ?thesis
    using select_tightest [OF insertion.slice_sort_axioms, of sample_types "\<lparr>VCPUs = 2, MemoryGB = Fin 2\<rparr>"]
    by (auto simp: proper_types_def sample_types_def)
qed

text \<open>
  C34. On a proper list selection fails only for a reason: the requirements are not positive or no
  listed type meets them.
\<close>

theorem select_fails_iff:
  assumes "slice_sort sort_slice" and "proper_types nodeTypes" and "is_finite (MemoryGB required)"
  shows "(\<exists>e. selectInstanceType sort_slice nodeTypes required = Inl e) \<longleftrightarrow>
    VCPUs required \<le> 0 \<or> fle (MemoryGB required) (Fin 0) \<or> (\<forall>nt \<in> set nodeTypes. \<not> meets nt required)"
proof -
  have "collect_candidates nodeTypes required = [] \<longleftrightarrow> (\<forall>nt \<in> set nodeTypes. \<not> meets nt required)"
    using candidates_of [OF assms(2,3)] by (metis (no_types, lifting) empty_Collect_eq image_is_empty set_empty)
  then show ?thesis
    using slice_sort.sort_Nil_iff [OF assms(1)]
    by (auto simp: selectInstanceType_def Let_def split: list.splits)
qed

theorem select_fails_iff_witness:
  "(\<exists>e. selectInstanceType insertion_sort sample_types \<lparr>VCPUs = 8, MemoryGB = Fin 4\<rparr> = Inl e)"
  using select_fails_iff [OF insertion.slice_sort_axioms, of sample_types "\<lparr>VCPUs = 8, MemoryGB = Fin 4\<rparr>"]
  by (simp add: proper_types_def sample_types_def meets_def)

text \<open>
  C35. Asking for the resources of the smallest configured type, as the autoscaler does, always
  selects a type at distance zero with exactly its number of vCPUs, when the smallest type has
  positive resources.
\<close>

theorem smallest_is_launched:
  assumes "slice_sort sort_slice" and "proper_types nodeTypes" and "nodeTypes \<noteq> []"
    and "0 < VCPUs (smallestNodeResources nodeTypes)"
    and "flt (Fin 0) (MemoryGB (smallestNodeResources nodeTypes))"
  shows "\<exists>nt \<in> set nodeTypes.
    selectInstanceType sort_slice nodeTypes (smallestNodeResources nodeTypes) = Inr (nt_InstanceType nt) \<and>
    nt_VCPUs nt = VCPUs (smallestNodeResources nodeTypes) \<and>
    type_score nt (smallestNodeResources nodeTypes) = Fin 0"
proof -
  let ?r = "smallestNodeResources nodeTypes"
  obtain sm where sm: "sm \<in> set nodeTypes" "has_resources sm ?r"
    using smallestNodeResources_min [OF assms(3)] by blast
  have fin: "is_finite (MemoryGB ?r)" using sm assms(2) by (auto simp: has_resources_def proper_types_def)
  have "meets sm ?r" using sm(2) fin by (auto simp: has_resources_def meets_def is_finite_iff)
  then have "\<nexists>e. selectInstanceType sort_slice nodeTypes ?r = Inl e"
    using select_fails_iff [OF assms(1,2) fin] sm(1) assms(4,5) by (auto simp: fle_iff)
  then obtain t where t: "selectInstanceType sort_slice nodeTypes ?r = Inr t"
    by (cases "selectInstanceType sort_slice nodeTypes ?r") auto
  from select_tightest [OF assms(1,2) fin t] \<open>meets sm ?r\<close> sm(1) obtain nt
    where nt: "nt \<in> set nodeTypes" "nt_InstanceType nt = t" "meets nt ?r"
      "fle (type_score nt ?r) (type_score sm ?r)" by blast
  then have le: "fle (type_score nt ?r) (Fin 0)" using type_score_exact [OF sm(2) fin] by simp
  have b: "fle (Fin 0) (type_score nt ?r)" "VCPUs ?r < nt_VCPUs nt \<Longrightarrow> fle (Fin 1) (type_score nt ?r)"
    using type_score_bounds nt(1,3) assms(2,4) fin by (auto simp: proper_types_def meets_def)
  have "\<not> VCPUs ?r < nt_VCPUs nt" using b(2) le fle_trans [of "Fin 1" _ "Fin 0"] by auto
  moreover have "type_score nt ?r = Fin 0" using b(1) le by (cases "type_score nt ?r") auto
  ultimately show ?thesis using nt t by (auto simp: meets_def)
qed

theorem smallest_is_launched_witness:
  "\<exists>nt \<in> set sample_types. nt_VCPUs nt = 2 \<and>
    selectInstanceType insertion_sort sample_types (smallestNodeResources sample_types) = Inr (nt_InstanceType nt)"
  using smallest_is_launched [OF insertion.slice_sort_axioms, of sample_types]
  by (auto simp: proper_types_def sample_types_def smallestNodeResources_def Let_def)

end
