(* ===== verification/Cloud_Provider.thy ===== *)
theory Cloud_Provider imports Instance_Catalog begin

text \<open>
  The interface \<open>CloudProvider\<close> of \<open>pkg/resource/provider.go\<close> as a method table over the outside
  state, and the contract the autoscaler and the providers manager rely on: what each call does
  to the set of instances the cloud runs (and bills).  A spawn that reports an error may have
  started an instance nevertheless; a termination that reports an error may have ended it.
\<close>

record 'w cloud_provider =
  cp_Name :: string
  SpawnNode :: "NodeResources \<Rightarrow> 'w \<Rightarrow> (go_error + ProvisionedNode) \<times> 'w"
  Bootstrap :: "ProvisionedNode \<Rightarrow> 'w \<Rightarrow> go_error option \<times> 'w"
  TerminateNode :: "string \<Rightarrow> 'w \<Rightarrow> go_error option \<times> 'w"

locale cloud_contract =
  fixes P :: "'w cloud_provider" and running :: "'w \<Rightarrow> string set"
  assumes spawn_ok: "SpawnNode P r w = (Inr n, w') \<Longrightarrow>
      pn_ProviderID n \<notin> running w \<and> running w' = insert (pn_ProviderID n) (running w)"
    and spawn_error: "SpawnNode P r w = (Inl e, w') \<Longrightarrow>
      running w \<subseteq> running w' \<and> (\<exists>i. running w' \<subseteq> insert i (running w))"
    and bootstrap: "Bootstrap P nd w = (be, w') \<Longrightarrow> running w' = running w"
    and terminate_ok: "TerminateNode P i w = (None, w') \<Longrightarrow> running w' = running w - {i}"
    and terminate_error: "TerminateNode P i w = (Some e, w') \<Longrightarrow>
      running w' = running w \<or> running w' = running w - {i}"
begin

lemma terminate_bounds:
  "TerminateNode P i w = (e, w') \<Longrightarrow> running w - {i} \<subseteq> running w' \<and> running w' \<subseteq> running w"
  by (cases e) (auto dest: terminate_ok terminate_error)

lemma spawn_grows: "SpawnNode P r w = (x, w') \<Longrightarrow> running w \<subseteq> running w'"
  by (cases x) (auto dest: spawn_ok spawn_error)

end

end
