(* ===== verification/Agent_Client.thy ===== *)
theory Agent_Client imports Config begin

text \<open>
  \<open>pkg/client/agent.go\<close>: the client that calls agents over gRPC, with its cache of connections.
  The gRPC library, the generated stub, the TLS functions and the clock are a parameter, a record
  \<open>grpc\<close> whose calls act on an outside state \<open>'w\<close>; a connection is an opaque handle \<open>'c\<close>.  The
  client's seven methods are collected in a method table \<open>agent_client\<close>, which is what the
  autoscaler, the API server and the health poller use.
\<close>

section \<open>Messages\<close>

text \<open>The messages of \<open>proto/flux.proto\<close> the client sends and receives, with the generated fields.\<close>

record FunctionConfig =
  fc_Name :: string
  fc_Handler :: string
  CpuMillicores :: i32
  MemoryMb :: i64
  TimeoutSeconds :: i32
  fc_Env :: "(string \<times> string) list option"
  fc_MaxConcurrency :: i32
  fc_MaxConcurrencyBehavior :: string

record Ack =
  Success :: bool
  Message :: string

record DeploymentPackage =
  FunctionName :: string
  CodeArchive :: bytes

record ExecutionRequest =
  er_Function :: string
  er_Args :: "string list"
  er_Execution :: string
  er_Async :: bool

record ExecutionResponse =
  Output :: string
  Error :: string
  DurationMs :: i64

record GetExecutionResponse =
  Found :: bool
  Data :: bytes

record NodeStatusResponse =
  AgentId :: string
  CpuPercent :: f64
  MemoryPercent :: f64
  MemoryTotalMb :: u64
  MemoryUsedMb :: u64
  rs_ActiveTasks :: i32
  MaxTasks :: i32
  UptimeSeconds :: i64

section \<open>Certificates\<close>

text \<open>
  The part of \<open>PKI\<close> (\<open>pkg/pki/pki.go\<close>) the client reads: the paths of the certificate directory.
\<close>

record ('crt, 'key) pki =
  certsDir :: string
  caCert :: "'crt option"
  caKey :: "'key option"
  sshPublicKey :: string

definition CACertPath :: "platform \<Rightarrow> ('crt, 'key) pki \<Rightarrow> string" where
  "CACertPath pf p = Join pf [certsDir p, ''ca'', ''ca.pem'']"

definition FluxCertPath :: "platform \<Rightarrow> ('crt, 'key) pki \<Rightarrow> string" where
  "FluxCertPath pf p = Join pf [certsDir p, ''flux'', ''flux.pem'']"

definition FluxKeyPath :: "platform \<Rightarrow> ('crt, 'key) pki \<Rightarrow> string" where
  "FluxKeyPath pf p = Join pf [certsDir p, ''flux'', ''flux-key.pem'']"

definition SSHPrivateKeyPath :: "platform \<Rightarrow> ('crt, 'key) pki \<Rightarrow> string" where
  "SSHPrivateKeyPath pf p = Join pf [certsDir p, ''ssh'', ''flux-agent.pem'']"

definition SSHPublicKey :: "('crt, 'key) pki \<Rightarrow> string" where
  "SSHPublicKey p = sshPublicKey p"

section \<open>The library\<close>

datatype 't creds = InsecureCredentials | TLSCredentials 't string string

text \<open>
  \<open>TLSCredentials pair ca name\<close>: the client's key pair, the CA certificates and the server name the
  client verifies.  A call carries its deadline, \<open>None\<close> for the request's own context.
\<close>

record ('t, 'c, 'w) grpc =
  LoadX509KeyPair :: "string \<Rightarrow> string \<Rightarrow> 'w \<Rightarrow> go_error + 't"
  os_ReadFile :: "string \<Rightarrow> 'w \<Rightarrow> go_error + string"
  AppendCertsFromPEM :: "string \<Rightarrow> bool"
  NewClient :: "string \<Rightarrow> 't creds \<Rightarrow> go_error + 'c"
  stub_RegisterFunction :: "'c \<Rightarrow> duration option \<Rightarrow> FunctionConfig \<Rightarrow> 'w \<Rightarrow> (go_error + Ack) \<times> 'w"
  stub_DeployFunction :: "'c \<Rightarrow> duration option \<Rightarrow> DeploymentPackage \<Rightarrow> 'w \<Rightarrow> (go_error + Ack) \<times> 'w"
  stub_ExecuteFunction ::
    "'c \<Rightarrow> duration option \<Rightarrow> ExecutionRequest \<Rightarrow> 'w \<Rightarrow> (go_error + ExecutionResponse) \<times> 'w"
  stub_CancelExecution :: "'c \<Rightarrow> duration option \<Rightarrow> string \<Rightarrow> 'w \<Rightarrow> (go_error + Ack) \<times> 'w"
  stub_GetExecution ::
    "'c \<Rightarrow> duration option \<Rightarrow> string \<Rightarrow> 'w \<Rightarrow> (go_error + GetExecutionResponse) \<times> 'w"
  stub_HealthCheck :: "'c \<Rightarrow> duration option \<Rightarrow> 'w \<Rightarrow> (go_error + unit) \<times> 'w"
  stub_ReportNodeStatus :: "'c \<Rightarrow> duration option \<Rightarrow> 'w \<Rightarrow> (go_error + NodeStatusResponse) \<times> 'w"
  Now :: "'w \<Rightarrow> time"

section \<open>The client\<close>

record ('c, 'w) client_state =
  clients :: "string \<rightharpoonup> 'c"
  net :: 'w

definition NewAgentClient :: "'w \<Rightarrow> ('c, 'w) client_state" where
  "NewAgentClient w = \<lparr>clients = Map.empty, net = w\<rparr>"

definition loadTLSCredentials ::
  "('t, 'c, 'w) grpc \<Rightarrow> platform \<Rightarrow> ('crt, 'key) pki \<Rightarrow> 'w \<Rightarrow> go_error + 't creds" where
  "loadTLSCredentials G pf p w =
     (case LoadX509KeyPair G (FluxCertPath pf p) (FluxKeyPath pf p) w of
        Inl e \<Rightarrow> Inl (''load flux cert/key: '' @ e)
      | Inr cert \<Rightarrow>
          (case os_ReadFile G (CACertPath pf p) w of
             Inl e \<Rightarrow> Inl (''read CA cert: '' @ e)
           | Inr caData \<Rightarrow>
               if \<not> AppendCertsFromPEM G caData then Inl ''failed to parse CA certificate''
               else Inr (TLSCredentials cert caData ''flux-agent'')))"

definition client_creds ::
  "('t, 'c, 'w) grpc \<Rightarrow> platform \<Rightarrow> ('crt, 'key) pki option \<Rightarrow> 'w \<Rightarrow> go_error + 't creds" where
  "client_creds G pf p w =
     (case p of
        Some q \<Rightarrow>
          (case loadTLSCredentials G pf q w of
             Inl e \<Rightarrow> Inl (''load mTLS credentials: '' @ e)
           | Inr cr \<Rightarrow> Inr cr)
      | None \<Rightarrow> Inr InsecureCredentials)"

text \<open>The second look into the map, under the write lock, is the same as the first here.\<close>

definition get_client ::
  "('t, 'c, 'w) grpc \<Rightarrow> platform \<Rightarrow> ('crt, 'key) pki option \<Rightarrow> string \<Rightarrow>
   ('c, 'w) client_state \<Rightarrow> (go_error + 'c) \<times> ('c, 'w) client_state" where
  "get_client G pf p address s =
     (case clients s address of
        Some cl \<Rightarrow> (Inr cl, s)
      | None \<Rightarrow>
          (case client_creds G pf p (net s) of
             Inl e \<Rightarrow> (Inl e, s)
           | Inr cr \<Rightarrow>
               (case NewClient G address cr of
                  Inl e \<Rightarrow> (Inl e, s)
                | Inr cl \<Rightarrow> (Inr cl, s\<lparr>clients := (clients s)(address \<mapsto> cl)\<rparr>))))"

text \<open>Every method first gets the connection; an error there is the method's error.\<close>

definition with_client ::
  "('t, 'c, 'w) grpc \<Rightarrow> platform \<Rightarrow> ('crt, 'key) pki option \<Rightarrow> string \<Rightarrow>
   ('c \<Rightarrow> 'w \<Rightarrow> (go_error + 'a) \<times> 'w) \<Rightarrow> ('c, 'w) client_state \<Rightarrow> (go_error + 'a) \<times> ('c, 'w) client_state" where
  "with_client G pf p address call s =
     (case get_client G pf p address s of
        (Inl e, s') \<Rightarrow> (Inl e, s')
      | (Inr cl, s') \<Rightarrow> (case call cl (net s') of (r, w) \<Rightarrow> (r, s'\<lparr>net := w\<rparr>)))"

definition function_config :: "func \<Rightarrow> FunctionConfig" where
  "function_config f =
     \<lparr>fc_Name = Name f, fc_Handler = Handler f, CpuMillicores = CPUMillicores f, MemoryMb = MemoryMB f,
      TimeoutSeconds = TimeoutSec f, fc_Env = Env f, fc_MaxConcurrency = MaxConcurrency f,
      fc_MaxConcurrencyBehavior = MaxConcurrencyBehavior f\<rparr>"

definition ack_error :: "string \<Rightarrow> (go_error + Ack) \<times> 's \<Rightarrow> go_error option \<times> 's" where
  "ack_error what r =
     (case r of
        (Inl e, s) \<Rightarrow> (Some e, s)
      | (Inr ack, s) \<Rightarrow> if \<not> Success ack then (Some (what @ Message ack), s) else (None, s))"

definition client_RegisterFunction ::
  "('t, 'c, 'w) grpc \<Rightarrow> platform \<Rightarrow> ('crt, 'key) pki option \<Rightarrow> agent \<Rightarrow> func \<Rightarrow>
   ('c, 'w) client_state \<Rightarrow> go_error option \<times> ('c, 'w) client_state" where
  "client_RegisterFunction G pf p a f s =
     ack_error ''registration failed: ''
       (with_client G pf p (Address a)
          (\<lambda>cl. stub_RegisterFunction G cl (Some (seconds 10)) (function_config f)) s)"

definition client_DeployFunction ::
  "('t, 'c, 'w) grpc \<Rightarrow> platform \<Rightarrow> ('crt, 'key) pki option \<Rightarrow> agent \<Rightarrow> string \<Rightarrow> bytes \<Rightarrow>
   ('c, 'w) client_state \<Rightarrow> go_error option \<times> ('c, 'w) client_state" where
  "client_DeployFunction G pf p a functionName zipData s =
     ack_error ''deployment failed: ''
       (with_client G pf p (Address a)
          (\<lambda>cl. stub_DeployFunction G cl (Some (seconds 30))
             \<lparr>FunctionName = functionName, CodeArchive = zipData\<rparr>) s)"

definition client_ExecuteFunction ::
  "('t, 'c, 'w) grpc \<Rightarrow> platform \<Rightarrow> ('crt, 'key) pki option \<Rightarrow> agent \<Rightarrow> string \<Rightarrow> string list \<Rightarrow>
   string \<Rightarrow> bool \<Rightarrow> ('c, 'w) client_state \<Rightarrow> (go_error + ExecutionResponse) \<times> ('c, 'w) client_state" where
  "client_ExecuteFunction G pf p a functionName args executionID async s =
     with_client G pf p (Address a)
       (\<lambda>cl. stub_ExecuteFunction G cl None
          \<lparr>er_Function = functionName, er_Args = args, er_Execution = executionID, er_Async = async\<rparr>) s"

definition client_CancelExecution ::
  "('t, 'c, 'w) grpc \<Rightarrow> platform \<Rightarrow> ('crt, 'key) pki option \<Rightarrow> agent \<Rightarrow> string \<Rightarrow>
   ('c, 'w) client_state \<Rightarrow> go_error option \<times> ('c, 'w) client_state" where
  "client_CancelExecution G pf p a executionID s =
     ack_error ''cancel failed: ''
       (with_client G pf p (Address a)
          (\<lambda>cl. stub_CancelExecution G cl (Some (seconds 5)) executionID) s)"

definition client_GetExecution ::
  "('t, 'c, 'w) grpc \<Rightarrow> platform \<Rightarrow> ('crt, 'key) pki option \<Rightarrow> agent \<Rightarrow> string \<Rightarrow>
   ('c, 'w) client_state \<Rightarrow> (go_error + execution_record option) \<times> ('c, 'w) client_state" where
  "client_GetExecution G pf p a executionID s =
     (case with_client G pf p (Address a)
             (\<lambda>cl. stub_GetExecution G cl (Some (seconds 5)) executionID) s of
        (Inl e, s') \<Rightarrow> (Inl e, s')
      | (Inr resp, s') \<Rightarrow>
          if \<not> Found resp then (Inr None, s')
          else (case parse_json unmarshal_execution_record (Data resp) of
                  None \<Rightarrow> (Inl ''decode execution record: '', s')
                | Some r \<Rightarrow> (Inr (Some r), s')))"

definition client_HealthCheck ::
  "('t, 'c, 'w) grpc \<Rightarrow> platform \<Rightarrow> ('crt, 'key) pki option \<Rightarrow> agent \<Rightarrow>
   ('c, 'w) client_state \<Rightarrow> go_error option \<times> ('c, 'w) client_state" where
  "client_HealthCheck G pf p a s =
     (case with_client G pf p (Address a) (\<lambda>cl. stub_HealthCheck G cl (Some (seconds 3))) s of
        (Inl e, s') \<Rightarrow> (Some e, s')
      | (Inr _, s') \<Rightarrow> (None, s'))"

definition client_GetNodeStatus ::
  "('t, 'c, 'w) grpc \<Rightarrow> platform \<Rightarrow> ('crt, 'key) pki option \<Rightarrow> agent \<Rightarrow>
   ('c, 'w) client_state \<Rightarrow> (go_error + node_status) \<times> ('c, 'w) client_state" where
  "client_GetNodeStatus G pf p a s =
     (case with_client G pf p (Address a) (\<lambda>cl. stub_ReportNodeStatus G cl (Some (seconds 5))) s of
        (Inl e, s') \<Rightarrow> (Inl e, s')
      | (Inr resp, s') \<Rightarrow>
          (Inr \<lparr>ns_AgentID = AgentId resp, CPUPercent = CpuPercent resp,
                MemPercent = MemoryPercent resp, MemTotalMB = MemoryTotalMb resp,
                MemUsedMB = MemoryUsedMb resp, ActiveTasks = rs_ActiveTasks resp,
                UptimeSec = UptimeSeconds resp, CollectedAt = Now G (net s')\<rparr>, s'))"

section \<open>The method table\<close>

record 'v agent_client =
  RegisterFunctionOn :: "agent \<Rightarrow> func \<Rightarrow> 'v \<Rightarrow> go_error option \<times> 'v"
  DeployFunctionOn :: "agent \<Rightarrow> string \<Rightarrow> bytes \<Rightarrow> 'v \<Rightarrow> go_error option \<times> 'v"
  ExecuteFunctionOn ::
    "agent \<Rightarrow> string \<Rightarrow> string list \<Rightarrow> string \<Rightarrow> bool \<Rightarrow> 'v \<Rightarrow> (go_error + ExecutionResponse) \<times> 'v"
  CancelExecutionOn :: "agent \<Rightarrow> string \<Rightarrow> 'v \<Rightarrow> go_error option \<times> 'v"
  GetExecutionOn :: "agent \<Rightarrow> string \<Rightarrow> 'v \<Rightarrow> (go_error + execution_record option) \<times> 'v"
  HealthCheckOn :: "agent \<Rightarrow> 'v \<Rightarrow> go_error option \<times> 'v"
  GetNodeStatusOf :: "agent \<Rightarrow> 'v \<Rightarrow> (go_error + node_status) \<times> 'v"

definition AgentClient ::
  "('t, 'c, 'w) grpc \<Rightarrow> platform \<Rightarrow> ('crt, 'key) pki option \<Rightarrow> ('c, 'w) client_state agent_client" where
  "AgentClient G pf p =
     \<lparr>RegisterFunctionOn = client_RegisterFunction G pf p,
      DeployFunctionOn = client_DeployFunction G pf p,
      ExecuteFunctionOn = client_ExecuteFunction G pf p,
      CancelExecutionOn = client_CancelExecution G pf p,
      GetExecutionOn = client_GetExecution G pf p,
      HealthCheckOn = client_HealthCheck G pf p,
      GetNodeStatusOf = client_GetNodeStatus G pf p\<rparr>"

section \<open>Calls are by address\<close>

text \<open>
  What the callers rely on when they probe an address with a record that holds nothing else: the
  answer depends on the agent's address only.
\<close>

locale addressed_client =
  fixes C :: "'v agent_client"
  assumes status_by_address: "Address a = Address b \<Longrightarrow> GetNodeStatusOf C a v = GetNodeStatusOf C b v"
    and health_by_address: "Address a = Address b \<Longrightarrow> HealthCheckOn C a v = HealthCheckOn C b v"
begin

lemma probe_status: "GetNodeStatusOf C (a\<lparr>Address := addr\<rparr>) v = GetNodeStatusOf C (b\<lparr>Address := addr\<rparr>) v"
  by (rule status_by_address) simp

end

interpretation grpc_client: addressed_client "AgentClient G pf p" for G pf p
  by unfold_locales (simp_all add: AgentClient_def client_GetNodeStatus_def client_HealthCheck_def)

section \<open>The connection cache\<close>

inductive client_step ::
  "('t, 'c, 'w) grpc \<Rightarrow> platform \<Rightarrow> ('crt, 'key) pki option \<Rightarrow>
   ('c, 'w) client_state \<Rightarrow> ('c, 'w) client_state \<Rightarrow> bool" for G pf p where
  register: "client_step G pf p s (snd (client_RegisterFunction G pf p a f s))"
| deploy: "client_step G pf p s (snd (client_DeployFunction G pf p a n b s))"
| exec: "client_step G pf p s (snd (client_ExecuteFunction G pf p a n args x async s))"
| cancel: "client_step G pf p s (snd (client_CancelExecution G pf p a x s))"
| get_execution: "client_step G pf p s (snd (client_GetExecution G pf p a x s))"
| health: "client_step G pf p s (snd (client_HealthCheck G pf p a s))"
| status: "client_step G pf p s (snd (client_GetNodeStatus G pf p a s))"

text \<open>
  The credentials a client with this PKI may dial with when the world is \<open>v\<close>: the key pair and the
  CA certificate are the ones in the files of the certificate directory.
\<close>

fun allowed_creds ::
  "('t, 'c, 'w) grpc \<Rightarrow> platform \<Rightarrow> ('crt, 'key) pki option \<Rightarrow> 'w \<Rightarrow> 't creds \<Rightarrow> bool" where
  "allowed_creds G pf None v cr = (cr = InsecureCredentials)"
| "allowed_creds G pf (Some q) v (TLSCredentials cert ca name) =
     (LoadX509KeyPair G (Join pf [certsDir q, ''flux'', ''flux.pem''])
        (Join pf [certsDir q, ''flux'', ''flux-key.pem'']) v = Inr cert \<and>
      os_ReadFile G (Join pf [certsDir q, ''ca'', ''ca.pem'']) v = Inr ca \<and>
      AppendCertsFromPEM G ca \<and> name = ''flux-agent'')"
| "allowed_creds G pf (Some q) v InsecureCredentials = False"

text \<open>Every cached connection was dialled with credentials allowed in one of the worlds \<open>W\<close>.\<close>

definition dialled ::
  "('t, 'c, 'w) grpc \<Rightarrow> platform \<Rightarrow> ('crt, 'key) pki option \<Rightarrow> 'w set \<Rightarrow> ('c, 'w) client_state \<Rightarrow> bool" where
  "dialled G pf p W s \<longleftrightarrow>
     (\<forall>addr cl. clients s addr = Some cl \<longrightarrow>
        (\<exists>v cr. v \<in> W \<and> allowed_creds G pf p v cr \<and> NewClient G addr cr = Inr cl))"

lemma dialled_mono: "dialled G pf p W s \<Longrightarrow> W \<subseteq> W' \<Longrightarrow> dialled G pf p W' s"
  unfolding dialled_def by blast

lemma creds_allowed: "client_creds G pf p v = Inr cr \<Longrightarrow> allowed_creds G pf p v cr"
  by (cases p) (auto simp: client_creds_def loadTLSCredentials_def FluxCertPath_def FluxKeyPath_def
      CACertPath_def split: sum.splits if_splits)

lemma get_client_cache:
  assumes "dialled G pf p W s" and "net s \<in> W" and "get_client G pf p addr s = (r, s')"
  shows "dialled G pf p W s' \<and> clients s \<subseteq>\<^sub>m clients s'"
proof (cases "clients s' = clients s")
  case True
  then show ?thesis using assms(1) by (simp add: dialled_def)
next
  case False
  then obtain cr cl where cr: "client_creds G pf p (net s) = Inr cr" "NewClient G addr cr = Inr cl"
    and new: "clients s addr = None" "clients s' = (clients s)(addr \<mapsto> cl)"
    using assms(3) by (auto simp: get_client_def split: option.splits sum.splits; metis)
  have "dialled G pf p W s'"
    using assms(1,2) creds_allowed [OF cr(1)] cr(2) new(2) by (auto simp: dialled_def)
  then show ?thesis using new by (simp add: map_le_def dom_def)
qed

lemma with_client_cache:
  assumes "dialled G pf p W s" and "net s \<in> W" and "with_client G pf p addr call s = (r, s')"
  shows "dialled G pf p W s' \<and> clients s \<subseteq>\<^sub>m clients s'"
proof -
  obtain c s1 where g: "get_client G pf p addr s = (c, s1)" by fastforce
  have "clients s' = clients s1"
    using assms(3) g by (auto simp: with_client_def split: sum.splits prod.splits)
  then show ?thesis using get_client_cache [OF assms(1,2) g] by (simp add: dialled_def)
qed

lemma ack_error_state [simp]: "snd (ack_error what r) = snd r"
  by (auto simp: ack_error_def split: sum.splits prod.splits)

lemma client_calls_state:
  "snd (client_RegisterFunction G pf p a f s) = snd (with_client G pf p (Address a)
     (\<lambda>cl. stub_RegisterFunction G cl (Some (seconds 10)) (function_config f)) s)"
  "snd (client_DeployFunction G pf p a n b s) = snd (with_client G pf p (Address a)
     (\<lambda>cl. stub_DeployFunction G cl (Some (seconds 30)) \<lparr>FunctionName = n, CodeArchive = b\<rparr>) s)"
  "snd (client_CancelExecution G pf p a x s) = snd (with_client G pf p (Address a)
     (\<lambda>cl. stub_CancelExecution G cl (Some (seconds 5)) x) s)"
  "snd (client_GetExecution G pf p a x s) = snd (with_client G pf p (Address a)
     (\<lambda>cl. stub_GetExecution G cl (Some (seconds 5)) x) s)"
  "snd (client_HealthCheck G pf p a s) = snd (with_client G pf p (Address a)
     (\<lambda>cl. stub_HealthCheck G cl (Some (seconds 3))) s)"
  "snd (client_GetNodeStatus G pf p a s) = snd (with_client G pf p (Address a)
     (\<lambda>cl. stub_ReportNodeStatus G cl (Some (seconds 5))) s)"
  by (auto simp: client_RegisterFunction_def client_DeployFunction_def client_CancelExecution_def
      client_GetExecution_def client_HealthCheck_def client_GetNodeStatus_def
      split: sum.splits prod.splits option.splits)

lemma client_step_cache:
  "client_step G pf p s s' \<Longrightarrow> dialled G pf p W s \<Longrightarrow> net s \<in> W \<Longrightarrow>
     dialled G pf p W s' \<and> clients s \<subseteq>\<^sub>m clients s'"
  by (induction rule: client_step.induct)
    (simp_all add: client_calls_state client_ExecuteFunction_def,
      (rule with_client_cache, assumption, assumption, rule prod.collapse [symmetric])+)

text \<open>The worlds of the states on the way from \<open>s0\<close> to \<open>s\<close>.\<close>

definition worlds_between ::
  "('t, 'c, 'w) grpc \<Rightarrow> platform \<Rightarrow> ('crt, 'key) pki option \<Rightarrow> ('c, 'w) client_state \<Rightarrow>
   ('c, 'w) client_state \<Rightarrow> 'w set" where
  "worlds_between G pf p s0 s = {net s1 | s1. (client_step G pf p)\<^sup>*\<^sup>* s0 s1 \<and> (client_step G pf p)\<^sup>*\<^sup>* s1 s}"

lemma client_run_dialled:
  "(client_step G pf p)\<^sup>*\<^sup>* s0 s \<Longrightarrow> clients s0 = Map.empty \<Longrightarrow> dialled G pf p (worlds_between G pf p s0 s) s"
proof (induction rule: rtranclp_induct)
  case base
  then show ?case by (simp add: dialled_def)
next
  case (step s s')
  have "worlds_between G pf p s0 s \<subseteq> worlds_between G pf p s0 s'"
    unfolding worlds_between_def using step.hyps(2) by (auto intro: rtranclp.rtrancl_into_rtrancl)
  moreover have "net s \<in> worlds_between G pf p s0 s'"
    unfolding worlds_between_def using step.hyps by blast
  ultimately show ?case using client_step_cache [OF step.hyps(2)] dialled_mono step.IH step.prems by blast
qed

lemma client_run_cache:
  assumes "(client_step G pf p)\<^sup>*\<^sup>* s s'" and "dialled G pf p UNIV s"
  shows "dialled G pf p UNIV s' \<and> clients s \<subseteq>\<^sub>m clients s'"
  using assms by (induction rule: rtranclp_induct) (blast dest: client_step_cache intro: map_le_trans map_le_refl)+

section \<open>Properties\<close>

text \<open>
  C36. Whatever calls a client makes after it is created, each connection in its cache was dialled
  at the address it is stored under with the configured credentials: plaintext without a PKI, and
  with one mutual TLS with the key pair and the CA certificate that the three files of the PKI's
  directory held at some moment of the client's life, verifying the name flux-agent.  A cached
  connection is never replaced.
\<close>

theorem client_connections:
  assumes "(client_step G pf p)\<^sup>*\<^sup>* (NewAgentClient w) s" and "(client_step G pf p)\<^sup>*\<^sup>* s s'"
  shows "(\<forall>addr cl. clients s addr = Some cl \<longrightarrow>
      (\<exists>s1 cr. (client_step G pf p)\<^sup>*\<^sup>* (NewAgentClient w) s1 \<and> (client_step G pf p)\<^sup>*\<^sup>* s1 s \<and>
         allowed_creds G pf p (net s1) cr \<and> NewClient G addr cr = Inr cl)) \<and>
    clients s \<subseteq>\<^sub>m clients s'"
proof -
  have start: "dialled G pf p (worlds_between G pf p (NewAgentClient w) s) s"
    using client_run_dialled [OF assms(1)] by (simp add: NewAgentClient_def)
  then have "clients s \<subseteq>\<^sub>m clients s'" using client_run_cache [OF assms(2)] dialled_mono by blast
  with start show ?thesis unfolding dialled_def worlds_between_def by blast
qed

text \<open>A network on which every agent answers with the same report, as an instance of the library.\<close>

definition echo_report :: "string \<Rightarrow> NodeStatusResponse" where
  "echo_report addr =
     \<lparr>AgentId = addr, CpuPercent = Fin 10, MemoryPercent = Fin 20, MemoryTotalMb = 8192,
      MemoryUsedMb = 1024, rs_ActiveTasks = 0, MaxTasks = 8, UptimeSeconds = 60\<rparr>"

definition echo_grpc :: "(unit, string, 'w) grpc" where
  "echo_grpc =
     \<lparr>LoadX509KeyPair = (\<lambda>_ _ _. Inr ()), os_ReadFile = (\<lambda>_ _. Inr ''pem''), AppendCertsFromPEM = (\<lambda>_. True),
      NewClient = (\<lambda>addr _. Inr addr),
      stub_RegisterFunction = (\<lambda>_ _ _ w. (Inr \<lparr>Success = True, Message = []\<rparr>, w)),
      stub_DeployFunction = (\<lambda>_ _ _ w. (Inr \<lparr>Success = True, Message = []\<rparr>, w)),
      stub_ExecuteFunction = (\<lambda>_ _ _ w. (Inr \<lparr>Output = ''ok'', Error = [], DurationMs = 1\<rparr>, w)),
      stub_CancelExecution = (\<lambda>_ _ _ w. (Inr \<lparr>Success = True, Message = []\<rparr>, w)),
      stub_GetExecution = (\<lambda>_ _ _ w. (Inr \<lparr>Found = False, Data = RawBytes []\<rparr>, w)),
      stub_HealthCheck = (\<lambda>_ _ w. (Inr (), w)),
      stub_ReportNodeStatus = (\<lambda>addr _ w. (Inr (echo_report addr), w)),
      Now = (\<lambda>_. 0)\<rparr>"

definition sample_pki :: "(unit, unit) pki" where
  "sample_pki = \<lparr>certsDir = ''/etc/flux/certs'', caCert = Some (), caKey = Some (), sshPublicKey = ''ssh''\<rparr>"

theorem client_connections_witness:
  "\<exists>(v :: unit) cr. allowed_creds echo_grpc linux (Some sample_pki) v cr \<and>
     NewClient (echo_grpc :: (unit, string, unit) grpc) ''10.0.0.1:50052'' cr = Inr ''10.0.0.1:50052''"
proof -
  let ?s = "snd (client_GetNodeStatus echo_grpc linux (Some sample_pki) sample_agent (NewAgentClient ()))"
  have step: "(client_step echo_grpc linux (Some sample_pki))\<^sup>*\<^sup>* (NewAgentClient ()) ?s"
    by (rule r_into_rtranclp, rule client_step.status)
  have "clients ?s ''10.0.0.1:50052'' = Some ''10.0.0.1:50052''"
    by (simp add: client_calls_state with_client_def get_client_def NewAgentClient_def echo_grpc_def
        client_creds_def loadTLSCredentials_def sample_agent_def)
  then show ?thesis using client_connections [OF step rtranclp.rtrancl_refl] by blast
qed

end
