(* ===== verification/Autoscaler.thy ===== *)
theory Autoscaler imports Registry_Runs Cloud_Provider Agent_Client begin

text \<open>
  \<open>pkg/resource/scaler.go\<close>: the autoscaler of one provider.  The fields that never change after
  \<open>newAutoscaler\<close> are \<open>scaler_env\<close>; the pressure history and the two cooldown stamps are the
  record \<open>autoscaler\<close>; the registry's store and the outside world (agents, cloud) complete the
  state.  Goroutines an operation starts are appended to \<open>jobs\<close> and run later as steps of their
  own.  Every reading of the clock is an argument.
\<close>

section \<open>State\<close>

datatype ScaleDirection = ScaleDirectionUp | ScaleDirectionNeutral | ScaleDirectionDown

record pressureSample =
  cpuPercent :: f64
  memPercent :: f64
  sampled_at :: time

record autoscaler =
  pressureHistory :: "string \<rightharpoonup> pressureSample list"
  lastScaleUp :: time
  lastScaleDown :: time

record ('m, 'w) scaler_env =
  registry :: "'m memory"
  agentClient :: "'w agent_client"
  provider :: "'w cloud_provider"
  cfg :: AutoscaleConfig
  agentPort :: int

text \<open>The background work of the component, as the source's three \<open>go\<close> statements start it.\<close>

datatype scale_job =
    DrainJob string string string
  | ReplaceJob string string string NodeResources
  | BootstrapJob ProvisionedNode

record ('m, 'w) scale_state =
  scaler :: autoscaler
  store :: 'm
  world :: 'w
  jobs :: "scale_job list"

definition newAutoscaler :: "AutoscaleConfig option \<Rightarrow> autoscaler option" where
  "newAutoscaler c =
     (case c of
        None \<Rightarrow> None
      | Some a \<Rightarrow>
          if \<not> Enabled a then None
          else Some \<lparr>pressureHistory = Map.empty, lastScaleUp = zero_time, lastScaleDown = zero_time\<rparr>)"

text \<open>\<open>time.NewTicker\<close> panics on a duration that is not positive.\<close>

definition NewTicker :: "duration \<Rightarrow> duration go_result" where
  "NewTicker d = (if d \<le> 0 then Panic ''non-positive interval for NewTicker'' else Ret d)"

definition poll_ticker :: "AutoscaleConfig \<Rightarrow> duration go_result" where
  "poll_ticker c = NewTicker (seconds (PollIntervalSec c))"

section \<open>Decimal numbers and addresses\<close>

function dec_digits :: "int \<Rightarrow> string" where
  "dec_digits n =
     (if n < 10 then [''0123456789'' ! nat n] else dec_digits (n div 10) @ [''0123456789'' ! nat (n mod 10)])"
  by pat_completeness auto
termination
  by (relation "measure nat") auto

declare dec_digits.simps [simp del]

definition int_digits :: "int \<Rightarrow> string" where
  "int_digits z = (if z < 0 then CHR ''-'' # dec_digits (- z) else dec_digits z)"

definition host_port :: "string \<Rightarrow> int \<Rightarrow> string" where
  "host_port ip port = ip @ '':'' @ int_digits port"

section \<open>Pressure\<close>

definition push_history ::
  "AutoscaleConfig \<Rightarrow> time \<Rightarrow> string \<Rightarrow> node_status \<Rightarrow> autoscaler \<Rightarrow> autoscaler" where
  "push_history c now i status a =
     (let window = seconds (EvaluationWindowSec c);
          old = (case pressureHistory a i of None \<Rightarrow> [] | Some h \<Rightarrow> h);
          history = old @ [\<lparr>cpuPercent = CPUPercent status, memPercent = MemPercent status, sampled_at = now\<rparr>];
          trimmed = filter (\<lambda>s. time_sub now (sampled_at s) \<le> window) history
      in a\<lparr>pressureHistory := (pressureHistory a)(i \<mapsto> trimmed)\<rparr>)"

text \<open>One iteration of the loop over the agents in \<open>poll\<close>.\<close>

definition poll_agent ::
  "('m, 'w) scaler_env \<Rightarrow> time \<Rightarrow> agent \<Rightarrow> ('m, 'w) scale_state \<Rightarrow> ('m, 'w) scale_state" where
  "poll_agent E now ag s =
     (if Status ag = AgentDraining then s
      else
        (case GetNodeStatusOf (agentClient E) ag (world s) of
           (Inl e, w) \<Rightarrow> s\<lparr>world := w, store := SetOffline (registry E) (ID ag) (store s)\<rparr>
         | (Inr status, w) \<Rightarrow>
             let s1 = s\<lparr>world := w, store := UpdateNodeStatus (registry E) (ID ag) status (store s)\<rparr>
             in if Provider ag \<noteq> cp_Name (provider E) then s1
                else s1\<lparr>scaler := push_history (cfg E) now (ID ag) status (scaler s1)\<rparr>))"

definition sample_high :: "AutoscaleConfig \<Rightarrow> pressureSample \<Rightarrow> bool" where
  "sample_high c s \<longleftrightarrow>
     \<not> (flt (cpuPercent s) (CPUUpperThreshold c) \<and> flt (memPercent s) (MemUpperThreshold c))"

definition sample_low :: "AutoscaleConfig \<Rightarrow> pressureSample \<Rightarrow> bool" where
  "sample_low c s \<longleftrightarrow>
     \<not> (flt (CPULowerThreshold c) (cpuPercent s) \<or> flt (MemLowerThreshold c) (memPercent s))"

fun scale_loop ::
  "AutoscaleConfig \<Rightarrow> (string \<rightharpoonup> pressureSample list) \<Rightarrow> time \<Rightarrow> agent list \<Rightarrow> bool \<Rightarrow> bool \<Rightarrow>
   ScaleDirection" where
  "scale_loop c hist now [] allHigh allLow =
     (if allHigh then ScaleDirectionUp
      else if allLow then ScaleDirectionDown
      else ScaleDirectionNeutral)"
| "scale_loop c hist now (ag # ags) allHigh allLow =
     (case hist (ID ag) of
        None \<Rightarrow> ScaleDirectionNeutral
      | Some [] \<Rightarrow> ScaleDirectionNeutral
      | Some (s # ss) \<Rightarrow>
          if time_sub now (sampled_at s) < seconds (EvaluationWindowSec c) then ScaleDirectionNeutral
          else
            let agentHigh = list_all (sample_high c) (s # ss);
                agentLow = list_all (sample_low c) (s # ss)
            in scale_loop c hist now ags
                 (if \<not> agentHigh then False else allHigh) (if \<not> agentLow then False else allLow))"

definition scaled_agents :: "('m, 'w) scaler_env \<Rightarrow> 'm \<Rightarrow> agent list" where
  "scaled_agents E m =
     filter (\<lambda>ag. Provider ag = cp_Name (provider E)) (GetOnlineAgents (registry E) m)"

definition shouldScale :: "('m, 'w) scaler_env \<Rightarrow> time \<Rightarrow> ('m, 'w) scale_state \<Rightarrow> ScaleDirection" where
  "shouldScale E now s =
     (let agents = scaled_agents E (store s)
      in if length agents = 0 then ScaleDirectionNeutral
         else scale_loop (cfg E) (pressureHistory (scaler s)) now agents True True)"

definition managedAgents :: "('m, 'w) scaler_env \<Rightarrow> 'm \<Rightarrow> agent list" where
  "managedAgents E m =
     filter (\<lambda>ag. Provider ag = cp_Name (provider E)) (reg_GetAllAgents (registry E) m)"

text \<open>What \<open>logPressureSummary\<close> prints: the average over the agents with a history, and their number.\<close>

fun sum_pressure :: "(string \<rightharpoonup> pressureSample list) \<Rightarrow> agent list \<Rightarrow> f64 \<Rightarrow> int \<Rightarrow> f64 \<times> int" where
  "sum_pressure hist [] pressure counted = (pressure, counted)"
| "sum_pressure hist (ag # ags) pressure counted =
     (case hist (ID ag) of
        Some (s # ss) \<Rightarrow>
          let l = last (s # ss)
          in sum_pressure hist ags (fadd pressure (fadd (cpuPercent l) (memPercent l))) (counted + 1)
      | _ \<Rightarrow> sum_pressure hist ags pressure counted)"

definition logPressureSummary :: "('m, 'w) scaler_env \<Rightarrow> ('m, 'w) scale_state \<Rightarrow> f64 \<times> nat" where
  "logPressureSummary E s =
     (let agents = GetOnlineAgents (registry E) (store s);
          (pressure, counted) = sum_pressure (pressureHistory (scaler s)) agents (Fin 0) 0
      in (if 0 < counted then fdiv pressure (f64_of_int counted) else pressure, length agents))"

section \<open>Scaling\<close>

definition clear_history :: "autoscaler \<Rightarrow> autoscaler" where
  "clear_history a = a\<lparr>pressureHistory := Map.empty\<rparr>"

definition spawnNode ::
  "('m, 'w) scaler_env \<Rightarrow> time \<Rightarrow> NodeResources \<Rightarrow> ('m, 'w) scale_state \<Rightarrow> ('m, 'w) scale_state" where
  "spawnNode E now resources s =
     (case SpawnNode (provider E) resources (world s) of
        (Inl e, w) \<Rightarrow> s\<lparr>world := w\<rparr>
      | (Inr node, w) \<Rightarrow>
          let agentAddr = host_port (PublicIP node) (agentPort E)
          in s\<lparr>world := w,
               store := RegisterOfflineAgent (registry E) now (pn_AgentID node) agentAddr
                          (pn_ProviderID node) (pn_InstanceType node) (cp_Name (provider E)) (store s),
               jobs := jobs s @ [BootstrapJob node],
               scaler := clear_history (scaler s)\<rparr>)"

fun first_replaceable :: "string \<Rightarrow> agent list \<Rightarrow> agent option" where
  "first_replaceable maxType [] = None"
| "first_replaceable maxType (ag # ags) =
     (if InstanceType ag \<noteq> maxType \<and> ActiveCount ag = 0 then Some ag
      else first_replaceable maxType ags)"

text \<open>\<open>since\<close> is the clock at the cooldown test, \<open>stamp\<close> the one stored and used from there on.\<close>

definition tryScaleUp ::
  "('m, 'w) scaler_env \<Rightarrow> time \<Rightarrow> time \<Rightarrow> ('m, 'w) scale_state \<Rightarrow> ('m, 'w) scale_state" where
  "tryScaleUp E since stamp s =
     (let cooldown = seconds (CooldownSec (cfg E))
      in if time_sub since (lastScaleUp (scaler s)) < cooldown then s
         else
           let managed = managedAgents E (store s)
           in if int (length managed) < MaxNodes (cfg E) then
                spawnNode E stamp (smallestNodeResources (NodeTypes (cfg E)))
                  (s\<lparr>scaler := (scaler s)\<lparr>lastScaleUp := stamp\<rparr>\<rparr>)
              else
                let maxType = largestInstanceType (NodeTypes (cfg E));
                    maxRes = largestNodeResources (NodeTypes (cfg E))
                in case first_replaceable maxType managed of
                     None \<Rightarrow> s
                   | Some candidate \<Rightarrow>
                       s\<lparr>scaler := (scaler s)\<lparr>lastScaleUp := stamp\<rparr>,
                         store := SetDraining (registry E) (ID candidate) (store s),
                         jobs := jobs s @
                           [ReplaceJob (ID candidate) (Address candidate) (ProviderID candidate) maxRes]\<rparr>)"

fun pick_target :: "agent list \<Rightarrow> agent option \<Rightarrow> agent option" where
  "pick_target [] target = target"
| "pick_target (ag # ags) target =
     (if 0 <s ActiveCount ag \<or> Status ag = AgentDraining then pick_target ags target
      else
        pick_target ags
          (case target of
             None \<Rightarrow> Some ag
           | Some t \<Rightarrow> if flt (Pressure ag) (Pressure t) then Some ag else Some t))"

definition scaleDown ::
  "('m, 'w) scaler_env \<Rightarrow> time \<Rightarrow> time \<Rightarrow> ('m, 'w) scale_state \<Rightarrow> ('m, 'w) scale_state" where
  "scaleDown E since stamp s =
     (let cooldown = seconds (CooldownSec (cfg E))
      in if time_sub since (lastScaleDown (scaler s)) < cooldown then s
         else
           let managed = managedAgents E (store s)
           in if int (length managed) \<le> MinNodes (cfg E) then s
              else case pick_target managed None of
                     None \<Rightarrow> s
                   | Some target \<Rightarrow>
                       s\<lparr>scaler := clear_history ((scaler s)\<lparr>lastScaleDown := stamp\<rparr>),
                         store := SetDraining (registry E) (ID target) (store s),
                         jobs := jobs s @ [DrainJob (ID target) (Address target) (ProviderID target)]\<rparr>)"

definition checkAndTriggerScale ::
  "('m, 'w) scaler_env \<Rightarrow> time \<Rightarrow> time \<Rightarrow> time \<Rightarrow> ('m, 'w) scale_state \<Rightarrow> ('m, 'w) scale_state" where
  "checkAndTriggerScale E eval since stamp s =
     (case shouldScale E eval s of
        ScaleDirectionNeutral \<Rightarrow> s
      | ScaleDirectionUp \<Rightarrow> tryScaleUp E since stamp s
      | ScaleDirectionDown \<Rightarrow> scaleDown E since stamp s)"

definition poll ::
  "('m, 'w) scaler_env \<Rightarrow> time \<Rightarrow> time \<Rightarrow> time \<Rightarrow> time \<Rightarrow> ('m, 'w) scale_state \<Rightarrow> ('m, 'w) scale_state" where
  "poll E now eval since stamp s =
     checkAndTriggerScale E eval since stamp
       (fold (poll_agent E now) (reg_GetAllAgents (registry E) (store s)) s)"

section \<open>Background jobs\<close>

text \<open>
  The \<open>select\<close> of the drain loop takes one of three branches: the parent context is cancelled, the
  five minutes are over, or the five-second ticker fires.  The ticker can fire at most sixty times
  before the deadline.
\<close>

datatype drain_event = ParentCanceled | DeadlineExceeded | DrainTick

datatype drain_outcome = Aborted | TimedOut | Drained

definition probe_agent :: "string \<Rightarrow> agent" where
  "probe_agent addr =
     \<lparr>ID = [], Address = addr, ActiveCount = 0, LastHeartbeat = zero_time, Status = AgentOnline,
      ProviderID = [], InstanceType = [], Provider = [], NodeStatus = None\<rparr>"

text \<open>\<open>None\<close>: the events ran out and the loop still waits.\<close>

fun drain_loop :: "'w agent_client \<Rightarrow> agent \<Rightarrow> drain_event list \<Rightarrow> 'w \<Rightarrow> drain_outcome option \<times> 'w" where
  "drain_loop C probe [] w = (None, w)"
| "drain_loop C probe (ParentCanceled # es) w = (Some Aborted, w)"
| "drain_loop C probe (DeadlineExceeded # es) w = (Some TimedOut, w)"
| "drain_loop C probe (DrainTick # es) w =
     (case GetNodeStatusOf C probe w of
        (Inl e, w') \<Rightarrow> drain_loop C probe es w'
      | (Inr status, w') \<Rightarrow>
          if ActiveTasks status = 0 then (Some Drained, w') else drain_loop C probe es w')"

definition drainAndTerminate ::
  "('m, 'w) scaler_env \<Rightarrow> drain_event list \<Rightarrow> string \<Rightarrow> string \<Rightarrow> string \<Rightarrow>
   ('m, 'w) scale_state \<Rightarrow> ('m, 'w) scale_state option" where
  "drainAndTerminate E es i addr pid s =
     (case drain_loop (agentClient E) (probe_agent addr) es (world s) of
        (None, w) \<Rightarrow> None
      | (Some Aborted, w) \<Rightarrow> Some (s\<lparr>world := w\<rparr>)
      | (Some _, w) \<Rightarrow>
          Some (s\<lparr>store := DeregisterAgent (registry E) i (store s),
                  world := snd (TerminateNode (provider E) pid w)\<rparr>))"

definition finishBootstrap ::
  "('m, 'w) scaler_env \<Rightarrow> ProvisionedNode \<Rightarrow> ('m, 'w) scale_state \<Rightarrow> ('m, 'w) scale_state" where
  "finishBootstrap E node s =
     (case Bootstrap (provider E) node (world s) of
        (None, w) \<Rightarrow> s\<lparr>world := w\<rparr>
      | (Some e, w) \<Rightarrow>
          s\<lparr>store := DeregisterAgent (registry E) (pn_AgentID node) (store s),
            world := snd (TerminateNode (provider E) (pn_ProviderID node) w)\<rparr>)"

fun run_job ::
  "('m, 'w) scaler_env \<Rightarrow> drain_event list \<Rightarrow> time \<Rightarrow> scale_job \<Rightarrow> ('m, 'w) scale_state \<Rightarrow>
   ('m, 'w) scale_state option" where
  "run_job E es now (DrainJob i addr pid) s = drainAndTerminate E es i addr pid s"
| "run_job E es now (ReplaceJob i addr pid res) s =
     map_option (spawnNode E now res) (drainAndTerminate E es i addr pid s)"
| "run_job E es now (BootstrapJob node) s = Some (finishBootstrap E node s)"

end
