(* ===== verification/Autoscaler_Safety.thy ===== *)
theory Autoscaler_Safety imports Autoscaler begin

text \<open>
  What the autoscaler of \<open>Autoscaler\<close> guarantees and where it does not: when it decides to scale,
  which nodes it touches, the bounds on the fleet, the cooldowns, the end of a drain.
\<close>

section \<open>The decision\<close>

definition spans :: "AutoscaleConfig \<Rightarrow> (string \<rightharpoonup> pressureSample list) \<Rightarrow> time \<Rightarrow> agent \<Rightarrow> bool" where
  "spans c hist now ag \<longleftrightarrow>
     (\<exists>s ss. hist (ID ag) = Some (s # ss) \<and> seconds (EvaluationWindowSec c) \<le> time_sub now (sampled_at s))"

definition all_samples :: "(pressureSample \<Rightarrow> bool) \<Rightarrow> (string \<rightharpoonup> pressureSample list) \<Rightarrow> agent \<Rightarrow> bool" where
  "all_samples P hist ag \<longleftrightarrow> (\<forall>h. hist (ID ag) = Some h \<longrightarrow> list_all P h)"

lemma scale_loop_eq:
  "scale_loop c hist now ags high low =
     (if \<exists>ag \<in> set ags. \<not> spans c hist now ag then ScaleDirectionNeutral
      else if high \<and> (\<forall>ag \<in> set ags. all_samples (sample_high c) hist ag) then ScaleDirectionUp
      else if low \<and> (\<forall>ag \<in> set ags. all_samples (sample_low c) hist ag) then ScaleDirectionDown
      else ScaleDirectionNeutral)"
proof (induction ags arbitrary: high low)
  case (Cons ag ags)
  show ?case
  proof (cases "spans c hist now ag")
    case True
    then obtain s ss where h: "hist (ID ag) = Some (s # ss)"
      "seconds (EvaluationWindowSec c) \<le> time_sub now (sampled_at s)" by (auto simp: spans_def)
    have step: "scale_loop c hist now (ag # ags) high low =
        scale_loop c hist now ags (high \<and> all_samples (sample_high c) hist ag)
          (low \<and> all_samples (sample_low c) hist ag)"
      using h by (auto simp: all_samples_def Let_def)
    show ?thesis unfolding step Cons.IH using True by (simp only: list.set ball_simps bex_simps) auto
  next
    case False
    then have "scale_loop c hist now (ag # ags) high low = ScaleDirectionNeutral"
      by (auto simp: spans_def split: option.splits list.splits)
    then show ?thesis using False by simp
  qed
qed simp

lemma shouldScale_eq:
  "shouldScale E now s =
     (let ags = scaled_agents E (store s); hist = pressureHistory (scaler s); c = cfg E
      in if ags = [] \<or> (\<exists>ag \<in> set ags. \<not> spans c hist now ag) then ScaleDirectionNeutral
         else if \<forall>ag \<in> set ags. all_samples (sample_high c) hist ag then ScaleDirectionUp
         else if \<forall>ag \<in> set ags. all_samples (sample_low c) hist ag then ScaleDirectionDown
         else ScaleDirectionNeutral)"
  by (simp add: shouldScale_def scale_loop_eq Let_def)

section \<open>Picking nodes\<close>

interpretation least_pressure: selection "\<lambda>a b. flt (Pressure a) (Pressure b)"
  by unfold_locales (auto dest: flt_trans)

definition idle :: "agent \<Rightarrow> bool" where
  "idle ag \<longleftrightarrow> \<not> (0 <s ActiveCount ag \<or> Status ag = AgentDraining)"

lemma pick_target_select:
  "pick_target ags t = select_loop idle (\<lambda>a b. flt (Pressure a) (Pressure b)) ags t"
  by (induction ags arbitrary: t) (auto simp: idle_def)

lemma first_replaceable_some:
  "first_replaceable ty ags = Some a \<Longrightarrow> a \<in> set ags \<and> InstanceType a \<noteq> ty \<and> ActiveCount a = 0"
  by (induction ags) (auto split: if_splits)

lemma first_replaceable_none:
  "first_replaceable ty ags = None \<longleftrightarrow> (\<forall>a \<in> set ags. InstanceType a = ty \<or> ActiveCount a \<noteq> 0)"
  by (induction ags) auto

text \<open>The nodes \<open>first_replaceable\<close> looks for.\<close>

definition replaceable :: "AutoscaleConfig \<Rightarrow> agent \<Rightarrow> bool" where
  "replaceable c a \<longleftrightarrow> ActiveCount a = 0 \<and> InstanceType a \<noteq> largestInstanceType (NodeTypes c)"

text \<open>The three outcomes of \<open>tryScaleUp\<close>.\<close>

lemma tryScaleUp_cases:
  obtains (same) "tryScaleUp E since stamp s = s"
  | (grow) "\<not> time_sub since (lastScaleUp (scaler s)) < seconds (CooldownSec (cfg E))"
      "int (length (managedAgents E (store s))) < MaxNodes (cfg E)"
      "tryScaleUp E since stamp s = spawnNode E stamp (smallestNodeResources (NodeTypes (cfg E)))
         (s\<lparr>scaler := (scaler s)\<lparr>lastScaleUp := stamp\<rparr>\<rparr>)"
  | (replace) c where "\<not> time_sub since (lastScaleUp (scaler s)) < seconds (CooldownSec (cfg E))"
      "MaxNodes (cfg E) \<le> int (length (managedAgents E (store s)))"
      "c \<in> set (managedAgents E (store s))" "ActiveCount c = 0"
      "InstanceType c \<noteq> largestInstanceType (NodeTypes (cfg E))"
      "tryScaleUp E since stamp s =
         s\<lparr>scaler := (scaler s)\<lparr>lastScaleUp := stamp\<rparr>, store := SetDraining (registry E) (ID c) (store s),
           jobs := jobs s @ [ReplaceJob (ID c) (Address c) (ProviderID c) (largestNodeResources (NodeTypes (cfg E)))]\<rparr>"
proof (cases "time_sub since (lastScaleUp (scaler s)) < seconds (CooldownSec (cfg E))")
  case True
  then show ?thesis using same by (simp add: tryScaleUp_def)
next
  case ready: False
  show ?thesis
  proof (cases "int (length (managedAgents E (store s))) < MaxNodes (cfg E)")
    case True
    then show ?thesis using ready grow by (simp add: tryScaleUp_def)
  next
    case full: False
    show ?thesis
    proof (cases "first_replaceable (largestInstanceType (NodeTypes (cfg E))) (managedAgents E (store s))")
      case None
      then show ?thesis using ready full same by (simp add: tryScaleUp_def)
    next
      case (Some c)
      with first_replaceable_some [OF this] show ?thesis
        using ready full by (intro replace [of c]) (simp_all add: tryScaleUp_def)
    qed
  qed
qed

text \<open>The two outcomes of \<open>scaleDown\<close>.\<close>

lemma scaleDown_cases:
  obtains (same) "scaleDown E since stamp s = s"
  | (drain) t where "\<not> time_sub since (lastScaleDown (scaler s)) < seconds (CooldownSec (cfg E))"
      "MinNodes (cfg E) < int (length (managedAgents E (store s)))"
      "t \<in> set (managedAgents E (store s))" "idle t"
      "\<forall>a \<in> set (managedAgents E (store s)). idle a \<longrightarrow> \<not> flt (Pressure a) (Pressure t)"
      "scaleDown E since stamp s =
         s\<lparr>scaler := clear_history ((scaler s)\<lparr>lastScaleDown := stamp\<rparr>),
           store := SetDraining (registry E) (ID t) (store s),
           jobs := jobs s @ [DrainJob (ID t) (Address t) (ProviderID t)]\<rparr>"
proof (cases "time_sub since (lastScaleDown (scaler s)) < seconds (CooldownSec (cfg E)) \<or>
    int (length (managedAgents E (store s))) \<le> MinNodes (cfg E)")
  case True
  then show ?thesis using same by (auto simp: scaleDown_def)
next
  case ready: False
  show ?thesis
  proof (cases "pick_target (managedAgents E (store s)) None")
    case None
    then show ?thesis using ready same by (simp add: scaleDown_def)
  next
    case (Some t)
    with least_pressure.select_best [OF this [unfolded pick_target_select]] show ?thesis
      using ready by (intro drain [of t]) (simp_all add: scaleDown_def)
  qed
qed

section \<open>The fleet a store represents\<close>

definition managed_ids :: "string \<Rightarrow> store_view \<Rightarrow> string set" where
  "managed_ids p v = {i. \<exists>a. v_agents v i = Some a \<and> Provider a = p}"

text \<open>The nodes of a provider that are not being drained.\<close>

definition active_ids :: "string \<Rightarrow> store_view \<Rightarrow> string set" where
  "active_ids p v = {i. \<exists>a. v_agents v i = Some a \<and> Provider a = p \<and> Status a \<noteq> AgentDraining}"

lemma active_managed: "active_ids p v \<subseteq> managed_ids p v"
  by (auto simp: active_ids_def managed_ids_def)

lemma enumerates_filter:
  assumes "enumerates vs m"
  shows "length (filter P vs) = card {i. \<exists>a. m i = Some a \<and> P a}" and "finite {i. \<exists>a. m i = Some a \<and> P a}"
proof -
  obtain ks where ks: "distinct ks" "set ks = dom m" "vs = map (\<lambda>k. the (m k)) ks"
    using assms by (auto simp: enumerates_def)
  have set: "set (filter (\<lambda>k. P (the (m k))) ks) = {i. \<exists>a. m i = Some a \<and> P a}"
    using ks(2) by (auto simp: dom_def)
  have "length (filter P vs) = length (filter (\<lambda>k. P (the (m k))) ks)"
    unfolding ks(3) by (simp add: filter_map comp_def)
  also have "\<dots> = card (set (filter (\<lambda>k. P (the (m k))) ks))"
    using ks(1) by (intro distinct_card [symmetric] distinct_filter)
  finally show "length (filter P vs) = card {i. \<exists>a. m i = Some a \<and> P a}" using set by simp
  show "finite {i. \<exists>a. m i = Some a \<and> P a}" by (metis List.finite_set set)
qed

text \<open>Two views with the same agents in the same places; statuses and reports may differ.\<close>

definition same_fleet :: "store_view \<Rightarrow> store_view \<Rightarrow> bool" where
  "same_fleet v v' \<longleftrightarrow> (\<forall>i. rel_option same_placement (v_agents v i) (v_agents v' i))"

lemma same_fleet_refl [intro]: "same_fleet v v"
  by (auto simp: same_fleet_def same_placement_def intro: option.rel_refl)

lemma same_fleet_trans: "same_fleet v v' \<Longrightarrow> same_fleet v' v'' \<Longrightarrow> same_fleet v v''"
  unfolding same_fleet_def
  by (metis (mono_tags, lifting) option.rel_sel same_placement_def)

lemma same_fleet_sym: "same_fleet v v' \<Longrightarrow> same_fleet v' v"
  unfolding same_fleet_def
  by (metis (mono_tags, lifting) option.rel_sel same_placement_def)

lemma same_fleet_managed_subset: "same_fleet v v' \<Longrightarrow> managed_ids p v \<subseteq> managed_ids p v'"
proof
  fix i
  assume fleet: "same_fleet v v'" and "i \<in> managed_ids p v"
  then obtain a where a: "v_agents v i = Some a" "Provider a = p" by (auto simp: managed_ids_def)
  have "rel_option same_placement (v_agents v i) (v_agents v' i)" using fleet by (simp add: same_fleet_def)
  then obtain b where "v_agents v' i = Some b" "same_placement a b" using a(1) by (auto simp: option_rel_Some1)
  then show "i \<in> managed_ids p v'" using a(2) by (auto simp: managed_ids_def same_placement_def)
qed

lemma same_fleet_managed: "same_fleet v v' \<Longrightarrow> managed_ids p v = managed_ids p v'"
  using same_fleet_managed_subset same_fleet_sym by (metis subset_antisym)

lemma modify_same_fleet:
  assumes "keyed v" and "\<And>a b. f a = Some b \<Longrightarrow> evolves a b"
  shows "same_fleet v (modify_view i f v)" and "keyed (modify_view i f v)"
proof -
  have "same_fleet v (modify_view i f v) \<and> keyed (modify_view i f v)"
  proof (cases "Option.bind (v_agents v i) f")
    case None
    then show ?thesis using assms(1) by (auto simp: modify_view_def)
  next
    case (Some b)
    then obtain a where a: "v_agents v i = Some a" "f a = Some b" by (auto simp: bind_eq_Some_conv)
    then have "ID a = i" using assms(1) by (simp add: keyed_def)
    then have b: "ID b = i" "same_placement a b"
      using assms(2) [OF a(2)] by (simp_all add: evolves_def same_placement_def)
    have "same_fleet v (v\<lparr>v_agents := (v_agents v)(i \<mapsto> b)\<rparr>)"
      using a(1) b(2) by (auto simp: same_fleet_def same_placement_def intro: option.rel_refl)
    moreover have "keyed (v\<lparr>v_agents := (v_agents v)(i \<mapsto> b)\<rparr>)" using assms(1) b(1) by (auto simp: keyed_def)
    ultimately show ?thesis
      using Some b(1) assms(1) by (auto simp: modify_view_def put_agent_def)
  qed
  then show "same_fleet v (modify_view i f v)" and "keyed (modify_view i f v)" by simp_all
qed

lemma put_agent_managed:
  "managed_ids p (put_agent a v) \<subseteq> insert (ID a) (managed_ids p v)"
  by (auto simp: managed_ids_def put_agent_def split: if_splits)

lemma put_agent_keyed: "keyed v \<Longrightarrow> keyed (put_agent a v)"
  by (auto simp: keyed_def put_agent_def)

lemma modify_view_other:
  "keyed v \<Longrightarrow> (\<And>a b. f a = Some b \<Longrightarrow> ID b = ID a) \<Longrightarrow> j \<noteq> i \<Longrightarrow> v_agents (modify_view i f v) j = v_agents v j"
  by (cases "v_agents v i") (auto simp: modify_view_def put_agent_def keyed_def split: option.splits)

section \<open>The history after a poll\<close>

text \<open>All samples kept for an agent are at most one window old.\<close>

definition trimmed :: "AutoscaleConfig \<Rightarrow> time \<Rightarrow> (string \<rightharpoonup> pressureSample list) \<Rightarrow> string \<Rightarrow> bool" where
  "trimmed c now hist i \<longleftrightarrow>
     (\<forall>h. hist i = Some h \<longrightarrow> (\<forall>smp \<in> set h. time_sub now (sampled_at smp) \<le> seconds (EvaluationWindowSec c)))"

lemma push_history_trimmed: "trimmed c now (pressureHistory (push_history c now i st a)) i"
  by (simp add: trimmed_def push_history_def Let_def)

lemma push_history_other: "j \<noteq> i \<Longrightarrow> pressureHistory (push_history c now i st a) j = pressureHistory a j"
  by (simp add: push_history_def Let_def)

section \<open>The jobs\<close>

lemma poll_agents_jobs: "jobs (fold (poll_agent E now) ags s) = jobs s"
proof (induction ags arbitrary: s)
  case (Cons ag ags)
  have "jobs (poll_agent E now ag s) = jobs s"
    by (auto simp: poll_agent_def Let_def split: sum.splits prod.splits)
  then show ?case using Cons by simp
qed simp

lemma drain_not_aborted:
  "drain_loop C p es w = (Some out, w') \<Longrightarrow> ParentCanceled \<notin> set es \<Longrightarrow> out \<noteq> Aborted"
  by (induction C p es w rule: drain_loop.induct) (auto split: sum.splits prod.splits if_splits)

text \<open>The drain loop ends at its deadline at the latest.\<close>

lemma drain_ends: "\<exists>out w'. drain_loop C p (replicate n DrainTick @ DeadlineExceeded # es) w = (Some out, w')"
  by (induction n arbitrary: w) (auto split: sum.splits prod.splits)

text \<open>The calls of the loop do not touch what a cloud runs, when reporting a status does not.\<close>

lemma drain_loop_frame:
  "(\<And>a w. f (snd (GetNodeStatusOf C a w)) = f w) \<Longrightarrow> f (snd (drain_loop C p es w)) = f w"
proof (induction C p es w rule: drain_loop.induct)
  case (4 C p es w)
  have "f w' = f w" if "GetNodeStatusOf C p w = (r, w')" for r w' using 4(3) [of p w] that by simp
  then show ?case using 4 by (auto split: sum.splits prod.splits)
qed simp_all

section \<open>Operations on a store in service\<close>

text \<open>The store of a state is in service and keyed.\<close>

definition serving :: "('m \<Rightarrow> store_view) \<Rightarrow> ('m \<Rightarrow> bool) \<Rightarrow> ('m, 'w) scale_state \<Rightarrow> bool" where
  "serving view up s \<longleftrightarrow> up (store s) \<and> keyed (view (store s))"

context memory_in_service begin

lemma managed_length:
  assumes "up (store s)" and "registry E = M"
  shows "length (managedAgents E (store s)) = card (managed_ids (cp_Name (provider E)) (view (store s)))"
    and "finite (managed_ids (cp_Name (provider E)) (view (store s)))"
  using enumerates_filter [OF reg_get_all_up [OF assms(1)]] assms(2)
  by (simp_all add: managedAgents_def managed_ids_def)

lemma managed_stored:
  assumes "serving view up s" and "registry E = M" and "a \<in> set (managedAgents E (store s))"
  shows "v_agents (view (store s)) (ID a) = Some a" and "Provider a = cp_Name (provider E)"
proof -
  have "a \<in> ran (v_agents (view (store s)))"
    using assms scan_sound by (auto simp: managedAgents_def)
  then show "v_agents (view (store s)) (ID a) = Some a"
    using assms(1) by (auto simp: ran_def serving_def keyed_def)
  show "Provider a = cp_Name (provider E)" using assms(3) by (simp add: managedAgents_def)
qed

lemma modify_serving:
  assumes "serving view up s" and "\<And>a b. f a = Some b \<Longrightarrow> evolves a b"
  shows "same_fleet (view (store s)) (view (modify_agent M i f (store s)))"
    and "keyed (view (modify_agent M i f (store s)))" and "up (modify_agent M i f (store s))"
  using modify_agent_up [of "store s" i f] modify_same_fleet [where f = f and v = "view (store s)" and i = i, OF _ assms(2)] assms(1)
  by (simp_all add: serving_def)

lemma set_draining_view:
  assumes "serving view up s" and "v_agents (view (store s)) i = Some a"
  shows "view (SetDraining M i (store s)) =
    view (store s)\<lparr>v_agents := (v_agents (view (store s)))(i \<mapsto> a\<lparr>Status := AgentDraining\<rparr>)\<rparr>"
proof -
  have "agent_json_ok (a\<lparr>Status := AgentDraining\<rparr>)"
    using up_stored [of "store s" i a] assms by (simp add: serving_def agent_json_ok_def)
  moreover have "ID a = i" using assms by (simp add: serving_def keyed_def)
  ultimately show ?thesis
    using modify_agent_up [of "store s" i draining_of] assms
    by (simp add: modify_agent_forms serving_def modify_view_def draining_of_def put_agent_def)
qed

lemma poll_agent_serving:
  assumes "serving view up s" and "registry E = M"
  shows "serving view up (poll_agent E now ag s) \<and>
    same_fleet (view (store s)) (view (store (poll_agent E now ag s)))"
proof -
  note off = modify_serving [OF assms(1) successor_evolves(1), where i = "ID ag"]
  note stat = modify_serving [OF assms(1) successor_evolves(4), where i = "ID ag"]
  show ?thesis
    using assms off stat
    by (auto simp: poll_agent_def serving_def modify_agent_forms Let_def split: sum.splits prod.splits)
qed

lemma poll_agents_serving:
  assumes "registry E = M"
  shows "serving view up s \<Longrightarrow> serving view up (fold (poll_agent E now) ags s) \<and>
    same_fleet (view (store s)) (view (store (fold (poll_agent E now) ags s)))"
proof (induction ags arbitrary: s)
  case (Cons ag ags)
  then show ?case
    using poll_agent_serving [OF Cons.prems assms, of now ag] same_fleet_trans by fastforce
qed auto

text \<open>One turn of the polling loop leaves the other agents alone.\<close>

lemma poll_agent_other:
  assumes "serving view up s" and "registry E = M" and "j \<noteq> ID ag"
  shows "v_agents (view (store (poll_agent E now ag s))) j = v_agents (view (store s)) j \<and>
    pressureHistory (scaler (poll_agent E now ag s)) j = pressureHistory (scaler s) j"
proof -
  have other: "v_agents (view (modify_agent M (ID ag) f (store s))) j = v_agents (view (store s)) j"
    if "\<And>a b. f a = Some b \<Longrightarrow> ID b = ID a" for f
    using modify_agent_up [of "store s" "ID ag" f] modify_view_other [OF _ that assms(3)] assms(1)
    by (simp add: serving_def)
  show ?thesis
    using assms(2,3) other [OF successor_ID(1)] other [OF successor_ID(4)]
    by (auto simp: poll_agent_def modify_agent_forms push_history_other Let_def split: sum.splits prod.splits)
qed

text \<open>An agent of the provider that is online after its turn has been sampled in it.\<close>

lemma poll_agent_online:
  assumes "serving view up s" and "registry E = M" and "v_agents (view (store s)) (ID ag) = Some ag"
    and "Provider ag = cp_Name (provider E)"
    and "v_agents (view (store (poll_agent E now ag s))) (ID ag) = Some b" and "Status b = AgentOnline"
  shows "trimmed (cfg E) now (pressureHistory (scaler (poll_agent E now ag s))) (ID ag)"
proof (cases "Status ag = AgentDraining")
  case True
  then show ?thesis using assms(3,5,6) by (simp add: poll_agent_def)
next
  case False
  obtain r w where r: "GetNodeStatusOf (agentClient E) ag (world s) = (r, w)" by fastforce
  show ?thesis
  proof (cases r)
    case (Inl e)
    have "agent_json_ok (ag\<lparr>Status := AgentOffline\<rparr>)"
      using up_stored [of "store s" "ID ag" ag] assms(1,3) by (simp add: serving_def agent_json_ok_def)
    then have "Status b = AgentOffline"
      using modify_agent_up [of "store s" "ID ag" offline_of] assms(1-3,5) r Inl False
      by (auto simp: poll_agent_def modify_agent_forms serving_def modify_view_def offline_of_def put_agent_def)
    then show ?thesis using assms(6) by simp
  next
    case (Inr st)
    then show ?thesis using r False assms(4) push_history_trimmed by (simp add: poll_agent_def Let_def)
  qed
qed

lemma polls_other:
  assumes "registry E = M"
  shows "serving view up s \<Longrightarrow> j \<notin> ID ` set ags \<Longrightarrow>
    v_agents (view (store (fold (poll_agent E now) ags s))) j = v_agents (view (store s)) j \<and>
    pressureHistory (scaler (fold (poll_agent E now) ags s)) j = pressureHistory (scaler s) j"
proof (induction ags arbitrary: s)
  case (Cons ag ags)
  have "serving view up (poll_agent E now ag s)" using poll_agent_serving [OF Cons.prems(1) assms] by blast
  then show ?case using Cons.IH poll_agent_other [OF Cons.prems(1) assms] Cons.prems(2) by simp
qed simp

lemma polls_online:
  assumes "registry E = M"
  shows "serving view up s \<Longrightarrow> distinct (map ID ags) \<Longrightarrow>
    (\<And>ag. ag \<in> set ags \<Longrightarrow> v_agents (view (store s)) (ID ag) = Some ag) \<Longrightarrow> ag \<in> set ags \<Longrightarrow>
    Provider ag = cp_Name (provider E) \<Longrightarrow>
    v_agents (view (store (fold (poll_agent E now) ags s))) (ID ag) = Some b \<Longrightarrow> Status b = AgentOnline \<Longrightarrow>
    trimmed (cfg E) now (pressureHistory (scaler (fold (poll_agent E now) ags s))) (ID ag)"
proof (induction ags arbitrary: s)
  case (Cons x ags)
  let ?s' = "poll_agent E now x s"
  have serv: "serving view up ?s'" using poll_agent_serving [OF Cons.prems(1) assms] by blast
  have stored: "v_agents (view (store s)) (ID x) = Some x" using Cons.prems(3) by simp
  show ?case
  proof (cases "ag = x")
    case True
    have "ID ag \<notin> ID ` set ags" using True Cons.prems(2) by simp
    note same = polls_other [OF assms serv this, of now]
    have "trimmed (cfg E) now (pressureHistory (scaler ?s')) (ID x)"
      using poll_agent_online [OF Cons.prems(1) assms stored] same Cons.prems(5-7) True by simp
    then show ?thesis using same True by (simp add: trimmed_def)
  next
    case False
    have "v_agents (view (store ?s')) (ID y) = Some y" if "y \<in> set ags" for y
    proof -
      have "ID y \<noteq> ID x" using Cons.prems(2) that by (metis distinct.simps(2) image_eqI list.set_map list.simps(9))
      then show ?thesis using poll_agent_other [OF Cons.prems(1) assms] Cons.prems(3) that by simp
    qed
    then show ?thesis using Cons.IH [OF serv] Cons.prems False by simp
  qed
qed simp

text \<open>The whole loop, over the agents the registry lists.\<close>

lemma polled_trimmed:
  assumes "serving view up s" and "registry E = M"
    and "ag \<in> set (scaled_agents E (store (fold (poll_agent E now) (reg_GetAllAgents M (store s)) s)))"
  shows "trimmed (cfg E) now
    (pressureHistory (scaler (fold (poll_agent E now) (reg_GetAllAgents M (store s)) s))) (ID ag)"
proof -
  let ?ags = "reg_GetAllAgents M (store s)" and ?s' = "fold (poll_agent E now) (reg_GetAllAgents M (store s)) s"
  let ?m = "v_agents (view (store s))"
  have up: "up (store s)" and keyed: "\<And>i a. ?m i = Some a \<Longrightarrow> ID a = i"
    using assms(1) by (auto simp: serving_def keyed_def)
  have ran: "set ?ags = ran ?m" using enumerates_set [OF reg_get_all_up [OF up]] .
  have stored: "?m (ID x) = Some x" if "x \<in> set ?ags" for x using that ran keyed by (force simp: ran_def)
  have dist: "distinct (map ID ?ags)" by (rule enumerates_distinct [OF reg_get_all_up [OF up] keyed])
  note serv' = poll_agents_serving [OF assms(2,1), of now ?ags]
  have on: "Status ag = AgentOnline" "Provider ag = cp_Name (provider E)" "ag \<in> set (managedAgents E (store ?s'))"
    using assms(3) by (auto simp: scaled_agents_def managedAgents_def online_of_all)
  have cur: "v_agents (view (store ?s')) (ID ag) = Some ag"
    using managed_stored(1) [OF conjunct1 [OF serv'] assms(2) on(3)] .
  have "rel_option same_placement (?m (ID ag)) (v_agents (view (store ?s')) (ID ag))"
    using conjunct2 [OF serv'] by (simp add: same_fleet_def)
  then obtain a where a: "?m (ID ag) = Some a" "same_placement a ag" using cur by (auto simp: option_rel_Some2)
  then have "a \<in> set ?ags" "ID a = ID ag" "Provider a = cp_Name (provider E)"
    using ran keyed on(2) by (auto simp: ran_def same_placement_def)
  then show ?thesis using polls_online [OF assms(2,1) dist stored, of a now ag] cur on(1) by simp
qed

lemma spawnNode_serving:
  assumes "serving view up s" and "registry E = M"
  shows "serving view up (spawnNode E now res s) \<and>
    (\<exists>i. managed_ids p (view (store (spawnNode E now res s))) \<subseteq> insert i (managed_ids p (view (store s)))) \<and>
    length (jobs (spawnNode E now res s)) \<le> length (jobs s) + 1"
proof (cases "SpawnNode (provider E) res (world s)")
  case (Pair r w)
  show ?thesis
  proof (cases r)
    case (Inl e)
    then show ?thesis using Pair assms by (auto simp: spawnNode_def serving_def)
  next
    case (Inr node)
    let ?a = "new_agent AgentOffline now (pn_AgentID node) (host_port (PublicIP node) (agentPort E))
      (pn_ProviderID node) (pn_InstanceType node) (cp_Name (provider E))"
    have st: "view (store (spawnNode E now res s)) = put_agent ?a (view (store s)) \<and>
        up (store (spawnNode E now res s))"
      using save_agent_put [of "store s" ?a] assms Pair Inr
      by (simp add: spawnNode_def serving_def RegisterOfflineAgent_def new_agent_def)
    have "length (jobs (spawnNode E now res s)) = length (jobs s) + 1"
      using Pair Inr by (simp add: spawnNode_def)
    moreover have "managed_ids p (view (store (spawnNode E now res s))) \<subseteq> insert (ID ?a) (managed_ids p (view (store s)))"
      using st put_agent_managed by metis
    ultimately show ?thesis
      using st put_agent_keyed [of "view (store s)" ?a] assms(1) unfolding serving_def by auto
  qed
qed

lemma card_insert_bound: "finite B \<Longrightarrow> A \<subseteq> insert i B \<Longrightarrow> card A \<le> card B + 1"
  by (metis One_nat_def add.right_neutral add_Suc_right card_insert_le_m1 card_mono finite_insert
      card_insert_if le_SucI nle_le order_trans)

lemma tryScaleUp_serving:
  assumes "serving view up s" and "registry E = M"
  defines "p \<equiv> cp_Name (provider E)"
  shows "serving view up (tryScaleUp E since stamp s) \<and>
    int (card (managed_ids p (view (store (tryScaleUp E since stamp s))))) \<le>
      max (int (card (managed_ids p (view (store s))))) (MaxNodes (cfg E)) \<and>
    length (jobs (tryScaleUp E since stamp s)) \<le> length (jobs s) + 1"
proof -
  let ?n = "card (managed_ids p (view (store s)))" and ?s' = "tryScaleUp E since stamp s"
  have up: "up (store s)" using assms(1) by (simp add: serving_def)
  note len = managed_length [OF up assms(2)]
  show ?thesis
  proof (cases rule: tryScaleUp_cases [of E since stamp s])
    case same
    then show ?thesis using assms(1) by simp
  next
    case grow
    have sv: "serving view up (s\<lparr>scaler := (scaler s)\<lparr>lastScaleUp := stamp\<rparr>\<rparr>)"
      using assms(1) by (simp add: serving_def)
    from spawnNode_serving [OF this assms(2), of stamp "smallestNodeResources (NodeTypes (cfg E))" p]
    obtain i where "serving view up ?s'" and i: "managed_ids p (view (store ?s')) \<subseteq> insert i (managed_ids p (view (store s)))"
      and "length (jobs ?s') \<le> length (jobs s) + 1"
      unfolding grow(3) by auto
    moreover have "card (managed_ids p (view (store ?s'))) \<le> ?n + 1"
      using card_insert_bound [OF _ i] len(2) by (simp add: p_def)
    ultimately show ?thesis using grow(2) len(1) by (auto simp: p_def)
  next
    case (replace c)
    have "same_fleet (view (store s)) (view (store ?s'))" "keyed (view (store ?s'))" "up (store ?s')"
      using modify_serving [OF assms(1) successor_evolves(2), where i = "ID c"] replace(6) assms(2)
      by (simp_all add: modify_agent_forms)
    moreover have "length (jobs ?s') = length (jobs s) + 1" using replace(6) by simp
    ultimately show ?thesis using same_fleet_managed [of "view (store s)" "view (store ?s')" p]
      by (simp add: serving_def)
  qed
qed

lemma scaleDown_serving:
  assumes "serving view up s" and "registry E = M"
  shows "serving view up (scaleDown E since stamp s) \<and>
    same_fleet (view (store s)) (view (store (scaleDown E since stamp s))) \<and>
    length (jobs (scaleDown E since stamp s)) \<le> length (jobs s) + 1"
proof (cases rule: scaleDown_cases [of E since stamp s])
  case (drain t)
  have "same_fleet (view (store s)) (view (store (scaleDown E since stamp s)))"
    "keyed (view (store (scaleDown E since stamp s)))" "up (store (scaleDown E since stamp s))"
    using modify_serving [OF assms(1) successor_evolves(2), where i = "ID t"] drain(6) assms(2)
    by (simp_all add: modify_agent_forms)
  then show ?thesis using drain(6) by (simp add: serving_def)
qed (use assms(1) in auto)

lemma poll_serving:
  assumes "serving view up s" and "registry E = M"
  shows "serving view up (poll E now eval since stamp s) \<and>
    int (card (managed_ids (cp_Name (provider E)) (view (store (poll E now eval since stamp s))))) \<le>
      max (int (card (managed_ids (cp_Name (provider E)) (view (store s))))) (MaxNodes (cfg E)) \<and>
    length (jobs (poll E now eval since stamp s)) \<le> length (jobs s) + 1"
proof -
  let ?ids = "\<lambda>s. managed_ids (cp_Name (provider E)) (view (store s))"
  define s1 where "s1 = fold (poll_agent E now) (reg_GetAllAgents (registry E) (store s)) s"
  have polled: "serving view up s1" "?ids s1 = ?ids s" "jobs s1 = jobs s"
    using poll_agents_serving [OF assms(2,1)] same_fleet_managed poll_agents_jobs
    unfolding s1_def by metis+
  have run: "poll E now eval since stamp s = checkAndTriggerScale E eval since stamp s1"
    by (simp add: poll_def s1_def)
  show ?thesis
  proof (cases "shouldScale E eval s1")
    case ScaleDirectionUp
    then show ?thesis using tryScaleUp_serving [OF polled(1) assms(2), of since stamp] polled(2,3) run
      by (simp add: checkAndTriggerScale_def)
  next
    case ScaleDirectionNeutral
    then show ?thesis using polled run by (simp add: checkAndTriggerScale_def)
  next
    case ScaleDirectionDown
    have "?ids (scaleDown E since stamp s1) = ?ids s1"
      using scaleDown_serving [OF polled(1) assms(2)] same_fleet_managed by metis
    then show ?thesis
      using ScaleDirectionDown scaleDown_serving [OF polled(1) assms(2), of since stamp] polled(2,3) run
      by (simp add: checkAndTriggerScale_def)
  qed
qed

lemma scaleDown_target:
  assumes "serving view up s" and "registry E = M" and "jobs (scaleDown E since stamp s) \<noteq> jobs s"
  defines "p \<equiv> cp_Name (provider E)"
  shows "seconds (CooldownSec (cfg E)) \<le> time_sub since (lastScaleDown (scaler s)) \<and>
    MinNodes (cfg E) < int (card (managed_ids p (view (store s)))) \<and>
    (\<exists>t. v_agents (view (store s)) (ID t) = Some t \<and> Provider t = p \<and> idle t \<and>
       (\<forall>i a. v_agents (view (store s)) i = Some a \<and> Provider a = p \<and> idle a \<longrightarrow>
          \<not> flt (Pressure a) (Pressure t)) \<and>
       v_agents (view (store (scaleDown E since stamp s))) (ID t) = Some (t\<lparr>Status := AgentDraining\<rparr>) \<and>
       jobs (scaleDown E since stamp s) = jobs s @ [DrainJob (ID t) (Address t) (ProviderID t)])"
proof (cases rule: scaleDown_cases [of E since stamp s])
  case (drain t)
  have up: "up (store s)" using assms(1) by (simp add: serving_def)
  note t = managed_stored [OF assms(1,2) drain(3)]
  have ran: "set (reg_GetAllAgents M (store s)) = ran (v_agents (view (store s)))"
    using enumerates_set [OF reg_get_all_up [OF up]] .
  have "\<not> flt (Pressure a) (Pressure t)"
    if "v_agents (view (store s)) i = Some a" "Provider a = p" "idle a" for i a
  proof -
    have "a \<in> set (managedAgents E (store s))"
      using that ran assms(2) by (auto simp: managedAgents_def p_def ran_def)
    then show ?thesis using drain(5) that(3) by blast
  qed
  moreover have "v_agents (view (store (scaleDown E since stamp s))) (ID t) = Some (t\<lparr>Status := AgentDraining\<rparr>)"
    using set_draining_view [OF assms(1) t(1)] drain(6) assms(2) by simp
  ultimately show ?thesis
    using drain t managed_length(1) [OF up assms(2)] by (auto simp: p_def)
qed (use assms(3) in simp)

text \<open>Exactly when \<open>scaleDown\<close> starts a drain; the nodes that are already draining count for the minimum.\<close>

lemma scaleDown_iff:
  assumes "serving view up s" and "registry E = M"
  defines "p \<equiv> cp_Name (provider E)"
  shows "jobs (scaleDown E since stamp s) \<noteq> jobs s \<longleftrightarrow>
    seconds (CooldownSec (cfg E)) \<le> time_sub since (lastScaleDown (scaler s)) \<and>
    MinNodes (cfg E) < int (card (managed_ids p (view (store s)))) \<and>
    (\<exists>i a. v_agents (view (store s)) i = Some a \<and> Provider a = p \<and> idle a)"
proof -
  have up: "up (store s)" using assms(1) by (simp add: serving_def)
  have "set (managedAgents E (store s)) = {a \<in> ran (v_agents (view (store s))). Provider a = p}"
    using enumerates_set [OF reg_get_all_up [OF up]] assms(2) by (auto simp: managedAgents_def p_def)
  then have "(\<exists>a \<in> set (managedAgents E (store s)). idle a) \<longleftrightarrow>
      (\<exists>i a. v_agents (view (store s)) i = Some a \<and> Provider a = p \<and> idle a)"
    by (auto simp: ran_def)
  moreover have "pick_target (managedAgents E (store s)) None = None \<longleftrightarrow>
      \<not> (\<exists>a \<in> set (managedAgents E (store s)). idle a)"
    using least_pressure.select_none_iff [of idle "managedAgents E (store s)"] by (auto simp: pick_target_select)
  ultimately show ?thesis
    using managed_length(1) [OF up assms(2)]
    by (auto simp: scaleDown_def Let_def p_def split: option.splits)
qed

lemma scaleDown_active:
  assumes "serving view up s" and "registry E = M" and "jobs (scaleDown E since stamp s) \<noteq> jobs s"
  defines "p \<equiv> cp_Name (provider E)"
  shows "managed_ids p (view (store (scaleDown E since stamp s))) = managed_ids p (view (store s))"
    and "card (active_ids p (view (store (scaleDown E since stamp s)))) + 1 = card (active_ids p (view (store s)))"
proof -
  have up: "up (store s)" using assms(1) by (simp add: serving_def)
  obtain t where t: "t \<in> set (managedAgents E (store s))" "idle t"
    "store (scaleDown E since stamp s) = SetDraining M (ID t) (store s)"
    using assms(2,3) by (cases rule: scaleDown_cases [of E since stamp s]) simp_all
  show "managed_ids p (view (store (scaleDown E since stamp s))) = managed_ids p (view (store s))"
    using scaleDown_serving [OF assms(1,2), of since stamp] same_fleet_managed by metis
  have stored: "v_agents (view (store s)) (ID t) = Some t" "Provider t = p"
    using managed_stored [OF assms(1,2) t(1)] by (simp_all add: p_def)
  have "view (store (scaleDown E since stamp s)) =
      view (store s)\<lparr>v_agents := (v_agents (view (store s)))(ID t \<mapsto> t\<lparr>Status := AgentDraining\<rparr>)\<rparr>"
    unfolding t(3) by (rule set_draining_view [OF assms(1) stored(1)])
  then have "active_ids p (view (store (scaleDown E since stamp s))) = active_ids p (view (store s)) - {ID t}"
    by (auto simp: active_ids_def)
  moreover have "ID t \<in> active_ids p (view (store s))" using stored t(2) by (auto simp: active_ids_def idle_def)
  moreover have "finite (active_ids p (view (store s)))"
    using finite_subset [OF active_managed] managed_length(2) [OF up assms(2)] by (simp add: p_def)
  ultimately show "card (active_ids p (view (store (scaleDown E since stamp s)))) + 1 = card (active_ids p (view (store s)))"
    by (metis Suc_eq_plus1 card_Suc_Diff1)
qed

text \<open>At the maximum, the only node that can be replaced is chosen whether or not it is draining.\<close>

lemma tryScaleUp_replaces:
  assumes "serving view up s" and "registry E = M"
    and "seconds (CooldownSec (cfg E)) \<le> time_sub since (lastScaleUp (scaler s))"
    and "MaxNodes (cfg E) \<le> int (card (managed_ids (cp_Name (provider E)) (view (store s))))"
    and "v_agents (view (store s)) (ID c) = Some c" and "Provider c = cp_Name (provider E)"
    and "replaceable (cfg E) c"
    and "\<And>i a. v_agents (view (store s)) i = Some a \<Longrightarrow> Provider a = cp_Name (provider E) \<Longrightarrow>
      replaceable (cfg E) a \<Longrightarrow> i = ID c"
  shows "jobs (tryScaleUp E since stamp s) = jobs s @
      [ReplaceJob (ID c) (Address c) (ProviderID c) (largestNodeResources (NodeTypes (cfg E)))] \<and>
    view (store (tryScaleUp E since stamp s)) =
      view (store s)\<lparr>v_agents := (v_agents (view (store s)))(ID c \<mapsto> c\<lparr>Status := AgentDraining\<rparr>)\<rparr> \<and>
    lastScaleUp (scaler (tryScaleUp E since stamp s)) = stamp \<and> serving view up (tryScaleUp E since stamp s)"
proof -
  let ?ty = "largestInstanceType (NodeTypes (cfg E))" and ?ags = "managedAgents E (store s)"
  have up: "up (store s)" using assms(1) by (simp add: serving_def)
  have "c \<in> set ?ags"
    using enumerates_set [OF reg_get_all_up [OF up]] assms(2,5,6) by (auto simp: managedAgents_def ran_def)
  then obtain x where x: "first_replaceable ?ty ?ags = Some x"
    using first_replaceable_none [of ?ty ?ags] assms(7) by (cases "first_replaceable ?ty ?ags") (auto simp: replaceable_def)
  note fr = first_replaceable_some [OF x]
  have "ID x = ID c"
    using assms(8) [of "ID x" x] managed_stored [OF assms(1,2)] fr by (simp add: replaceable_def)
  then have "x = c" using managed_stored(1) [OF assms(1,2)] fr assms(5) by (metis option.inject)
  then have run: "tryScaleUp E since stamp s =
      s\<lparr>scaler := (scaler s)\<lparr>lastScaleUp := stamp\<rparr>, store := SetDraining (registry E) (ID c) (store s),
        jobs := jobs s @ [ReplaceJob (ID c) (Address c) (ProviderID c) (largestNodeResources (NodeTypes (cfg E)))]\<rparr>"
    using x assms(3,4) managed_length(1) [OF up assms(2)] by (simp add: tryScaleUp_def Let_def)
  then show ?thesis
    using set_draining_view [OF assms(1,5)] tryScaleUp_serving [OF assms(1,2), of since stamp] assms(2) by simp
qed

lemma drain_serving:
  assumes "serving view up s" and "registry E = M" and "drainAndTerminate E es i addr pid s = Some s'"
    and "ParentCanceled \<notin> set es"
  shows "serving view up s' \<and> v_agents (view (store s')) = (v_agents (view (store s)))(i := None) \<and>
    (\<exists>w. fst (drain_loop (agentClient E) (probe_agent addr) es (world s)) \<noteq> None \<and>
         snd (drain_loop (agentClient E) (probe_agent addr) es (world s)) = w \<and>
         world s' = snd (TerminateNode (provider E) pid w))"
proof -
  obtain out w where run: "drain_loop (agentClient E) (probe_agent addr) es (world s) = (Some out, w)"
    using assms(3) by (auto simp: drainAndTerminate_def split: option.splits prod.splits)
  have "out \<noteq> Aborted" using drain_not_aborted [OF run assms(4)] .
  then have s': "s' = s\<lparr>store := DeregisterAgent M i (store s), world := snd (TerminateNode (provider E) pid w)\<rparr>"
    using assms(2,3) run by (cases out) (simp_all add: drainAndTerminate_def)
  have "view (DeregisterAgent M i (store s)) = view (store s)\<lparr>v_agents := (v_agents (view (store s)))(i := None)\<rparr> \<and>
      up (DeregisterAgent M i (store s))"
    using deregister_up assms(1) by (simp add: serving_def)
  then show ?thesis using s' run assms(1) by (auto simp: serving_def keyed_def)
qed

text \<open>A replacement that has launched its node took the old one out and put the new one in.\<close>

lemma replace_serving:
  assumes "serving view up s" and "registry E = M" and "ParentCanceled \<notin> set es" and "time_json_ok now"
    and "run_job E es now (ReplaceJob i addr pid res) s = Some s'" and "jobs s' = jobs s @ [BootstrapJob n]"
  shows "serving view up s' \<and> managed_ids (cp_Name (provider E)) (view (store s')) =
    insert (pn_AgentID n) (managed_ids (cp_Name (provider E)) (view (store s)) - {i})"
proof -
  obtain s1 where s1: "drainAndTerminate E es i addr pid s = Some s1" "s' = spawnNode E now res s1"
    using assms(5) by auto
  have d: "serving view up s1" "v_agents (view (store s1)) = (v_agents (view (store s)))(i := None)"
    using drain_serving [OF assms(1,2) s1(1) assms(3)] by auto
  have "jobs s1 = jobs s"
    using s1(1) by (auto simp: drainAndTerminate_def split: prod.splits option.splits drain_outcome.splits)
  with s1(2) assms(6) obtain w where spawn: "SpawnNode (provider E) res (world s1) = (Inr n, w)"
    by (auto simp: spawnNode_def Let_def split: prod.splits sum.splits)
  let ?a = "new_agent AgentOffline now (pn_AgentID n) (host_port (PublicIP n) (agentPort E))
    (pn_ProviderID n) (pn_InstanceType n) (cp_Name (provider E))"
  have "agent_json_ok ?a" using assms(4) by (simp add: agent_json_ok_def new_agent_def)
  then have "v_agents (view (store s')) = (v_agents (view (store s1)))(pn_AgentID n \<mapsto> ?a)"
    using save_agent_put [of "store s1" ?a] d(1) spawn s1(2) assms(2)
    by (simp add: spawnNode_def serving_def RegisterOfflineAgent_def new_agent_def put_agent_def)
  then have "managed_ids (cp_Name (provider E)) (view (store s')) =
      insert (pn_AgentID n) (managed_ids (cp_Name (provider E)) (view (store s)) - {i})"
    using d(2) by (auto simp: managed_ids_def new_agent_def)
  then show ?thesis using spawnNode_serving [OF d(1) assms(2)] s1(2) by simp
qed

end

section \<open>A small installation\<close>

text \<open>
  The association-list server, a network of agents that all answer with the same report, and a
  cloud that keeps the list of its running instances: every interface of the autoscaler, met.
\<close>

definition lab_cloud :: "(string, string list) client_state cloud_provider" where
  "lab_cloud =
     \<lparr>cp_Name = ''aws'',
      SpawnNode = (\<lambda>r s. let i = ''i-'' @ concat (net s)
        in (Inr \<lparr>pn_ProviderID = i, pn_AgentID = ''auto-'' @ i, pn_InstanceType = ''c5.large'',
                 PublicIP = ''10.0.0.2'', PrivateIP = ''10.0.0.2''\<rparr>, s\<lparr>net := i # net s\<rparr>)),
      Bootstrap = (\<lambda>n s. (None, s)),
      TerminateNode = (\<lambda>i s. (None, s\<lparr>net := filter (\<lambda>j. j \<noteq> i) (net s)\<rparr>))\<rparr>"

lemma fresh_instance: "''i-'' @ concat xs \<notin> set xs"
proof
  have le: "x \<in> set ys \<Longrightarrow> length x \<le> length (concat ys)" for x :: string and ys
    by (induction ys) auto
  assume "''i-'' @ concat xs \<in> set xs"
  from le [OF this] show False by simp
qed

interpretation lab: cloud_contract lab_cloud "\<lambda>s. set (net s)"
  by unfold_locales (auto simp: lab_cloud_def Let_def fresh_instance [simplified])

definition lab_env :: "((string \<times> bytes) list, (string, string list) client_state) scaler_env" where
  "lab_env =
     \<lparr>registry = RedisMemory alist_redis,
      agentClient = AgentClient echo_grpc linux (None :: (unit, unit) pki option),
      provider = lab_cloud, cfg = applyAutoscaleDefaults sample_autoscale, agentPort = 50052\<rparr>"

definition lab_agent :: "string \<Rightarrow> AgentStatus \<Rightarrow> agent" where
  "lab_agent i st = sample_agent\<lparr>ID := i, ProviderID := i, Status := st\<rparr>"

definition lab_store :: "agent list \<Rightarrow> (string \<times> bytes) list" where
  "lab_store as = map (\<lambda>a. (agent_key (ID a), JsonText (the (marshal_agent a)))) as"

definition lab_history :: "f64 \<Rightarrow> f64 \<Rightarrow> pressureSample list" where
  "lab_history c m = [\<lparr>cpuPercent = c, memPercent = m, sampled_at = 0\<rparr>]"

definition lab_state :: "agent list \<Rightarrow> pressureSample list \<Rightarrow>
    ((string \<times> bytes) list, (string, string list) client_state) scale_state" where
  "lab_state as h =
     \<lparr>scaler = \<lparr>pressureHistory = (\<lambda>i. if i \<in> set (map ID as) then Some h else None),
                lastScaleUp = zero_time, lastScaleDown = zero_time\<rparr>,
      store = lab_store as, world = \<lparr>clients = Map.empty, net = map ID as\<rparr>, jobs = []\<rparr>"

lemma lab_poll_running: "net (snd (GetNodeStatusOf (agentClient lab_env) a w)) = net w"
  by (auto simp: lab_env_def AgentClient_def client_GetNodeStatus_def with_client_def get_client_def
      client_creds_def echo_grpc_def split: option.splits)

lemma lab_agent_simps [simp]:
  "ID (lab_agent i st) = i" "Provider (lab_agent i st) = ''aws''" "Status (lab_agent i st) = st"
  by (simp_all add: lab_agent_def sample_agent_def)

lemma lab_simps [simp]:
  "registry lab_env = RedisMemory alist_redis" "cp_Name (provider lab_env) = ''aws''"
  "MaxNodes (cfg lab_env) = 10" "MinNodes (cfg lab_env) = 1"
  "store (lab_state as h) = lab_store as" "jobs (lab_state as h) = []"
  "net (world (lab_state as h)) = map ID as"
  by (simp_all add: lab_env_def lab_cloud_def sample_autoscale_def lab_state_def)

lemma redis_view_put:
  "redis_view (m(agent_key i \<mapsto> b)) = redis_view m\<lparr>v_agents := (v_agents (redis_view m))(i := decode_agent b)\<rparr>"
  by (auto simp: redis_view_def fun_eq_iff)

text \<open>What a store with these agents holds.\<close>

lemma lab_store_Cons:
  assumes "agent_json_ok a"
  obtains j where "marshal_agent a = Some j"
    and "map_of (lab_store (a # as)) = (map_of (lab_store as))(agent_key (ID a) \<mapsto> JsonText j)"
proof -
  obtain j where "marshal_agent a = Some j" using marshal_agent_ok_iff assms by blast
  then show ?thesis using that by (simp add: lab_store_def)
qed

lemma lab_stores:
  "\<forall>a \<in> set as. agent_json_ok a \<Longrightarrow> redis_view (map_of (lab_store as)) =
     \<lparr>v_agents = map_of (map (\<lambda>a. (ID a, a)) as), v_funcs = Map.empty, v_codes = Map.empty, v_execs = Map.empty\<rparr> \<and>
   decodable (map_of (lab_store as)) \<and> keyed (redis_view (map_of (lab_store as)))"
proof (induction as)
  case Nil
  then show ?case by (simp add: lab_store_def redis_view_def decodable_def keyed_def)
next
  case (Cons a as)
  then have ok: "agent_json_ok a" by simp
  obtain j where j: "marshal_agent a = Some j"
    "map_of (lab_store (a # as)) = (map_of (lab_store as))(agent_key (ID a) \<mapsto> JsonText j)"
    by (rule lab_store_Cons [OF ok])
  have IH: "redis_view (map_of (lab_store as)) =
      \<lparr>v_agents = map_of (map (\<lambda>a. (ID a, a)) as), v_funcs = Map.empty, v_codes = Map.empty, v_execs = Map.empty\<rparr>"
    "decodable (map_of (lab_store as))"
    using Cons by simp_all
  have "parse_json unmarshal_agent (JsonText j) = Some a" using j(1) by (simp add: parse_json_def unmarshal_agent_marshal)
  then have view: "redis_view (map_of (lab_store (a # as))) =
      \<lparr>v_agents = map_of (map (\<lambda>a. (ID a, a)) (a # as)), v_funcs = Map.empty, v_codes = Map.empty, v_execs = Map.empty\<rparr>"
    unfolding j(2) redis_view_put IH(1) by simp
  have "decodable (map_of (lab_store (a # as)))"
    unfolding j(2) by (rule decodable_update(1) [OF IH(2) j(1)])
  moreover have "keyed (redis_view (map_of (lab_store (a # as))))"
    unfolding view by (auto simp: keyed_def dest: map_of_SomeD split: if_splits)
  ultimately show ?case by (intro conjI view)
qed

lemma lab_agent_ok: "agent_json_ok (lab_agent i st)"
  by (simp add: agent_json_ok_def lab_agent_def sample_agent_def sample_status_def time_json_ok_def)

lemma lab_stored:
  "redis_view (map_of (lab_store [lab_agent i st])) =
     \<lparr>v_agents = [i \<mapsto> lab_agent i st], v_funcs = Map.empty, v_codes = Map.empty, v_execs = Map.empty\<rparr>"
  "decodable (map_of (lab_store [lab_agent i st]))"
  using lab_stores [of "[lab_agent i st]"] lab_agent_ok by auto

lemma lab_keyed: "keyed (redis_view (map_of (lab_store [lab_agent i st])))"
  by (simp add: lab_stored keyed_def)

end
