(* ===== verification/Autoscaler_Claims.thy ===== *)
theory Autoscaler_Claims imports Autoscaler_Safety begin

text \<open>
  The properties of the autoscaler: when it decides, the bounds and cooldowns it keeps, what a
  scale-down picks, how a drain ends, and four behaviours at which its bounds end.
\<close>

section \<open>Properties\<close>

text \<open>
  C2. The autoscaler decides to scale up exactly when its provider has an online agent and every
  such agent has a history whose oldest sample is at least one window old and all of whose samples
  are high; down exactly when in the same situation not all agents are high and all samples of
  all agents are low.
\<close>

theorem scale_decision:
  "(shouldScale E now s = ScaleDirectionUp \<longleftrightarrow>
      scaled_agents E (store s) \<noteq> [] \<and>
      (\<forall>ag \<in> set (scaled_agents E (store s)). spans (cfg E) (pressureHistory (scaler s)) now ag \<and>
         all_samples (sample_high (cfg E)) (pressureHistory (scaler s)) ag)) \<and>
   (shouldScale E now s = ScaleDirectionDown \<longleftrightarrow>
      scaled_agents E (store s) \<noteq> [] \<and>
      (\<exists>ag \<in> set (scaled_agents E (store s)).
         \<not> all_samples (sample_high (cfg E)) (pressureHistory (scaler s)) ag) \<and>
      (\<forall>ag \<in> set (scaled_agents E (store s)). spans (cfg E) (pressureHistory (scaler s)) now ag \<and>
         all_samples (sample_low (cfg E)) (pressureHistory (scaler s)) ag))"
  by (auto simp: shouldScale_eq Let_def)

theorem scale_decision_witness:
  "list_all (all_samples (sample_high (cfg lab_env))
       (pressureHistory (scaler (lab_state [lab_agent ''a1'' AgentOnline] (lab_history (Fin 95) (Fin 10))))))
     (scaled_agents lab_env (store (lab_state [lab_agent ''a1'' AgentOnline] (lab_history (Fin 95) (Fin 10)))))"
proof -
  have "shouldScale lab_env (60 * 10 ^ 9)
      (lab_state [lab_agent ''a1'' AgentOnline] (lab_history (Fin 95) (Fin 10))) = ScaleDirectionUp"
    by code_simp
  then show ?thesis unfolding list_all_iff using scale_decision by blast
qed

text \<open>
  C1. On a store in service a whole poll, with its status updates and at most one scaling step,
  starts at most one background job and never raises the number of nodes of its provider above
  \<open>max_nodes\<close>, whatever agents and cloud answer; the store stays in service.
\<close>

theorem poll_keeps_max_nodes:
  assumes "redis_in_service R kv live" and "registry E = RedisMemory R"
    and "live (store s)" and "decodable (kv (store s))" and "keyed (redis_view (kv (store s)))"
  shows "int (card (managed_ids (cp_Name (provider E)) (redis_view (kv (store (poll E now eval since stamp s)))))) \<le>
      max (int (card (managed_ids (cp_Name (provider E)) (redis_view (kv (store s)))))) (MaxNodes (cfg E)) \<and>
    length (jobs (poll E now eval since stamp s)) \<le> length (jobs s) + 1 \<and>
    live (store (poll E now eval since stamp s)) \<and> decodable (kv (store (poll E now eval since stamp s))) \<and>
    keyed (redis_view (kv (store (poll E now eval since stamp s))))"
  using memory_in_service.poll_serving [OF redis_in_service.redis_memory_in_service [OF assms(1)] _ assms(2), of s]
    assms(3-5) by (simp add: serving_def)

theorem poll_keeps_max_nodes_witness:
  "int (card (managed_ids ''aws'' (redis_view (map_of (store (poll lab_env 0 0 0 0
     (lab_state [lab_agent ''a1'' AgentOnline] []))))))) \<le> 10"
proof -
  let ?s = "lab_state [lab_agent ''a1'' AgentOnline] []"
  have "managed_ids ''aws'' (redis_view (map_of (store ?s))) = {''a1''}"
    by (auto simp: lab_stored managed_ids_def)
  then show ?thesis
    using poll_keeps_max_nodes [OF alist.redis_in_service_axioms, of lab_env ?s 0 0 0 0] lab_keyed
    by (simp add: lab_stored)
qed

text \<open>
  C29. Both directions respect their cooldown: a call of \<open>tryScaleUp\<close> or of the scale-down branch
  either changes nothing or comes at least the cooldown after the last stamp of its direction and
  leaves its own stamp.
\<close>

theorem cooldown_respected:
  "(tryScaleUp E since stamp s = s \<or>
     seconds (CooldownSec (cfg E)) \<le> time_sub since (lastScaleUp (scaler s)) \<and>
     lastScaleUp (scaler (tryScaleUp E since stamp s)) = stamp) \<and>
   (scaleDown E since stamp s = s \<or>
     seconds (CooldownSec (cfg E)) \<le> time_sub since (lastScaleDown (scaler s)) \<and>
     lastScaleDown (scaler (scaleDown E since stamp s)) = stamp)"
proof
  show "tryScaleUp E since stamp s = s \<or>
     seconds (CooldownSec (cfg E)) \<le> time_sub since (lastScaleUp (scaler s)) \<and>
     lastScaleUp (scaler (tryScaleUp E since stamp s)) = stamp"
  proof (cases rule: tryScaleUp_cases [of E since stamp s])
    case grow
    have "lastScaleUp (scaler (spawnNode E now res s)) = lastScaleUp (scaler s)" for now res and s :: "('a, 'b) scale_state"
      by (auto simp: spawnNode_def clear_history_def Let_def split: sum.splits prod.splits)
    then show ?thesis using grow(1,3) by simp
  qed auto
  show "scaleDown E since stamp s = s \<or>
     seconds (CooldownSec (cfg E)) \<le> time_sub since (lastScaleDown (scaler s)) \<and>
     lastScaleDown (scaler (scaleDown E since stamp s)) = stamp"
    by (cases rule: scaleDown_cases [of E since stamp s]) (auto simp: clear_history_def)
qed

text \<open>
  C4. A scale-down on a store in service picks a node of its own provider that has no active task
  and is not draining, with no such node under less pressure, only above \<open>min_nodes\<close> and after the
  cooldown; it marks exactly that node draining and starts its drain.
\<close>

theorem scale_down_target:
  assumes "redis_in_service R kv live" and "registry E = RedisMemory R"
    and "live (store s)" and "decodable (kv (store s))" and "keyed (redis_view (kv (store s)))"
    and "shouldScale E eval s = ScaleDirectionDown"
    and "jobs (checkAndTriggerScale E eval since stamp s) \<noteq> jobs s"
  shows "seconds (CooldownSec (cfg E)) \<le> time_sub since (lastScaleDown (scaler s)) \<and>
    MinNodes (cfg E) < int (card (managed_ids (cp_Name (provider E)) (redis_view (kv (store s))))) \<and>
    (\<exists>t. v_agents (redis_view (kv (store s))) (ID t) = Some t \<and> Provider t = cp_Name (provider E) \<and> idle t \<and>
       (\<forall>i a. v_agents (redis_view (kv (store s))) i = Some a \<and> Provider a = cp_Name (provider E) \<and> idle a \<longrightarrow>
          \<not> flt (Pressure a) (Pressure t)) \<and>
       v_agents (redis_view (kv (store (checkAndTriggerScale E eval since stamp s)))) (ID t) =
         Some (t\<lparr>Status := AgentDraining\<rparr>) \<and>
       jobs (checkAndTriggerScale E eval since stamp s) =
         jobs s @ [DrainJob (ID t) (Address t) (ProviderID t)])"
  using memory_in_service.scaleDown_target
    [OF redis_in_service.redis_memory_in_service [OF assms(1)] _ assms(2), of s since stamp] assms(3-7)
  by (simp add: serving_def checkAndTriggerScale_def)

definition lab_min0 :: "((string \<times> bytes) list, (string, string list) client_state) scaler_env" where
  "lab_min0 = lab_env\<lparr>cfg := (cfg lab_env)\<lparr>MinNodes := 0\<rparr>\<rparr>"

theorem scale_down_target_witness:
  "\<exists>t :: agent. jobs (checkAndTriggerScale lab_min0 (60 * 10 ^ 9) 0 0
       (lab_state [lab_agent ''a1'' AgentOnline] (lab_history (Fin 5) (Fin 5)))) =
     [DrainJob (ID t) (Address t) (ProviderID t)] \<and> ID t = ''a1''"
proof -
  let ?s = "lab_state [lab_agent ''a1'' AgentOnline] (lab_history (Fin 5) (Fin 5))"
  have st: "registry lab_min0 = RedisMemory alist_redis" "store ?s = lab_store [lab_agent ''a1'' AgentOnline]"
    "jobs ?s = []"
    by (simp_all add: lab_min0_def lab_env_def lab_state_def)
  have down: "shouldScale lab_min0 (60 * 10 ^ 9) ?s = ScaleDirectionDown" by code_simp
  have job: "jobs (checkAndTriggerScale lab_min0 (60 * 10 ^ 9) 0 0 ?s) \<noteq> jobs ?s" by code_simp
  from scale_down_target [OF alist.redis_in_service_axioms st(1) _ _ _ down job] obtain t where
    "v_agents (redis_view (map_of (store ?s))) (ID t) = Some t"
    "jobs (checkAndTriggerScale lab_min0 (60 * 10 ^ 9) 0 0 ?s) = jobs ?s @ [DrainJob (ID t) (Address t) (ProviderID t)]"
    unfolding st(2) using lab_keyed lab_stored(2) by blast
  moreover from this(1) have "t = lab_agent ''a1'' AgentOnline" by (simp add: st lab_stored split: if_splits)
  ultimately show ?thesis unfolding st by (intro exI [of _ t] conjI) simp_all
qed

text \<open>
  C10. A drain ends: the loop sees its deadline after finitely many ticks of its ticker, and then, as
  long as the server is not shutting down, exactly its agent's record is gone from a store in
  service and the cloud has been asked, once and for the drained node, to terminate it.  No other
  instance is touched, and when the cloud reports no error exactly that node has stopped running.
\<close>

theorem drain_finishes:
  assumes "redis_in_service R kv live" and "registry E = RedisMemory R"
    and "live (store s)" and "decodable (kv (store s))" and "keyed (redis_view (kv (store s)))"
    and "cloud_contract (provider E) running"
    and "\<And>a w. running (snd (GetNodeStatusOf (agentClient E) a w)) = running w"
  shows "\<exists>out w s'.
    drain_loop (agentClient E) (probe_agent addr) (replicate n DrainTick @ [DeadlineExceeded]) (world s) = (Some out, w) \<and>
    drainAndTerminate E (replicate n DrainTick @ [DeadlineExceeded]) i addr pid s = Some s' \<and>
    v_agents (redis_view (kv (store s'))) = (v_agents (redis_view (kv (store s))))(i := None) \<and>
    world s' = snd (TerminateNode (provider E) pid w) \<and>
    running (world s) - {pid} \<subseteq> running (world s') \<and> running (world s') \<subseteq> running (world s) \<and>
    (fst (TerminateNode (provider E) pid w) = None \<longrightarrow> running (world s') = running (world s) - {pid})"
proof -
  let ?es = "replicate n DrainTick @ [DeadlineExceeded]"
  obtain out w where run: "drain_loop (agentClient E) (probe_agent addr) ?es (world s) = (Some out, w)"
    using drain_ends [of "agentClient E" "probe_agent addr" n "[]" "world s"] by auto
  have "out \<noteq> Aborted" by (rule drain_not_aborted [OF run]) simp
  then obtain s' where s': "drainAndTerminate E ?es i addr pid s = Some s'"
    using run by (cases out) (simp_all add: drainAndTerminate_def)
  have "serving (\<lambda>r. redis_view (kv r)) (\<lambda>r. live r \<and> decodable (kv r)) s"
    using assms(3-5) by (simp add: serving_def)
  from memory_in_service.drain_serving [OF redis_in_service.redis_memory_in_service [OF assms(1)] this assms(2) s']
  have st: "v_agents (redis_view (kv (store s'))) = (v_agents (redis_view (kv (store s))))(i := None)"
    and w: "world s' = snd (TerminateNode (provider E) pid w)" using run by auto
  have same: "running w = running (world s)"
    using drain_loop_frame [of running "agentClient E" "probe_agent addr" ?es "world s"] assms(7) run by simp
  obtain e w1 where t: "TerminateNode (provider E) pid w = (e, w1)" by fastforce
  have "running w - {pid} \<subseteq> running w1 \<and> running w1 \<subseteq> running w \<and> (e = None \<longrightarrow> running w1 = running w - {pid})"
    using cloud_contract.terminate_bounds [OF assms(6) t] cloud_contract.terminate_ok [OF assms(6)] t by blast
  then show ?thesis using run s' st w same t by (intro exI [of _ out] exI [of _ w] exI [of _ s']) simp
qed

theorem drain_finishes_witness:
  "\<exists>w s'. drainAndTerminate lab_env (replicate 60 DrainTick @ [DeadlineExceeded]) ''a1'' ''10.0.0.1:50052'' ''a1''
       (lab_state [lab_agent ''a1'' AgentDraining] []) = Some s' \<and>
     v_agents (redis_view (map_of (store s'))) ''a1'' = None \<and> world s' = snd (TerminateNode (provider lab_env) ''a1'' w)"
proof -
  let ?s = "lab_state [lab_agent ''a1'' AgentDraining] []"
  have cloud: "cloud_contract (provider lab_env) (\<lambda>s. set (net s))"
    using lab.cloud_contract_axioms by (simp add: lab_env_def)
  show ?thesis
    using drain_finishes [OF alist.redis_in_service_axioms _ _ _ _ cloud, of ?s "''10.0.0.1:50052''" 60 "''a1''" "''a1''"]
      lab_keyed lab_stored(2) by (auto simp: lab_poll_running)
qed

text \<open>
  C37. The history kept by a poll reaches back at most one window, while a decision needs samples
  that span one: on a store in service, with a positive window, the loop of a poll at \<open>now\<close> followed
  by an evaluation at \<open>eval\<close> leaves the neutral decision only when every online agent of the provider
  has a sample that was at most a window old at \<open>now\<close> and is at least a window old at \<open>eval\<close>: a sample
  taken in an interval no longer than the poll itself took, a window earlier.
\<close>

theorem decision_needs_sample_at_window:
  assumes "redis_in_service R kv live" and "registry E = RedisMemory R"
    and "live (store s)" and "decodable (kv (store s))" and "keyed (redis_view (kv (store s)))"
    and "0 < seconds (EvaluationWindowSec (cfg E))" and "seconds (EvaluationWindowSec (cfg E)) < 2 ^ 63 - 1"
    and "s1 = fold (poll_agent E now) (reg_GetAllAgents (registry E) (store s)) s"
    and "shouldScale E eval s1 \<noteq> ScaleDirectionNeutral"
  shows "scaled_agents E (store s1) \<noteq> [] \<and>
    (\<forall>ag \<in> set (scaled_agents E (store s1)). \<exists>h smp. pressureHistory (scaler s1) (ID ag) = Some h \<and> smp \<in> set h \<and>
       now - seconds (EvaluationWindowSec (cfg E)) \<le> sampled_at smp \<and>
       sampled_at smp \<le> eval - seconds (EvaluationWindowSec (cfg E)))"
proof -
  let ?w = "seconds (EvaluationWindowSec (cfg E))"
  have serving: "serving (\<lambda>r. redis_view (kv r)) (\<lambda>r. live r \<and> decodable (kv r)) s"
    using assms(3-5) by (simp add: serving_def)
  note kept = memory_in_service.polled_trimmed
    [OF redis_in_service.redis_memory_in_service [OF assms(1)] serving assms(2), where now = now, folded assms(2), folded assms(8)]
  have "\<exists>h smp. pressureHistory (scaler s1) (ID ag) = Some h \<and> smp \<in> set h \<and>
      now - ?w \<le> sampled_at smp \<and> sampled_at smp \<le> eval - ?w"
    if ag: "ag \<in> set (scaled_agents E (store s1))" for ag
  proof -
    have "spans (cfg E) (pressureHistory (scaler s1)) eval ag"
      using ag assms(9) by (auto simp: shouldScale_eq Let_def split: if_splits)
    then obtain smp ss where h: "pressureHistory (scaler s1) (ID ag) = Some (smp # ss)"
      "?w \<le> time_sub eval (sampled_at smp)" by (auto simp: spans_def)
    then have "time_sub now (sampled_at smp) \<le> ?w" using kept [OF ag] by (simp add: trimmed_def)
    then have "now - ?w \<le> sampled_at smp" using time_sub_le_iff assms(6,7) by simp
    moreover have "sampled_at smp \<le> eval - ?w" using h(2) time_sub_ge_iff assms(6,7) by simp
    ultimately show ?thesis using h(1) by auto
  qed
  moreover have "scaled_agents E (store s1) \<noteq> []"
    using assms(9) by (auto simp: shouldScale_eq Let_def split: if_splits)
  ultimately show ?thesis by blast
qed

text \<open>
  A minute after the first sample, a poll that takes a millisecond: the autoscaler decides, on the
  sample of the first poll.
\<close>

theorem decision_needs_sample_at_window_witness:
  "\<exists>h smp. pressureHistory (scaler (fold (poll_agent lab_env (60 * 10 ^ 9)) [lab_agent ''a1'' AgentOnline]
      (lab_state [lab_agent ''a1'' AgentOnline] (lab_history (Fin 5) (Fin 5))))) ''a1'' = Some h \<and> smp \<in> set h \<and>
     0 \<le> sampled_at smp \<and> sampled_at smp \<le> 10 ^ 6"
proof -
  let ?s = "lab_state [lab_agent ''a1'' AgentOnline] (lab_history (Fin 5) (Fin 5))"
  let ?s1 = "fold (poll_agent lab_env (60 * 10 ^ 9)) (reg_GetAllAgents (registry lab_env) (store ?s)) ?s"
  have w: "seconds (EvaluationWindowSec (cfg lab_env)) = 60 * 10 ^ 9"
    by (simp add: lab_env_def sample_autoscale_def seconds_small)
  have all: "reg_GetAllAgents (registry lab_env) (store ?s) = [lab_agent ''a1'' AgentOnline]" by code_simp
  have down: "shouldScale lab_env (60 * 10 ^ 9 + 10 ^ 6) ?s1 \<noteq> ScaleDirectionNeutral" by code_simp
  have ag: "map ID (scaled_agents lab_env (store ?s1)) = [''a1'']" by code_simp
  have "scaled_agents lab_env (store ?s1) \<noteq> [] \<and>
    (\<forall>ag \<in> set (scaled_agents lab_env (store ?s1)). \<exists>h smp. pressureHistory (scaler ?s1) (ID ag) = Some h \<and> smp \<in> set h \<and>
       60 * 10 ^ 9 - seconds (EvaluationWindowSec (cfg lab_env)) \<le> sampled_at smp \<and>
       sampled_at smp \<le> 60 * 10 ^ 9 + 10 ^ 6 - seconds (EvaluationWindowSec (cfg lab_env)))"
    by (rule decision_needs_sample_at_window [OF alist.redis_in_service_axioms _ _ _ _ _ _ refl down])
      (simp_all add: lab_stored keyed_def w)
  then show ?thesis using ag unfolding all w by (auto simp: map_eq_Cons_conv)
qed

section \<open>Where the bounds end\<close>

text \<open>
  C38. A node that is still draining can be chosen for replacement again once the cooldown is over.
  With as many nodes as \<open>max_nodes\<close> of which one can be replaced, two scale-ups a cooldown apart
  start two replacements of the same node; when both have launched their nodes the provider has
  one node more than \<open>max_nodes\<close>.
\<close>

theorem replacement_exceeds_max_nodes:
  assumes "redis_in_service R kv live" and "registry E = RedisMemory R"
    and "live (store s)" and "decodable (kv (store s))" and "keyed (redis_view (kv (store s)))"
    and "int (card (managed_ids (cp_Name (provider E)) (redis_view (kv (store s))))) = MaxNodes (cfg E)"
    and "v_agents (redis_view (kv (store s))) (ID c) = Some c" and "Provider c = cp_Name (provider E)"
    and "replaceable (cfg E) c"
    and "\<And>i a. v_agents (redis_view (kv (store s))) i = Some a \<Longrightarrow> Provider a = cp_Name (provider E) \<Longrightarrow>
      replaceable (cfg E) a \<Longrightarrow> i = ID c"
    and "seconds (CooldownSec (cfg E)) \<le> time_sub since (lastScaleUp (scaler s))"
    and "seconds (CooldownSec (cfg E)) \<le> time_sub since' stamp"
    and "s1 = tryScaleUp E since stamp s" and "s2 = tryScaleUp E since' stamp' s1"
    and "J = ReplaceJob (ID c) (Address c) (ProviderID c) (largestNodeResources (NodeTypes (cfg E)))"
    and "run_job E es t J s2 = Some s3" and "run_job E es' t' J s3 = Some s4"
    and "ParentCanceled \<notin> set es" and "ParentCanceled \<notin> set es'" and "time_json_ok t" and "time_json_ok t'"
    and "jobs s3 = jobs s2 @ [BootstrapJob n]" and "jobs s4 = jobs s3 @ [BootstrapJob n']"
    and "pn_AgentID n \<noteq> pn_AgentID n'"
    and "{pn_AgentID n, pn_AgentID n'} \<inter> managed_ids (cp_Name (provider E)) (redis_view (kv (store s))) = {}"
  shows "jobs s2 = jobs s @ [J, J] \<and>
    int (card (managed_ids (cp_Name (provider E)) (redis_view (kv (store s4))))) = MaxNodes (cfg E) + 1"
proof -
  let ?p = "cp_Name (provider E)" and ?v = "\<lambda>s. redis_view (kv (store s))"
  let ?c = "c\<lparr>Status := AgentDraining\<rparr>"
  note mem = redis_in_service.redis_memory_in_service [OF assms(1)]
  have sv: "serving (\<lambda>r. redis_view (kv r)) (\<lambda>r. live r \<and> decodable (kv r)) s"
    using assms(3-5) by (simp add: serving_def)
  have full: "MaxNodes (cfg E) \<le> int (card (managed_ids ?p (?v s)))" using assms(6) by simp
  have "jobs s1 = jobs s @ [J] \<and> ?v s1 = ?v s\<lparr>v_agents := (v_agents (?v s))(ID c \<mapsto> ?c)\<rparr> \<and>
      lastScaleUp (scaler s1) = stamp \<and> serving (\<lambda>r. redis_view (kv r)) (\<lambda>r. live r \<and> decodable (kv r)) s1"
    unfolding assms(13,15) by (rule memory_in_service.tryScaleUp_replaces [OF mem sv assms(2,11) full assms(7-10)])
  then have s1: "jobs s1 = jobs s @ [J]" "?v s1 = ?v s\<lparr>v_agents := (v_agents (?v s))(ID c \<mapsto> ?c)\<rparr>"
    "lastScaleUp (scaler s1) = stamp" "serving (\<lambda>r. redis_view (kv r)) (\<lambda>r. live r \<and> decodable (kv r)) s1" by simp_all
  have ids: "managed_ids ?p (?v s1) = managed_ids ?p (?v s)"
    using assms(7,8) unfolding s1(2) by (auto simp: managed_ids_def)
  have only: "i = ID ?c" if "v_agents (?v s1) i = Some a" "Provider a = ?p" "replaceable (cfg E) a" for i a
    using that assms(10) unfolding s1(2) by (auto split: if_splits)
  have ready: "seconds (CooldownSec (cfg E)) \<le> time_sub since' (lastScaleUp (scaler s1))" using assms(12) s1(3) by simp
  have here: "v_agents (?v s1) (ID ?c) = Some ?c" using s1(2) by simp
  have "jobs s2 = jobs s1 @ [ReplaceJob (ID ?c) (Address ?c) (ProviderID ?c) (largestNodeResources (NodeTypes (cfg E)))] \<and>
      ?v s2 = ?v s1\<lparr>v_agents := (v_agents (?v s1))(ID ?c \<mapsto> ?c\<lparr>Status := AgentDraining\<rparr>)\<rparr> \<and>
      lastScaleUp (scaler s2) = stamp' \<and> serving (\<lambda>r. redis_view (kv r)) (\<lambda>r. live r \<and> decodable (kv r)) s2"
    unfolding assms(14)
    by (rule memory_in_service.tryScaleUp_replaces [OF mem s1(4) assms(2) ready full [folded ids] here _ _ only])
      (use assms(8,9) in \<open>simp_all add: replaceable_def\<close>)
  then have s2: "jobs s2 = jobs s @ [J, J]" "?v s2 = ?v s1"
    "serving (\<lambda>r. redis_view (kv r)) (\<lambda>r. live r \<and> decodable (kv r)) s2"
    using s1(1,2) assms(15) by simp_all
  note r3 = memory_in_service.replace_serving [OF mem s2(3) assms(2,18,20) assms(16) [unfolded assms(15)] assms(22)]
  note r4 = memory_in_service.replace_serving [OF mem conjunct1 [OF r3] assms(2,19,21) assms(17) [unfolded assms(15)] assms(23)]
  have c: "ID c \<in> managed_ids ?p (?v s)" using assms(7,8) by (auto simp: managed_ids_def)
  have fin: "finite (managed_ids ?p (?v s))"
    using memory_in_service.managed_length(2) [OF mem _ assms(2), of s] sv by (simp add: serving_def)
  have "managed_ids ?p (?v s4) = insert (pn_AgentID n') (insert (pn_AgentID n) (managed_ids ?p (?v s) - {ID c}))"
    using r3 r4 s2(2) ids c assms(25) by auto
  moreover have "card (managed_ids ?p (?v s) - {ID c}) + 1 = card (managed_ids ?p (?v s))"
    using c fin by (metis Suc_eq_plus1 card_Suc_Diff1)
  ultimately show ?thesis using s2(1) fin assms(6,24,25) by auto
qed

text \<open>
  Two nodes, one of each instance type, the smaller idle and out of reach, so that its drain lasts
  to the deadline; a cooldown of a minute.
\<close>

definition lab_far :: "(unit, string, string list) grpc" where
  "lab_far = echo_grpc\<lparr>stub_ReportNodeStatus := \<lambda>addr _ w.
     if addr = ''10.0.0.1:50052'' then (Inl ''unavailable'', w) else (Inr (echo_report addr), w)\<rparr>"

definition lab_full :: "((string \<times> bytes) list, (string, string list) client_state) scaler_env" where
  "lab_full = lab_env\<lparr>agentClient := AgentClient lab_far linux (None :: (unit, unit) pki option),
     cfg := (cfg lab_env)\<lparr>MaxNodes := 2, CooldownSec := 60\<rparr>\<rparr>"

definition lab_fleet :: "agent list" where
  "lab_fleet =
     [lab_agent ''a1'' AgentOnline,
      (lab_agent ''a2'' AgentOnline)\<lparr>Address := ''10.0.0.2:50052'', InstanceType := ''m5.xlarge'', ActiveCount := 4\<rparr>]"

definition lab_wait :: "drain_event list" where
  "lab_wait = replicate 59 DrainTick @ [DeadlineExceeded]"

definition lab_replace :: scale_job where
  "lab_replace = ReplaceJob ''a1'' ''10.0.0.1:50052'' ''a1'' (largestNodeResources sample_types)"

definition lab_node :: "string \<Rightarrow> ProvisionedNode" where
  "lab_node i = \<lparr>pn_ProviderID = i, pn_AgentID = ''auto-'' @ i, pn_InstanceType = ''c5.large'',
     PublicIP = ''10.0.0.2'', PrivateIP = ''10.0.0.2''\<rparr>"

text \<open>Scale-ups at ten and at eleven minutes; the drains end five minutes after each.\<close>

theorem replacement_exceeds_max_nodes_witness:
  "\<exists>s3 s4. run_job lab_full lab_wait (900 * 10 ^ 9) lab_replace
       (tryScaleUp lab_full (660 * 10 ^ 9) (660 * 10 ^ 9)
         (tryScaleUp lab_full (600 * 10 ^ 9) (600 * 10 ^ 9) (lab_state lab_fleet []))) = Some s3 \<and>
     run_job lab_full lab_wait (960 * 10 ^ 9) lab_replace s3 = Some s4 \<and>
     card (managed_ids ''aws'' (redis_view (map_of (store s4)))) = 3 \<and> MaxNodes (cfg lab_full) = 2"
proof -
  let ?s = "lab_state lab_fleet []"
  let ?s1 = "tryScaleUp lab_full (600 * 10 ^ 9) (600 * 10 ^ 9) ?s"
  let ?s2 = "tryScaleUp lab_full (660 * 10 ^ 9) (660 * 10 ^ 9) ?s1"
  let ?J = "ReplaceJob (ID (lab_agent ''a1'' AgentOnline)) (Address (lab_agent ''a1'' AgentOnline))
    (ProviderID (lab_agent ''a1'' AgentOnline)) (largestNodeResources (NodeTypes (cfg lab_full)))"
  have J: "lab_replace = ?J"
    by (simp add: lab_replace_def lab_agent_def sample_agent_def lab_full_def lab_env_def sample_autoscale_def)
  have "\<forall>a \<in> set lab_fleet. agent_json_ok a"
    using lab_agent_ok by (simp add: lab_fleet_def agent_json_ok_def lab_agent_def sample_agent_def)
  note stored = lab_stores [OF this]
  have ids: "managed_ids ''aws'' (redis_view (map_of (lab_store lab_fleet))) = {''a1'', ''a2''}"
    using stored by (auto simp: managed_ids_def lab_fleet_def)
  have env: "registry lab_full = RedisMemory alist_redis" "cp_Name (provider lab_full) = ''aws''"
    "MaxNodes (cfg lab_full) = 2" "seconds (CooldownSec (cfg lab_full)) = 60 * 10 ^ 9"
    by (simp_all add: lab_full_def seconds_small)
  have fit: "replaceable (cfg lab_full) (lab_agent ''a1'' AgentOnline)" by code_simp
  have big: "\<not> replaceable (cfg lab_full)
      ((lab_agent ''a2'' AgentOnline)\<lparr>Address := ''10.0.0.2:50052'', InstanceType := ''m5.xlarge'', ActiveCount := 4\<rparr>)"
    by code_simp
  have "map_option jobs (run_job lab_full lab_wait (900 * 10 ^ 9) ?J ?s2) =
      Some (jobs ?s2 @ [BootstrapJob (lab_node ''i-a2'')])" by code_simp
  then obtain s3 where s3: "run_job lab_full lab_wait (900 * 10 ^ 9) ?J ?s2 = Some s3"
    "jobs s3 = jobs ?s2 @ [BootstrapJob (lab_node ''i-a2'')]" by auto
  have "map_option jobs (Option.bind (run_job lab_full lab_wait (900 * 10 ^ 9) ?J ?s2)
      (run_job lab_full lab_wait (960 * 10 ^ 9) ?J)) =
      Some (jobs ?s2 @ [BootstrapJob (lab_node ''i-a2''), BootstrapJob (lab_node ''i-i-a2a2'')])" by code_simp
  then obtain s4 where s4: "run_job lab_full lab_wait (960 * 10 ^ 9) ?J s3 = Some s4"
    "jobs s4 = jobs s3 @ [BootstrapJob (lab_node ''i-i-a2a2'')]" using s3 by auto
  have view: "v_agents (redis_view (map_of (store ?s))) = map_of (map (\<lambda>a. (ID a, a)) lab_fleet)"
    using stored by simp
  have serv: "decodable (map_of (store ?s))" "keyed (redis_view (map_of (store ?s)))"
    unfolding lab_simps(5) using stored by blast+
  have a1: "v_agents (redis_view (map_of (store ?s))) (ID (lab_agent ''a1'' AgentOnline)) = Some (lab_agent ''a1'' AgentOnline)"
    unfolding view by (simp add: lab_fleet_def)
  have one: "i = ID (lab_agent ''a1'' AgentOnline)"
    if "v_agents (redis_view (map_of (store ?s))) i = Some a" "replaceable (cfg lab_full) a" for i a
    using that big unfolding view by (auto simp: lab_fleet_def split: if_splits)
  have card: "int (card (managed_ids (cp_Name (provider lab_full)) (redis_view (map_of (store ?s))))) = MaxNodes (cfg lab_full)"
    using ids env by simp
  have fresh: "{pn_AgentID (lab_node ''i-a2''), pn_AgentID (lab_node ''i-i-a2a2'')} \<inter>
      managed_ids (cp_Name (provider lab_full)) (redis_view (map_of (store ?s))) = {}"
    using ids env by (simp add: lab_node_def)
  have cool: "seconds (CooldownSec (cfg lab_full)) \<le> time_sub (600 * 10 ^ 9) (lastScaleUp (scaler ?s))"
    "seconds (CooldownSec (cfg lab_full)) \<le> time_sub (660 * 10 ^ 9) (600 * 10 ^ 9)"
    unfolding env by (simp_all add: time_sub_def lab_state_def zero_time_def)
  have wait: "ParentCanceled \<notin> set lab_wait" by (simp add: lab_wait_def)
  have ok: "time_json_ok (900 * 10 ^ 9)" "time_json_ok (960 * 10 ^ 9)" by (simp_all add: time_json_ok_def)
  have ne: "pn_AgentID (lab_node ''i-a2'') \<noteq> pn_AgentID (lab_node ''i-i-a2a2'')" by (simp add: lab_node_def)
  have prov: "Provider (lab_agent ''a1'' AgentOnline) = cp_Name (provider lab_full)" using env by simp
  have "jobs ?s2 = jobs ?s @ [?J, ?J] \<and>
    int (card (managed_ids (cp_Name (provider lab_full)) (redis_view (map_of (store s4))))) = MaxNodes (cfg lab_full) + 1"
    by (rule replacement_exceeds_max_nodes [OF alist.redis_in_service_axioms env(1) TrueI serv card a1 prov fit
          one cool refl refl refl s3(1) s4(1) wait wait ok s3(2) s4(2) ne fresh])
  then have "card (managed_ids ''aws'' (redis_view (map_of (store s4)))) = 3" unfolding env by simp
  then show ?thesis unfolding J using s3(1) s4(1) env(3) by blast
qed

text \<open>
  C39. A scale-down starts a drain exactly when its cooldown is over, the provider has more than
  \<open>min_nodes\<close> nodes and one of them has no active task and is not draining.  The nodes that are
  still draining count for the minimum, so a drain always leaves one node fewer in service: with
  others draining, fewer than \<open>min_nodes\<close> may remain.
\<close>

theorem scale_down_counts_draining:
  assumes "redis_in_service R kv live" and "registry E = RedisMemory R"
    and "live (store s)" and "decodable (kv (store s))" and "keyed (redis_view (kv (store s)))"
  shows "(jobs (scaleDown E since stamp s) \<noteq> jobs s \<longleftrightarrow>
      seconds (CooldownSec (cfg E)) \<le> time_sub since (lastScaleDown (scaler s)) \<and>
      MinNodes (cfg E) < int (card (managed_ids (cp_Name (provider E)) (redis_view (kv (store s))))) \<and>
      (\<exists>i a. v_agents (redis_view (kv (store s))) i = Some a \<and> Provider a = cp_Name (provider E) \<and>
         sint (ActiveCount a) \<le> 0 \<and> Status a \<noteq> AgentDraining)) \<and>
    (jobs (scaleDown E since stamp s) \<noteq> jobs s \<longrightarrow>
      managed_ids (cp_Name (provider E)) (redis_view (kv (store (scaleDown E since stamp s)))) =
        managed_ids (cp_Name (provider E)) (redis_view (kv (store s))) \<and>
      card (active_ids (cp_Name (provider E)) (redis_view (kv (store (scaleDown E since stamp s))))) + 1 =
        card (active_ids (cp_Name (provider E)) (redis_view (kv (store s)))))"
proof -
  note mem = redis_in_service.redis_memory_in_service [OF assms(1)]
  have sv: "serving (\<lambda>r. redis_view (kv r)) (\<lambda>r. live r \<and> decodable (kv r)) s"
    using assms(3-5) by (simp add: serving_def)
  have idle: "idle a \<longleftrightarrow> sint (ActiveCount a) \<le> 0 \<and> Status a \<noteq> AgentDraining" for a
    by (auto simp: idle_def word_sless_alt)
  show ?thesis
    using memory_in_service.scaleDown_iff [OF mem sv assms(2), of since stamp]
      memory_in_service.scaleDown_active [OF mem sv assms(2), of since stamp]
    unfolding idle by blast
qed

text \<open>
  The second scale-down of a fleet of two, a minute after the first: the node drained first is
  still draining, the other has been idle for a whole window.
\<close>

definition lab_shrink :: "((string \<times> bytes) list, (string, string list) client_state) scaler_env" where
  "lab_shrink = lab_env\<lparr>cfg := (cfg lab_env)\<lparr>CooldownSec := 60\<rparr>\<rparr>"

definition lab_shrinking :: "((string \<times> bytes) list, (string, string list) client_state) scale_state" where
  "lab_shrinking = (lab_state [lab_agent ''a1'' AgentOnline, lab_agent ''a2'' AgentDraining] [])
     \<lparr>scaler := \<lparr>pressureHistory = [''a1'' \<mapsto>
          [\<lparr>cpuPercent = Fin 5, memPercent = Fin 5, sampled_at = 10 * 10 ^ 9\<rparr>,
           \<lparr>cpuPercent = Fin 5, memPercent = Fin 5, sampled_at = 70 * 10 ^ 9\<rparr>]],
        lastScaleUp = zero_time, lastScaleDown = 10 * 10 ^ 9\<rparr>,
      jobs := [DrainJob ''a2'' ''10.0.0.1:50052'' ''a2'']\<rparr>"

theorem scale_down_counts_draining_witness:
  "shouldScale lab_shrink (70 * 10 ^ 9 + 10 ^ 6) lab_shrinking = ScaleDirectionDown \<and>
   card (active_ids ''aws'' (redis_view (map_of (store
     (scaleDown lab_shrink (70 * 10 ^ 9 + 10 ^ 6) (70 * 10 ^ 9 + 10 ^ 6) lab_shrinking))))) = 0 \<and>
   MinNodes (cfg lab_shrink) = 1"
proof -
  have down: "shouldScale lab_shrink (70 * 10 ^ 9 + 10 ^ 6) lab_shrinking = ScaleDirectionDown" by code_simp
  have st: "store lab_shrinking = lab_store [lab_agent ''a1'' AgentOnline, lab_agent ''a2'' AgentDraining]"
    "lastScaleDown (scaler lab_shrinking) = 10 * 10 ^ 9"
    by (simp_all add: lab_shrinking_def)
  have env: "registry lab_shrink = RedisMemory alist_redis" "cp_Name (provider lab_shrink) = ''aws''"
    "MinNodes (cfg lab_shrink) = 1" "seconds (CooldownSec (cfg lab_shrink)) = 60 * 10 ^ 9"
    by (simp_all add: lab_shrink_def seconds_small)
  have "\<forall>a \<in> set [lab_agent ''a1'' AgentOnline, lab_agent ''a2'' AgentDraining]. agent_json_ok a"
    using lab_agent_ok by simp
  note stored = lab_stores [OF this, folded st(1)]
  have ids: "managed_ids ''aws'' (redis_view (map_of (store lab_shrinking))) = {''a1'', ''a2''}"
    "active_ids ''aws'' (redis_view (map_of (store lab_shrinking))) = {''a1''}"
    using stored by (auto simp: managed_ids_def active_ids_def split: if_splits)
  have "decodable (map_of (store lab_shrinking))" "keyed (redis_view (map_of (store lab_shrinking)))"
    using stored by blast+
  note D = scale_down_counts_draining [OF alist.redis_in_service_axioms env(1) TrueI this, of
      "70 * 10 ^ 9 + 10 ^ 6" "70 * 10 ^ 9 + 10 ^ 6", unfolded env(2)]
  have "v_agents (redis_view (map_of (store lab_shrinking))) ''a1'' = Some (lab_agent ''a1'' AgentOnline)"
    "sint (ActiveCount (lab_agent ''a1'' AgentOnline)) \<le> 0"
    using stored by (simp_all add: lab_agent_def sample_agent_def)
  then have "jobs (scaleDown lab_shrink (70 * 10 ^ 9 + 10 ^ 6) (70 * 10 ^ 9 + 10 ^ 6) lab_shrinking) \<noteq> jobs lab_shrinking"
    unfolding conjunct1 [OF D] ids(1) env(3,4) st(2)
    by (intro conjI exI [of _ "''a1''"] exI [of _ "lab_agent ''a1'' AgentOnline"]) (simp_all add: time_sub_def)
  then have "card (active_ids ''aws'' (redis_view (map_of (store
      (scaleDown lab_shrink (70 * 10 ^ 9 + 10 ^ 6) (70 * 10 ^ 9 + 10 ^ 6) lab_shrinking))))) + 1 = card {''a1''}"
    using conjunct2 [OF D] ids(2) by metis
  then show ?thesis using down env(3) by simp
qed

text \<open>
  A node whose termination fails is forgotten before it is terminated: the drain has already
  removed its record, so nothing in the store names the instance the cloud still runs.
\<close>

theorem failed_termination_leaks:
  assumes "redis_in_service R kv live" and "registry E = RedisMemory R"
    and "live (store s)" and "decodable (kv (store s))" and "keyed (redis_view (kv (store s)))"
    and "\<And>w. \<exists>e. TerminateNode (provider E) pid w = (Some e, w)"
    and "\<And>a w. running (snd (GetNodeStatusOf (agentClient E) a w)) = running w"
    and "\<And>j a. v_agents (redis_view (kv (store s))) j = Some a \<Longrightarrow> j \<noteq> i \<Longrightarrow> ProviderID a \<noteq> pid"
  shows "\<exists>s'. drainAndTerminate E (replicate n DrainTick @ [DeadlineExceeded]) i addr pid s = Some s' \<and>
    running (world s') = running (world s) \<and>
    (\<forall>j a. v_agents (redis_view (kv (store s'))) j = Some a \<longrightarrow> ProviderID a \<noteq> pid)"
proof -
  let ?es = "replicate n DrainTick @ [DeadlineExceeded]"
  obtain out w where run: "drain_loop (agentClient E) (probe_agent addr) ?es (world s) = (Some out, w)"
    using drain_ends [of "agentClient E" "probe_agent addr" n "[]" "world s"] by auto
  have "out \<noteq> Aborted" by (rule drain_not_aborted [OF run]) simp
  then obtain s' where s': "drainAndTerminate E ?es i addr pid s = Some s'"
    using run by (cases out) (simp_all add: drainAndTerminate_def)
  have "serving (\<lambda>r. redis_view (kv r)) (\<lambda>r. live r \<and> decodable (kv r)) s"
    using assms(3-5) by (simp add: serving_def)
  from memory_in_service.drain_serving [OF redis_in_service.redis_memory_in_service [OF assms(1)] this assms(2) s']
  have st: "v_agents (redis_view (kv (store s'))) = (v_agents (redis_view (kv (store s))))(i := None)"
    and "world s' = snd (TerminateNode (provider E) pid w)" using run by auto
  then have "world s' = w" using assms(6) [of w] by auto
  then have "running (world s') = running (world s)"
    using drain_loop_frame [of running "agentClient E" "probe_agent addr" ?es "world s"] assms(7) run by simp
  then show ?thesis using s' st assms(8) by (auto split: if_splits)
qed

definition lab_stuck :: "((string \<times> bytes) list, (string, string list) client_state) scaler_env" where
  "lab_stuck = lab_env\<lparr>provider := lab_cloud\<lparr>TerminateNode := \<lambda>i s. (Some ''UnauthorizedOperation'', s)\<rparr>\<rparr>"

theorem failed_termination_leaks_witness:
  "\<exists>s'. drainAndTerminate lab_stuck (replicate 60 DrainTick @ [DeadlineExceeded]) ''a1'' ''10.0.0.1:50052'' ''a1''
       (lab_state [lab_agent ''a1'' AgentDraining] []) = Some s' \<and>
     set (net (world s')) = {''a1''}"
  using failed_termination_leaks [OF alist.redis_in_service_axioms, of lab_stuck
      "lab_state [lab_agent ''a1'' AgentDraining] []" "''a1''" "\<lambda>s. set (net s)" "''a1''" 60 "''10.0.0.1:50052''"]
    lab_keyed lab_stored lab_poll_running
  by (auto simp: lab_stuck_def split: if_splits)

text \<open>
  The defaults of \<open>parse\<close> do not reach the GCP section: an enabled GCP autoscaler without a
  positive \<open>poll_interval_sec\<close> passes \<open>parse\<close> unchanged, and its \<open>Start\<close> panics in
  \<open>time.NewTicker\<close>.
\<close>

theorem gcp_interval_panics:
  assumes "check_config pf c = Ret d" and "Providers c = Some ps" and "GCP ps = Some g"
    and "gcp_Autoscaling g = Some a" and "PollIntervalSec a = 0"
  shows "\<exists>qs g'. Providers d = Some qs \<and> GCP qs = Some g' \<and> gcp_Autoscaling g' = Some a \<and>
    (\<exists>m. poll_ticker a = Panic m)"
proof -
  obtain qs where qs: "parse_providers ps = Inr qs" "Providers d = Some qs"
    using check_config_ok(7) [OF assms(1)] assms(2) by auto
  then have "GCP qs = Some (parse_gcp g)"
    using assms(3) by (auto simp: parse_providers_def split: option.splits sum.splits)
  moreover have "gcp_Autoscaling (parse_gcp g) = Some a" using assms(4) by (simp add: parse_gcp_def)
  ultimately show ?thesis
    using qs assms(5) by (simp add: poll_ticker_def NewTicker_def seconds_def wrap64_def)
qed

theorem gcp_interval_panics_witness:
  "\<exists>d. check_config linux sample_config = Ret d \<and> (\<exists>m. poll_ticker sample_autoscale = Panic m)"
proof -
  obtain d where d: "check_config linux sample_config = Ret d"
    by (simp add: check_config_def sample_config_def parse_providers_def parse_aws_def
        sample_aws_def sample_autoscale_def sample_types_def Let_def)
  from gcp_interval_panics [OF d, of _ sample_gcp sample_autoscale] d show ?thesis
    by (auto simp: sample_config_def sample_gcp_def sample_autoscale_def)
qed

end
