(* ===== verification/Api_Types.thy ===== *)
theory Api_Types imports Registry_Runs Agent_Client begin

text \<open>
  The data of \<open>pkg/api/handlers.go\<close>: requests and responses, the documents the handlers read and
  the ones they write.  A response body is the JSON document that is encoded, \<open>None\<close> when
  \<open>json.Encoder\<close> refuses it (a NaN or infinite number) and writes nothing after the header.
\<close>

section \<open>Requests and responses\<close>

record request =
  Method :: string
  URLPath :: string
  HeaderGet :: "string \<Rightarrow> string"
  Body :: "go_error + bytes"

text \<open>
  \<open>Gone\<close>: the handler returned without writing because the client went away; \<open>Panicked\<close>: the
  server recovered a panic and dropped the connection.
\<close>

datatype response =
    HttpError string int
  | Reply int "json option"
  | Gone
  | Panicked string

definition StatusBadRequest :: int where "StatusBadRequest = 400"
definition StatusUnauthorized :: int where "StatusUnauthorized = 401"
definition StatusNotFound :: int where "StatusNotFound = 404"
definition StatusConflict :: int where "StatusConflict = 409"
definition StatusTooManyRequests :: int where "StatusTooManyRequests = 429"
definition StatusInternalServerError :: int where "StatusInternalServerError = 500"
definition StatusBadGateway :: int where "StatusBadGateway = 502"
definition StatusServiceUnavailable :: int where "StatusServiceUnavailable = 503"

lemmas status_codes =
  StatusBadRequest_def StatusUnauthorized_def StatusNotFound_def StatusConflict_def
  StatusTooManyRequests_def StatusInternalServerError_def StatusBadGateway_def
  StatusServiceUnavailable_def

section \<open>Reading documents\<close>

text \<open>An element of a string slice that is \<open>null\<close> is left empty.\<close>

fun json_strings :: "json list \<Rightarrow> string list option" where
  "json_strings [] = Some []"
| "json_strings (j # js) =
     Option.bind (json_string [] j) (\<lambda>s. map_option ((#) s) (json_strings js))"

fun json_string_array :: "string list \<Rightarrow> json \<Rightarrow> string list option" where
  "json_string_array old JNull = Some []"
| "json_string_array old (JArr js) = json_strings js"
| "json_string_array old _ = None"

record RegisterAgentRequest =
  rr_Address :: string
  rr_TLS :: bool

text \<open>A nil and an empty argument list are passed on alike.\<close>

type_synonym ExecuteRequest = "string list"

definition decode_body :: "(json \<Rightarrow> 'a option) \<Rightarrow> go_error + bytes \<Rightarrow> go_error + 'a" where
  "decode_body dec b =
     (case b of
        Inl e \<Rightarrow> Inl e
      | Inr (RawBytes s) \<Rightarrow> Inl (if s = [] then ''EOF'' else ''invalid character'')
      | Inr (JsonText j) \<Rightarrow>
          (case dec j of None \<Rightarrow> Inl ''json: cannot unmarshal'' | Some v \<Rightarrow> Inr v))"

fun decode_register_request :: "json \<Rightarrow> RegisterAgentRequest option" where
  "decode_register_request JNull = Some \<lparr>rr_Address = [], rr_TLS = False\<rparr>"
| "decode_register_request (JObj kvs) =
     Option.bind (set_field ''address'' json_string kvs []) (\<lambda>a.
       Option.bind (set_field ''tls'' json_bool kvs False) (\<lambda>t.
         Some \<lparr>rr_Address = a, rr_TLS = t\<rparr>))"
| "decode_register_request _ = None"

fun decode_execute_request :: "json \<Rightarrow> ExecuteRequest option" where
  "decode_execute_request JNull = Some []"
| "decode_execute_request (JObj kvs) = set_field ''args'' json_string_array kvs []"
| "decode_execute_request _ = None"

section \<open>The function file\<close>

record ResourceLimits =
  rl_CPU :: i32
  rl_Memory :: i64

record FunctionYAML =
  fy_Name :: string
  fy_Handler :: string
  Resources :: ResourceLimits
  Timeout :: i32
  fy_MaxConcurrency :: i32
  fy_MaxConcurrencyBehavior :: string
  fy_ResourcePressureBehavior :: string
  fy_Env :: "(string \<times> string) list option"

section \<open>Writing documents\<close>

text \<open>The keys of a Go map are written in order; an instant is written to the second.\<close>

definition rfc3339 :: "time \<Rightarrow> json" where
  "rfc3339 t = JTime (t div 10 ^ 9 * 10 ^ 9)"

definition status_text :: "AgentStatus \<Rightarrow> string" where
  "status_text st =
     (case st of AgentOnline \<Rightarrow> ''online'' | AgentBusy \<Rightarrow> ''busy'' | AgentDraining \<Rightarrow> ''draining''
               | AgentOffline \<Rightarrow> ''offline'')"

definition node_status_info :: "node_status \<Rightarrow> json option" where
  "node_status_info ns =
     Option.bind (enc_float (CPUPercent ns)) (\<lambda>c. Option.bind (enc_float (MemPercent ns)) (\<lambda>m.
       Some (JObj
         [(''cpu_percent'', c), (''memory_percent'', m), (''memory_total_mb'', JInt (uint (MemTotalMB ns))),
          (''memory_used_mb'', JInt (uint (MemUsedMB ns))), (''active_tasks'', JInt (sint (ActiveTasks ns))),
          (''uptime_seconds'', JInt (sint (UptimeSec ns))), (''collected_at'', rfc3339 (CollectedAt ns))])))"

definition agent_info :: "agent \<Rightarrow> json option" where
  "agent_info a =
     Option.bind (case NodeStatus a of None \<Rightarrow> Some []
                  | Some ns \<Rightarrow> map_option (\<lambda>j. [(''node_status'', j)]) (node_status_info ns)) (\<lambda>n.
       Some (JObj
         ([(''id'', JStr (ID a)), (''address'', JStr (Address a)),
           (''active_count'', JInt (sint (ActiveCount a))), (''status'', JStr (status_text (Status a))),
           (''last_heartbeat'', rfc3339 (LastHeartbeat a))] @
          omitempty (ProviderID a = []) (''provider_id'', JStr (ProviderID a)) @
          omitempty (InstanceType a = []) (''instance_type'', JStr (InstanceType a)) @
          omitempty (Provider a = []) (''provider'', JStr (Provider a)) @ n)))"

fun all_some :: "'a option list \<Rightarrow> 'a list option" where
  "all_some [] = Some []"
| "all_some (None # xs) = None"
| "all_some (Some x # xs) = map_option ((#) x) (all_some xs)"

text \<open>The outcome of one agent in the responses of registration and deployment.\<close>

record AgentOperationStatus =
  os_AgentID :: string
  os_Status :: string
  os_Message :: string

definition operation_json :: "AgentOperationStatus \<Rightarrow> json" where
  "operation_json o1 =
     JObj ([(''agent_id'', JStr (os_AgentID o1)), (''status'', JStr (os_Status o1))] @
           omitempty (os_Message o1 = []) (''message'', JStr (os_Message o1)))"

record NodeStats =
  st_CPUPercent :: f64
  st_MemPercent :: f64
  st_MemTotalMB :: u64
  st_MemUsedMB :: u64
  st_ActiveTasks :: i32
  st_UptimeSec :: u64
  st_CollectedAt :: time

definition node_stats_json :: "NodeStats \<Rightarrow> json option" where
  "node_stats_json n =
     Option.bind (enc_float (st_CPUPercent n)) (\<lambda>c. Option.bind (enc_float (st_MemPercent n)) (\<lambda>m.
       Some (JObj
         ([(''cpu_percent'', c), (''memory_percent'', m), (''memory_total_mb'', JInt (uint (st_MemTotalMB n))),
           (''memory_used_mb'', JInt (uint (st_MemUsedMB n)))] @
          omitempty (st_ActiveTasks n = 0) (''active_tasks'', JInt (sint (st_ActiveTasks n))) @
          [(''uptime_seconds'', JInt (uint (st_UptimeSec n))), (''collected_at'', rfc3339 (st_CollectedAt n))]))))"

definition agent_resource_info :: "agent \<Rightarrow> json option" where
  "agent_resource_info a =
     Option.bind (case NodeStatus a of None \<Rightarrow> Some []
                  | Some ns \<Rightarrow> map_option (\<lambda>j. [(''node'', j)]) (node_stats_json
                      \<lparr>st_CPUPercent = CPUPercent ns, st_MemPercent = MemPercent ns,
                       st_MemTotalMB = MemTotalMB ns, st_MemUsedMB = MemUsedMB ns,
                       st_ActiveTasks = ActiveTasks ns, st_UptimeSec = UptimeSec ns,
                       st_CollectedAt = CollectedAt ns\<rparr>)) (\<lambda>n.
       Some (JObj
         ([(''id'', JStr (ID a)), (''status'', JStr (status_text (Status a)))] @
          omitempty (InstanceType a = []) (''instance_type'', JStr (InstanceType a)) @ n)))"

end
