(* ===== verification/Api_Server.thy ===== *)
theory Api_Server imports Api_Types begin

text \<open>
  \<open>pkg/api/handlers.go\<close>: the HTTP API.  The server's fields and the collaborators of its handlers
  are \<open>api_env\<close>; a handler maps a request and a state, the registry's store and the outside world,
  to a response and a new state.  Goroutines a handler starts are appended to \<open>syncs\<close>.  Logging and
  the \<open>Content-Type\<close> header are left out.
\<close>

section \<open>State\<close>

text \<open>The interface \<open>Initializer\<close>, over the store and the world.\<close>

record 'st initializer =
  InitializeNodes :: "'st \<Rightarrow> (int \<times> int) \<times> 'st"
  TerminateNodes :: "'st \<Rightarrow> int \<times> 'st"

text \<open>What \<open>gopsutil\<close> reports of the host.\<close>

record host_stats =
  cpu_Percent :: "f64 list"
  VirtualMemory :: "(u64 \<times> u64 \<times> f64) option"
  Uptime :: u64

record ('m, 'w) api_env =
  api_registry :: "'m memory"
  api_client :: "'w agent_client"
  api_init :: "('m \<times> 'w) initializer option"
  api_key :: string
  yaml_Unmarshal :: "bytes \<Rightarrow> go_error + FunctionYAML"
  host :: host_stats

record ('m, 'w) api_state =
  api_store :: 'm
  api_world :: 'w
  syncs :: "(string \<times> string) list"

section \<open>Authentication\<close>

definition bearer :: string where
  "bearer = ''Bearer ''"

definition authenticate :: "('m, 'w) api_env \<Rightarrow> request \<Rightarrow> bool" where
  "authenticate E r =
     (let apiKey = HeaderGet r ''X-API-Key'';
          apiKey =
            (if apiKey = [] then
               let h = HeaderGet r ''Authorization''
               in if 7 < length h \<and> take 7 h = bearer then drop 7 h else h
             else apiKey)
      in apiKey = api_key E)"

section \<open>Agents\<close>

definition handleHealth :: "('m, 'w) api_state \<Rightarrow> response \<times> ('m, 'w) api_state" where
  "handleHealth s = (Reply 200 (Some (JObj [(''status'', JStr ''ok'')])), s)"

definition handleGetAgents ::
  "('m, 'w) api_env \<Rightarrow> ('m, 'w) api_state \<Rightarrow> response \<times> ('m, 'w) api_state" where
  "handleGetAgents E s =
     (let agents = reg_GetAllAgents (api_registry E) (api_store s)
      in (Reply 200 (map_option JArr (all_some (map agent_info agents))), s))"

definition register_reply :: "string \<Rightarrow> string \<Rightarrow> node_status \<Rightarrow> json option" where
  "register_reply agentID address status =
     Option.bind (enc_float (CPUPercent status)) (\<lambda>c. Option.bind (enc_float (MemPercent status)) (\<lambda>m.
       Some (JObj
         [(''address'', JStr address), (''id'', JStr agentID),
          (''node'', JObj
             [(''active_tasks'', JInt (sint (ActiveTasks status))), (''cpu_percent'', c),
              (''memory_percent'', m), (''memory_total_mb'', JInt (uint (MemTotalMB status))),
              (''memory_used_mb'', JInt (uint (MemUsedMB status))),
              (''uptime_seconds'', JInt (sint (UptimeSec status)))]),
          (''status'', JStr ''registered'')])))"

definition handleRegisterAgent ::
  "('m, 'w) api_env \<Rightarrow> time \<Rightarrow> request \<Rightarrow> ('m, 'w) api_state \<Rightarrow> response \<times> ('m, 'w) api_state" where
  "handleRegisterAgent E now r s =
     (case decode_body decode_register_request (Body r) of
        Inl e \<Rightarrow> (HttpError (''invalid JSON: '' @ e) StatusBadRequest, s)
      | Inr req \<Rightarrow>
          if rr_Address req = [] then (HttpError ''address is required'' StatusBadRequest, s)
          else
            (case GetNodeStatusOf (api_client E)
                    \<lparr>ID = [], Address = rr_Address req, ActiveCount = 0, LastHeartbeat = zero_time,
                     Status = AgentOnline, ProviderID = [], InstanceType = [], Provider = [],
                     NodeStatus = None\<rparr> (api_world s) of
               (Inl e, w) \<Rightarrow>
                 (HttpError (''failed to reach agent: '' @ e) StatusBadGateway, s\<lparr>api_world := w\<rparr>)
             | (Inr status, w) \<Rightarrow>
                 let s1 = s\<lparr>api_world := w\<rparr>; agentID = ns_AgentID status
                 in if agentID = [] then (HttpError ''agent returned empty ID'' StatusBadGateway, s1)
                    else if (case reg_GetAgent (api_registry E) agentID (api_store s1) of
                               None \<Rightarrow> False
                             | Some existing \<Rightarrow> Address existing \<noteq> rr_Address req)
                    then (HttpError ''agent already registered at a different address'' StatusConflict, s1)
                    else
                      (Reply 201 (register_reply agentID (rr_Address req) status),
                       s1\<lparr>api_store :=
                            UpdateNodeStatus (api_registry E) agentID status
                              (RegisterAgent (api_registry E) now agentID (rr_Address req) [] [] []
                                (api_store s1)),
                          syncs := syncs s1 @ [(agentID, rr_Address req)]\<rparr>)))"

section \<open>Pushing functions to agents\<close>

text \<open>
  The loop over the agents of the registration and deployment handlers: \<open>push\<close> is the call, the
  result the statuses in order and the number of successes.
\<close>

fun push_to_agents ::
  "(agent \<Rightarrow> 'w \<Rightarrow> go_error option \<times> 'w) \<Rightarrow> agent list \<Rightarrow> 'w \<Rightarrow>
   (AgentOperationStatus list \<times> int) \<times> 'w" where
  "push_to_agents push [] w = (([], 0), w)"
| "push_to_agents push (a # as) w =
     (case push a w of
        (Some e, w') \<Rightarrow>
          (case push_to_agents push as w' of
             ((sts, n), w'') \<Rightarrow>
               ((\<lparr>os_AgentID = ID a, os_Status = ''failed'', os_Message = e\<rparr> # sts, n), w''))
      | (None, w') \<Rightarrow>
          (case push_to_agents push as w' of
             ((sts, n), w'') \<Rightarrow>
               ((\<lparr>os_AgentID = ID a, os_Status = ''success'', os_Message = []\<rparr> # sts, n + 1), w'')))"

definition push_reply :: "string \<Rightarrow> AgentOperationStatus list \<Rightarrow> int \<Rightarrow> int \<Rightarrow> json" where
  "push_reply counter sts n all =
     JObj
       [(''agents'', JArr (map operation_json sts)), (counter, JInt n), (''status'', JStr ''success''),
        (''total_agents'', JInt all)]"

text \<open>The checks and defaults that turn a function file into a function.\<close>

definition function_of_yaml :: "FunctionYAML \<Rightarrow> go_error + func" where
  "function_of_yaml fy =
     (if fy_Name fy = [] \<or> fy_Handler fy = [] then Inl ''name and handler are required''
      else
        let maxConcurrency = (if fy_MaxConcurrency fy = 0 then 5 else fy_MaxConcurrency fy);
            behavior = (if fy_MaxConcurrencyBehavior fy = [] then ConcurrencyBehaviorExit
                        else fy_MaxConcurrencyBehavior fy)
        in if behavior \<noteq> ConcurrencyBehaviorWait \<and> behavior \<noteq> ConcurrencyBehaviorExit
           then Inl (''max_concurrency_behavior must be 'wait' or 'exit'' @ [CHR 0x27])
           else
             let pressure = (if fy_ResourcePressureBehavior fy = [] then PressureBehaviorExit
                             else fy_ResourcePressureBehavior fy)
             in if pressure \<noteq> PressureBehaviorWait \<and> pressure \<noteq> PressureBehaviorExit
                then Inl (''resource_pressure_behavior must be 'wait' or 'exit'' @ [CHR 0x27])
                else
                  Inr \<lparr>Name = fy_Name fy, Handler = fy_Handler fy, CPUMillicores = rl_CPU (Resources fy),
                       MemoryMB = rl_Memory (Resources fy), TimeoutSec = Timeout fy,
                       MaxConcurrency = maxConcurrency, MaxConcurrencyBehavior = behavior,
                       ResourcePressureBehavior = pressure, CodePath = [], Env = fy_Env fy\<rparr>)"

definition handleRegisterFunction ::
  "('m, 'w) api_env \<Rightarrow> request \<Rightarrow> ('m, 'w) api_state \<Rightarrow> response \<times> ('m, 'w) api_state" where
  "handleRegisterFunction E r s =
     (case Body r of
        Inl e \<Rightarrow> (HttpError ''failed to read YAML file'' StatusBadRequest, s)
      | Inr yamlData \<Rightarrow>
          if bytes_empty yamlData then (HttpError ''empty YAML file'' StatusBadRequest, s)
          else
            (case yaml_Unmarshal E yamlData of
               Inl e \<Rightarrow> (HttpError (''invalid YAML format: '' @ e) StatusBadRequest, s)
             | Inr fy \<Rightarrow>
                 (case function_of_yaml fy of
                    Inl e \<Rightarrow> (HttpError e StatusBadRequest, s)
                  | Inr function \<Rightarrow>
                      let s1 = s\<lparr>api_store := RegisterFunction (api_registry E) function (api_store s)\<rparr>;
                          agents = reg_GetAllAgents (api_registry E) (api_store s1);
                          ((sts, registered), w) =
                            push_to_agents (\<lambda>a. RegisterFunctionOn (api_client E) a function) agents
                              (api_world s1);
                          s2 = s1\<lparr>api_world := w\<rparr>
                      in if registered = 0 then
                           (HttpError ''failed to register function on any agent'' StatusInternalServerError, s2)
                         else
                           (Reply 201 (Some (push_reply ''registered_count'' sts registered
                              (int (length agents)))), s2))))"

definition handleDeploy ::
  "('m, 'w) api_env \<Rightarrow> string \<Rightarrow> request \<Rightarrow> ('m, 'w) api_state \<Rightarrow> response \<times> ('m, 'w) api_state" where
  "handleDeploy E functionName r s =
     (case reg_GetFunction (api_registry E) functionName (api_store s) of
        None \<Rightarrow> (HttpError ''function not registered'' StatusNotFound, s)
      | Some _ \<Rightarrow>
          (case Body r of
             Inl e \<Rightarrow> (HttpError ''failed to read zip file'' StatusBadRequest, s)
           | Inr zipData \<Rightarrow>
               if bytes_empty zipData then (HttpError ''empty zip file'' StatusBadRequest, s)
               else
                 let s1 = s\<lparr>api_store :=
                            reg_SaveCodeArchive (api_registry E) functionName zipData (api_store s)\<rparr>;
                     agents = GetAvailableAgents (api_registry E) (api_store s1)
                 in if length agents = 0 then
                      (HttpError ''no agents available'' StatusServiceUnavailable, s1)
                    else
                      let ((sts, deployed), w) =
                            push_to_agents (\<lambda>a. DeployFunctionOn (api_client E) a functionName zipData)
                              agents (api_world s1);
                          s2 = s1\<lparr>api_world := w\<rparr>
                      in if deployed = 0 then
                           (HttpError ''failed to deploy to any agent'' StatusInternalServerError, s2)
                         else
                           (Reply 201 (Some (push_reply ''deployed_count'' sts deployed
                              (int (length agents)))), s2)))"

section \<open>Executing functions\<close>

text \<open>The loop that picks the available agent with the most headroom among those the function fits on.\<close>

fun best_agent :: "func \<Rightarrow> agent list \<Rightarrow> agent option \<Rightarrow> agent option" where
  "best_agent fn [] best = best"
| "best_agent fn (a # as) best =
     (if \<not> CanFit a fn then best_agent fn as best
      else
        best_agent fn as
          (case best of
             None \<Rightarrow> Some a
           | Some b \<Rightarrow> if flt (AvailableScore b) (AvailableScore a) then Some a else Some b))"

definition execute_reply :: "string \<Rightarrow> agent \<Rightarrow> string \<Rightarrow> ExecutionResponse \<Rightarrow> json" where
  "execute_reply status best executionID result =
     JObj
       ([(''status'', JStr status)] @
        omitempty (Output result = []) (''output'', JStr (Output result)) @
        omitempty (ExecutionResponse.Error result = []) (''error'', JStr (ExecutionResponse.Error result)) @
        [(''duration_ms'', JInt (sint (DurationMs result))), (''agent_id'', JStr (ID best)),
         (''execution_id'', JStr executionID)])"

text \<open>
  A retry waits half a second or until the client goes away.  While it waits the rest of the
  program runs: the event carries the state the loop finds when the timer fires.  \<open>None\<close>: the
  events ran out and the handler still waits.
\<close>

datatype 'st wait_event = ClientGone | Resume 'st

fun execute_loop ::
  "('m, 'w) api_env \<Rightarrow> func \<Rightarrow> string \<Rightarrow> string list \<Rightarrow> string \<Rightarrow>
   ('m, 'w) api_state wait_event list \<Rightarrow> ('m, 'w) api_state \<Rightarrow>
   (response \<times> ('m, 'w) api_state) option" where
  "execute_loop E fn name args executionID events s =
     (case best_agent fn (GetAvailableAgents (api_registry E) (api_store s)) None of
        None \<Rightarrow>
          if ResourcePressureBehavior fn = PressureBehaviorExit then
            Some (HttpError ''no agents available with sufficient resources'' StatusTooManyRequests, s)
          else
            (case events of
               [] \<Rightarrow> None
             | ClientGone # _ \<Rightarrow> Some (Gone, s)
             | Resume s' # es \<Rightarrow> execute_loop E fn name args executionID es s')
      | Some best \<Rightarrow>
          (case ExecuteFunctionOn (api_client E) best name args executionID False (api_world s) of
             (Inl e, w) \<Rightarrow>
               Some (HttpError (''agent communication error: '' @ e) StatusInternalServerError,
                     s\<lparr>api_world := w\<rparr>)
           | (Inr result, w) \<Rightarrow>
               let s1 = s\<lparr>api_world := w\<rparr>; err = ExecutionResponse.Error result
               in if err \<noteq> [] \<and> Contains err ''at capacity'' then
                    if MaxConcurrencyBehavior fn = ConcurrencyBehaviorExit then
                      Some (HttpError err StatusServiceUnavailable, s1)
                    else
                      (case events of
                         [] \<Rightarrow> None
                       | ClientGone # _ \<Rightarrow> Some (Gone, s1)
                       | Resume s' # es \<Rightarrow> execute_loop E fn name args executionID es s')
                  else
                    Some
                      (if err \<noteq> [] then
                         Reply StatusInternalServerError
                           (Some (execute_reply ''failed'' best executionID result))
                       else Reply 200 (Some (execute_reply ''success'' best executionID result)), s1)))"

declare execute_loop.simps [simp del]

text \<open>\<open>fresh\<close> is the identifier \<open>uuid.New\<close> returns.\<close>

definition handleExecute ::
  "('m, 'w) api_env \<Rightarrow> string \<Rightarrow> ('m, 'w) api_state wait_event list \<Rightarrow> string \<Rightarrow> request \<Rightarrow>
   ('m, 'w) api_state \<Rightarrow> (response \<times> ('m, 'w) api_state) option" where
  "handleExecute E fresh events functionName r s =
     (case decode_body decode_execute_request (Body r) of
        Inl e \<Rightarrow> Some (HttpError e StatusBadRequest, s)
      | Inr args \<Rightarrow>
          (case reg_GetFunction (api_registry E) functionName (api_store s) of
             None \<Rightarrow> Some (HttpError ''function not found'' StatusNotFound, s)
           | Some fn \<Rightarrow> execute_loop E fn functionName args (''exc-'' @ fresh) events s))"

definition handleAsyncExecute ::
  "('m, 'w) api_env \<Rightarrow> string \<Rightarrow> string \<Rightarrow> request \<Rightarrow> ('m, 'w) api_state \<Rightarrow>
   response \<times> ('m, 'w) api_state" where
  "handleAsyncExecute E fresh functionName r s =
     (case decode_body decode_execute_request (Body r) of
        Inl e \<Rightarrow> (HttpError e StatusBadRequest, s)
      | Inr args \<Rightarrow>
          (case reg_GetFunction (api_registry E) functionName (api_store s) of
             None \<Rightarrow> (HttpError ''function not found'' StatusNotFound, s)
           | Some fn \<Rightarrow>
               (case best_agent fn (GetAvailableAgents (api_registry E) (api_store s)) None of
                  None \<Rightarrow>
                    (HttpError ''no agents available with sufficient resources'' StatusTooManyRequests, s)
                | Some best \<Rightarrow>
                    let executionID = ''exc-'' @ fresh
                    in (case ExecuteFunctionOn (api_client E) best functionName args executionID True
                               (api_world s) of
                          (Inl e, w) \<Rightarrow>
                            (HttpError (''failed to submit async execution: '' @ e) StatusInternalServerError,
                             s\<lparr>api_world := w\<rparr>)
                        | (Inr _, w) \<Rightarrow>
                            (Reply 202 (Some (JObj
                               [(''execution_id'', JStr executionID), (''status'', JStr ''accepted'')])),
                             s\<lparr>api_world := w,
                               api_store := reg_SaveExecutionToAgentMap (api_registry E) executionID
                                              (ID best) (api_store s)\<rparr>)))))"

text \<open>The agent an execution was dispatched to, or the error response of the two handlers that need it.\<close>

definition owning_agent ::
  "('m, 'w) api_env \<Rightarrow> string \<Rightarrow> ('m, 'w) api_state \<Rightarrow> response + agent" where
  "owning_agent E executionID s =
     (case reg_GetExecutionToAgentMap (api_registry E) executionID (api_store s) of
        (agentID, ok) \<Rightarrow>
          if \<not> ok then Inl (HttpError ''execution not found'' StatusNotFound)
          else
            (case reg_GetAgent (api_registry E) agentID (api_store s) of
               None \<Rightarrow> Inl (HttpError ''agent not found'' StatusInternalServerError)
             | Some a \<Rightarrow> Inr a))"

definition handleCancelExecution ::
  "('m, 'w) api_env \<Rightarrow> string \<Rightarrow> ('m, 'w) api_state \<Rightarrow> response \<times> ('m, 'w) api_state" where
  "handleCancelExecution E executionID s =
     (case owning_agent E executionID s of
        Inl resp \<Rightarrow> (resp, s)
      | Inr a \<Rightarrow>
          (case CancelExecutionOn (api_client E) a executionID (api_world s) of
             (Some e, w) \<Rightarrow>
               (HttpError (''failed to cancel execution: '' @ e) StatusInternalServerError, s\<lparr>api_world := w\<rparr>)
           | (None, w) \<Rightarrow>
               (Reply 200 (Some (JObj
                  [(''execution_id'', JStr executionID), (''status'', JStr ''cancelled'')])), s\<lparr>api_world := w\<rparr>)))"

definition handleGetExecution ::
  "('m, 'w) api_env \<Rightarrow> string \<Rightarrow> ('m, 'w) api_state \<Rightarrow> response \<times> ('m, 'w) api_state" where
  "handleGetExecution E executionID s =
     (case owning_agent E executionID s of
        Inl resp \<Rightarrow> (resp, s)
      | Inr a \<Rightarrow>
          (case GetExecutionOn (api_client E) a executionID (api_world s) of
             (Inl e, w) \<Rightarrow>
               (HttpError (''failed to retrieve execution: '' @ e) StatusInternalServerError,
                s\<lparr>api_world := w\<rparr>)
           | (Inr None, w) \<Rightarrow>
               (HttpError ''execution not found on agent'' StatusNotFound, s\<lparr>api_world := w\<rparr>)
           | (Inr (Some record), w) \<Rightarrow>
               (Reply 200 (marshal_execution_record record), s\<lparr>api_world := w\<rparr>)))"

section \<open>The fleet\<close>

definition handleInitialize ::
  "('m, 'w) api_env \<Rightarrow> ('m, 'w) api_state \<Rightarrow> response \<times> ('m, 'w) api_state" where
  "handleInitialize E s =
     (case api_init E of
        None \<Rightarrow> (HttpError ''no providers configured'' StatusServiceUnavailable, s)
      | Some I \<Rightarrow>
          (case InitializeNodes I (api_store s, api_world s) of
             ((spawned, attempted), (m, w)) \<Rightarrow>
               (Reply 200 (Some (JObj [(''nodes'', JObj
                  [(''failed'', JInt (attempted - spawned)), (''spawned'', JInt spawned)])])),
                s\<lparr>api_store := m, api_world := w\<rparr>)))"

text \<open>Calling a method of a nil interface panics.\<close>

definition handleCleanupNodes ::
  "('m, 'w) api_env \<Rightarrow> ('m, 'w) api_state \<Rightarrow> response \<times> ('m, 'w) api_state" where
  "handleCleanupNodes E s =
     (case api_init E of
        None \<Rightarrow> (Panicked ''nil pointer dereference'', s)
      | Some I \<Rightarrow>
          (case TerminateNodes I (api_store s, api_world s) of
             (counted, (m, w)) \<Rightarrow>
               (Reply 200 (Some (JObj [(''removed'', JInt counted), (''status'', JStr ''removed'')])),
                s\<lparr>api_store := reg_Flush (api_registry E) m, api_world := w\<rparr>)))"

definition flux_stats :: "time \<Rightarrow> host_stats \<Rightarrow> NodeStats" where
  "flux_stats now h =
     (let cpuPct = (case cpu_Percent h of [] \<Rightarrow> Fin 0 | c # _ \<Rightarrow> c);
          (memTotalMB, memUsedMB, memPct) =
            (case VirtualMemory h of
               None \<Rightarrow> (0, 0, Fin 0)
             | Some (tot, used, pct) \<Rightarrow> (tot div 1024 div 1024, used div 1024 div 1024, pct))
      in \<lparr>st_CPUPercent = cpuPct, st_MemPercent = memPct, st_MemTotalMB = memTotalMB,
          st_MemUsedMB = memUsedMB, st_ActiveTasks = 0, st_UptimeSec = Uptime h, st_CollectedAt = now\<rparr>)"

definition handleResources ::
  "('m, 'w) api_env \<Rightarrow> time \<Rightarrow> ('m, 'w) api_state \<Rightarrow> response \<times> ('m, 'w) api_state" where
  "handleResources E now s =
     (let agents = reg_GetAllAgents (api_registry E) (api_store s)
      in (Reply 200
            (Option.bind (node_stats_json (flux_stats now (host E))) (\<lambda>f.
               map_option (\<lambda>as. JObj [(''flux'', JObj [(''node'', f)]), (''agents'', JArr as)])
                 (all_some (map agent_resource_info agents)))), s))"

section \<open>Synchronising an agent\<close>

text \<open>The loop over the registered functions: registration, then the code when there is any.\<close>

fun sync_loop ::
  "('m, 'w) api_env \<Rightarrow> agent \<Rightarrow> 'm \<Rightarrow> func list \<Rightarrow> 'w \<Rightarrow> 'w" where
  "sync_loop E a m [] w = w"
| "sync_loop E a m (fn # fns) w =
     (case RegisterFunctionOn (api_client E) a fn w of
        (Some e, w') \<Rightarrow> sync_loop E a m fns w'
      | (None, w') \<Rightarrow>
          (case reg_GetCodeArchive (api_registry E) (Name fn) m of
             None \<Rightarrow> sync_loop E a m fns w'
           | Some code \<Rightarrow>
               sync_loop E a m fns (snd (DeployFunctionOn (api_client E) a (Name fn) code w'))))"

definition syncFunctionsToAgent ::
  "('m, 'w) api_env \<Rightarrow> string \<Rightarrow> string \<Rightarrow> 'm \<Rightarrow> 'w \<Rightarrow> 'w" where
  "syncFunctionsToAgent E agentID address m w =
     (case reg_GetAgent (api_registry E) agentID m of
        None \<Rightarrow> w
      | Some a \<Rightarrow>
          let functions = reg_GetAllFunctions (api_registry E) m
          in if length functions = 0 then w else sync_loop E a m functions w)"

definition SyncFunctionsToAgent ::
  "('m, 'w) api_env \<Rightarrow> string \<Rightarrow> string \<Rightarrow> 'm \<Rightarrow> 'w \<Rightarrow> 'w" where
  "SyncFunctionsToAgent E agentID address m w = syncFunctionsToAgent E agentID address m w"

section \<open>Routing\<close>

definition unauthorized :: response where
  "unauthorized = HttpError ''Unauthorized'' StatusUnauthorized"

definition ServeHTTP ::
  "('m, 'w) api_env \<Rightarrow> time \<Rightarrow> string \<Rightarrow> ('m, 'w) api_state wait_event list \<Rightarrow> request \<Rightarrow>
   ('m, 'w) api_state \<Rightarrow> (response \<times> ('m, 'w) api_state) option" where
  "ServeHTTP E now fresh events r s =
     (let path = URLPath r; meth = Method r; auth = authenticate E r
      in if path = ''/health'' \<and> meth = ''GET'' then Some (handleHealth s)
         else if path = ''/agents'' \<and> meth = ''GET'' then Some (handleGetAgents E s)
         else if path = ''/initialize'' \<and> meth = ''POST'' then
           if \<not> auth then Some (unauthorized, s) else Some (handleInitialize E s)
         else if path = ''/agents/register'' \<and> meth = ''POST'' then
           if \<not> auth then Some (unauthorized, s) else Some (handleRegisterAgent E now r s)
         else if path = ''/functions'' \<and> meth = ''PUT'' then
           if \<not> auth then Some (unauthorized, s) else Some (handleRegisterFunction E r s)
         else if HasPrefix path ''/deploy/'' \<and> meth = ''PUT'' then
           if \<not> auth then Some (unauthorized, s)
           else Some (handleDeploy E (TrimPrefix path ''/deploy/'') r s)
         else if HasPrefix path ''/executions/'' \<and> meth = ''GET'' then
           if \<not> auth then Some (unauthorized, s)
           else Some (handleGetExecution E (TrimPrefix path ''/executions/'') s)
         else if HasPrefix path ''/executions/'' \<and> meth = ''DELETE'' then
           if \<not> auth then Some (unauthorized, s)
           else Some (handleCancelExecution E (TrimPrefix path ''/executions/'') s)
         else if HasPrefix path ''/execute/'' \<and> HasSuffix path ''/async'' \<and> meth = ''POST'' then
           if \<not> auth then Some (unauthorized, s)
           else Some (handleAsyncExecute E fresh (TrimSuffix (TrimPrefix path ''/execute/'') ''/async'') r s)
         else if HasPrefix path ''/execute/'' \<and> meth = ''POST'' then
           if \<not> auth then Some (unauthorized, s)
           else handleExecute E fresh events (TrimPrefix path ''/execute/'') r s
         else if path = ''/nodes'' \<and> meth = ''DELETE'' then
           if \<not> auth then Some (unauthorized, s) else Some (handleCleanupNodes E s)
         else if path = ''/resources'' \<and> meth = ''GET'' then
           if \<not> auth then Some (unauthorized, s) else Some (handleResources E now s)
         else Some (HttpError ''404 page not found'' StatusNotFound, s))"

end
