(* ===== verification/Api_Claims.thy ===== *)
theory Api_Claims imports Api_Server begin

text \<open>
  What the HTTP API guarantees: who gets in, where a call is routed, which agent an execution goes
  to, when the execution loop ends, what each handler leaves in the store.
\<close>

section \<open>The best agent\<close>

interpretation most_headroom: selection "\<lambda>a b. flt (AvailableScore b) (AvailableScore a)"
  by unfold_locales (auto dest: flt_trans)

lemma best_agent_select:
  "best_agent fn as b =
     select_loop (\<lambda>a. CanFit a fn) (\<lambda>a b. flt (AvailableScore b) (AvailableScore a)) as b"
  by (induction as arbitrary: b) auto

definition best_for :: "func \<Rightarrow> agent list \<Rightarrow> agent \<Rightarrow> bool" where
  "best_for fn as a \<longleftrightarrow>
     a \<in> set as \<and> CanFit a fn \<and>
     (\<forall>b \<in> set as. CanFit b fn \<longrightarrow> \<not> flt (AvailableScore a) (AvailableScore b))"

lemma best_agent_some: "best_agent fn as None = Some a \<Longrightarrow> best_for fn as a"
  unfolding best_agent_select best_for_def using most_headroom.select_best by blast

lemma best_agent_none: "best_agent fn as None = None \<longleftrightarrow> (\<forall>a \<in> set as. \<not> CanFit a fn)"
  unfolding best_agent_select by (rule most_headroom.select_none_iff)

section \<open>The execution loop\<close>

lemma execute_loop_ends:
  "execute_loop E fn name args x (map Resume ss @ ClientGone # es) s \<noteq> None"
proof (induction ss arbitrary: s)
  case Nil
  show ?case
    by (subst execute_loop.simps) (auto simp: Let_def split: option.splits sum.splits prod.splits)
next
  case (Cons s' ss)
  show ?case
    by (subst execute_loop.simps)
      (use Cons in \<open>auto simp: Let_def split: option.splits sum.splits prod.splits\<close>)
qed

lemma execute_loop_exit:
  "ResourcePressureBehavior fn = PressureBehaviorExit \<Longrightarrow> MaxConcurrencyBehavior fn = ConcurrencyBehaviorExit \<Longrightarrow>
     execute_loop E fn name args x es s \<noteq> None"
  by (subst execute_loop.simps) (auto simp: Let_def split: option.splits sum.splits prod.splits)

text \<open>What a document sent back tells: which agent ran the function, in which of the loop's states.\<close>

definition executed_by ::
  "('m, 'w) api_env \<Rightarrow> func \<Rightarrow> string \<Rightarrow> string list \<Rightarrow> string \<Rightarrow> int \<Rightarrow> json option \<Rightarrow>
   ('m, 'w) api_state \<Rightarrow> ('m, 'w) api_state \<Rightarrow> bool" where
  "executed_by E fn name args x c j s0 s' \<longleftrightarrow>
     (\<exists>best result w.
        best_for fn (GetAvailableAgents (api_registry E) (api_store s0)) best \<and>
        ExecuteFunctionOn (api_client E) best name args x False (api_world s0) = (Inr result, w) \<and>
        s' = s0\<lparr>api_world := w\<rparr> \<and>
        (c = 200 \<and> ExecutionResponse.Error result = [] \<and> j = Some (execute_reply ''success'' best x result) \<or>
         c = 500 \<and> ExecutionResponse.Error result \<noteq> [] \<and>
           \<not> Contains (ExecutionResponse.Error result) ''at capacity'' \<and> j = Some (execute_reply ''failed'' best x result)))"

lemma execute_loop_step:
  assumes "execute_loop E fn name args x es s = Some (Reply c j, s')"
  shows "executed_by E fn name args x c j s s' \<or>
    (\<exists>s1 es'. es = Resume s1 # es' \<and> execute_loop E fn name args x es' s1 = Some (Reply c j, s'))"
proof (cases "best_agent fn (GetAvailableAgents (api_registry E) (api_store s)) None")
  case None
  then show ?thesis using assms
    by (subst (asm) execute_loop.simps) (auto split: if_splits list.splits wait_event.splits)
next
  case (Some best)
  obtain ro w where call: "ExecuteFunctionOn (api_client E) best name args x False (api_world s) = (ro, w)"
    by fastforce
  show ?thesis
  proof (cases ro)
    case (Inl e)
    then show ?thesis using assms Some call by (subst (asm) execute_loop.simps) simp
  next
    case (Inr result)
    show ?thesis
    proof (cases "ExecutionResponse.Error result \<noteq> [] \<and> Contains (ExecutionResponse.Error result) ''at capacity''")
      case True
      then show ?thesis using assms Some call Inr by (subst (asm) execute_loop.simps)
          (auto simp: Let_def split: if_splits list.splits wait_event.splits)
    next
      case False
      then have "s' = s\<lparr>api_world := w\<rparr> \<and>
          (c = 200 \<and> ExecutionResponse.Error result = [] \<and> j = Some (execute_reply ''success'' best x result) \<or>
           c = 500 \<and> ExecutionResponse.Error result \<noteq> [] \<and>
           \<not> Contains (ExecutionResponse.Error result) ''at capacity'' \<and> j = Some (execute_reply ''failed'' best x result))"
        using assms Some call Inr by (subst (asm) execute_loop.simps)
          (auto simp: Let_def status_codes split: if_splits)
      then show ?thesis using best_agent_some [OF Some] call Inr unfolding executed_by_def by blast
    qed
  qed
qed

lemma execute_loop_reply:
  "execute_loop E fn name args x es s = Some (Reply c j, s') \<Longrightarrow>
     \<exists>s0. (s0 = s \<or> Resume s0 \<in> set es) \<and> executed_by E fn name args x c j s0 s'"
proof (induction es arbitrary: s)
  case Nil
  then show ?case using execute_loop_step [OF Nil] by auto
next
  case (Cons e es)
  show ?case
    using execute_loop_step [OF Cons.prems] Cons.IH by auto
qed

section \<open>Requests as runs of the registry\<close>

text \<open>
  Whatever a request does to the store it does through the registry, and it only ever registers
  functions that passed the checks of the function file.
\<close>

definition func_ok :: "func \<Rightarrow> bool" where
  "func_ok f \<longleftrightarrow>
     Name f \<noteq> [] \<and> Handler f \<noteq> [] \<and> MaxConcurrency f \<noteq> 0 \<and>
     MaxConcurrencyBehavior f \<in> {ConcurrencyBehaviorWait, ConcurrencyBehaviorExit} \<and>
     ResourcePressureBehavior f \<in> {PressureBehaviorWait, PressureBehaviorExit}"

lemma function_of_yaml_ok: "function_of_yaml fy = Inr f \<Longrightarrow> func_ok f"
  by (auto simp: function_of_yaml_def func_ok_def Let_def split: if_splits)

fun op_ok :: "registry_op \<Rightarrow> bool" where
  "op_ok (OpFunction f) = func_ok f"
| "op_ok _ = True"

definition registry_run :: "'m memory \<Rightarrow> 'm \<Rightarrow> 'm \<Rightarrow> bool" where
  "registry_run M m m' \<longleftrightarrow> (\<exists>ops. list_all op_ok ops \<and> m' = run_ops M ops m)"

lemma run_refl [simp]: "registry_run M m m"
  unfolding registry_run_def by (rule exI [of _ "[]"]) (simp add: run_ops_def)

lemma run_step:
  assumes "registry_run M m m'" and "op_ok op"
  shows "registry_run M m (registry_step M op m')"
proof -
  obtain ops where "list_all op_ok ops" "m' = run_ops M ops m"
    using assms(1) by (auto simp: registry_run_def)
  then show ?thesis unfolding registry_run_def
    by (intro exI [of _ "ops @ [op]"]) (simp add: run_ops_def assms(2))
qed

lemma run_trans: "registry_run M m m' \<Longrightarrow> registry_run M m' m'' \<Longrightarrow> registry_run M m m''"
  unfolding registry_run_def run_ops_def by (metis fold_append comp_apply list_all_append)

text \<open>The initializer is held to the same.\<close>

locale fleet_initializer =
  fixes M :: "'m memory" and I :: "('m \<times> 'w) initializer"
  assumes initialize_runs: "InitializeNodes I (m, w) = (r, (m', w')) \<Longrightarrow> registry_run M m m'"
    and terminate_runs: "TerminateNodes I (m, w) = (n, (m', w')) \<Longrightarrow> registry_run M m m'"

lemma execute_loop_store:
  "execute_loop E fn name args x es s = Some (resp, s') \<Longrightarrow>
     \<exists>s0. (s0 = s \<or> Resume s0 \<in> set es) \<and> api_store s' = api_store s0"
proof (induction es arbitrary: s)
  case Nil
  then show ?case by (subst (asm) execute_loop.simps)
      (auto simp: Let_def split: option.splits sum.splits prod.splits if_splits)
next
  case (Cons e es)
  show ?case
  proof (cases "\<exists>s1. e = Resume s1 \<and> execute_loop E fn name args x es s1 = Some (resp, s')")
    case True
    then show ?thesis using Cons.IH by auto
  next
    case False
    then have "api_store s' = api_store s" using Cons.prems
      by (subst (asm) execute_loop.simps)
        (auto simp: Let_def split: option.splits sum.splits prod.splits if_splits wait_event.splits)
    then show ?thesis by blast
  qed
qed

lemma handler_runs:
  "registry_run (api_registry E) (api_store s) (api_store (snd (handleRegisterAgent E now r s)))"
  "registry_run (api_registry E) (api_store s) (api_store (snd (handleRegisterFunction E r s)))"
  "registry_run (api_registry E) (api_store s) (api_store (snd (handleDeploy E n r s)))"
  "registry_run (api_registry E) (api_store s) (api_store (snd (handleAsyncExecute E fresh n r s)))"
  "api_store (snd (handleCancelExecution E x s)) = api_store s"
  "api_store (snd (handleGetExecution E x s)) = api_store s"
proof -
  let ?M = "api_registry E"
  have reg: "registry_run ?M m (UpdateNodeStatus ?M i st (RegisterAgent ?M now i a [] [] [] m))" for m i st a
    using run_step [OF run_step [OF run_refl, of "OpRegister now i a [] [] []"], of "OpNodeStatus i st"] by simp
  have ops: "func_ok f \<Longrightarrow> registry_run ?M m (RegisterFunction ?M f m)"
    "registry_run ?M m (reg_SaveCodeArchive ?M k b m)" "registry_run ?M m (reg_SaveExecutionToAgentMap ?M x i m)"
    for m f k b x i
    using run_step [OF run_refl, of "OpFunction f"] run_step [OF run_refl, of "OpCode k b"]
      run_step [OF run_refl, of "OpExecution x i"] by simp_all
  show "registry_run ?M (api_store s) (api_store (snd (handleRegisterAgent E now r s)))"
    using reg by (auto simp: handleRegisterAgent_def Let_def split: sum.splits prod.splits option.splits)
  show "registry_run ?M (api_store s) (api_store (snd (handleRegisterFunction E r s)))"
    using ops(1) function_of_yaml_ok
    by (auto simp: handleRegisterFunction_def Let_def split: sum.splits prod.splits)
  show "registry_run ?M (api_store s) (api_store (snd (handleDeploy E n r s)))"
    using ops(2) by (auto simp: handleDeploy_def Let_def split: sum.splits prod.splits option.splits)
  show "registry_run ?M (api_store s) (api_store (snd (handleAsyncExecute E fresh n r s)))"
    using ops(3) by (auto simp: handleAsyncExecute_def Let_def split: sum.splits prod.splits option.splits)
  show "api_store (snd (handleCancelExecution E x s)) = api_store s"
    by (auto simp: handleCancelExecution_def split: sum.splits prod.splits option.splits)
  show "api_store (snd (handleGetExecution E x s)) = api_store s"
    by (auto simp: handleGetExecution_def split: sum.splits prod.splits option.splits)
qed

lemma fleet_runs:
  assumes "\<And>I. api_init E = Some I \<Longrightarrow> fleet_initializer (api_registry E) I"
  shows "registry_run (api_registry E) (api_store s) (api_store (snd (handleInitialize E s)))"
    and "registry_run (api_registry E) (api_store s) (api_store (snd (handleCleanupNodes E s)))"
proof -
  show "registry_run (api_registry E) (api_store s) (api_store (snd (handleInitialize E s)))"
    using assms fleet_initializer.initialize_runs
    by (fastforce simp: handleInitialize_def split: option.splits prod.splits)
  show "registry_run (api_registry E) (api_store s) (api_store (snd (handleCleanupNodes E s)))"
  proof (cases "api_init E")
    case (Some I)
    obtain n m w where t: "TerminateNodes I (api_store s, api_world s) = (n, (m, w))" by (metis prod_cases3)
    have "registry_run (api_registry E) (api_store s) m"
      by (rule fleet_initializer.terminate_runs [OF assms [OF Some] t])
    from run_step [OF this, of OpFlush] show ?thesis using Some t by (simp add: handleCleanupNodes_def)
  qed (simp add: handleCleanupNodes_def)
qed

lemma execute_runs:
  "handleExecute E fresh ev n r s = Some (resp, s') \<Longrightarrow>
     \<exists>s0. (s0 = s \<or> Resume s0 \<in> set ev) \<and> api_store s' = api_store s0"
  by (auto simp: handleExecute_def dest: execute_loop_store split: sum.splits option.splits)

lemma serve_runs:
  assumes "\<And>I. api_init E = Some I \<Longrightarrow> fleet_initializer (api_registry E) I"
    and "ServeHTTP E now fresh ev r s = Some (resp, s')"
  shows "\<exists>s0. (s0 = s \<or> Resume s0 \<in> set ev) \<and> registry_run (api_registry E) (api_store s0) (api_store s')"
proof (cases "handleExecute E fresh ev (TrimPrefix (URLPath r) ''/execute/'') r s = Some (resp, s')")
  case True
  then show ?thesis using execute_runs by fastforce
next
  case False
  have "registry_run (api_registry E) (api_store s) (api_store s')"
    using assms(2) False fleet_runs [OF assms(1)]
    by (auto simp: ServeHTTP_def Let_def handler_runs handleHealth_def handleGetAgents_def handleResources_def
        dest!: arg_cong [of _ _ snd] split: if_splits)
  then show ?thesis by blast
qed

definition api_ok :: "('m \<Rightarrow> store_view) \<Rightarrow> ('m \<Rightarrow> bool) \<Rightarrow> 'm \<Rightarrow> bool" where
  "api_ok view up m \<longleftrightarrow>
     up m \<and> keyed (view m) \<and> (\<forall>n f. v_funcs (view m) n = Some f \<longrightarrow> func_ok f)"

context memory_in_service begin

lemma step_api_ok:
  assumes "api_ok view up m" and "op_ok op"
  shows "api_ok view up (registry_step M op m)"
proof -
  have "v_funcs (view (registry_step M op m)) n = Some f \<Longrightarrow> func_ok f" for n f
    using registry_step_refines [of m op] assms
    by (cases op) (auto simp: api_ok_def put_agent_def modify_view_def empty_view_def
        split: option.splits if_splits)
  then show ?thesis
    using registry_step_refines [of m op] registry_step_keyed [of m op] assms(1) by (auto simp: api_ok_def)
qed

lemma run_api_ok: "registry_run M m m' \<Longrightarrow> api_ok view up m \<Longrightarrow> api_ok view up m'"
proof -
  have "list_all op_ok ops \<Longrightarrow> api_ok view up m \<Longrightarrow> api_ok view up (run_ops M ops m)" for ops m
    by (induction ops arbitrary: m) (simp_all add: run_ops_def step_api_ok)
  then show "registry_run M m m' \<Longrightarrow> api_ok view up m \<Longrightarrow> api_ok view up m'"
    by (auto simp: registry_run_def)
qed

end

section \<open>Dispatching\<close>

lemma route_async:
  assumes "Method r = ''POST''" and "URLPath r = ''/execute/'' @ n @ ''/async''" and "authenticate E r"
  shows "ServeHTTP E now fresh ev r s = Some (handleAsyncExecute E fresh n r s)"
proof -
  have "HasSuffix (URLPath r) ''/async''"
    unfolding HasSuffix_iff assms(2) by (rule exI [of _ "''/execute/'' @ n"]) simp
  moreover have "TrimSuffix (TrimPrefix (URLPath r) ''/execute/'') ''/async'' = n"
    unfolding assms(2) TrimPrefix_append TrimSuffix_append ..
  moreover have "HasPrefix (URLPath r) ''/execute/''" unfolding assms(2) by (rule HasPrefix_append)
  moreover have "\<not> HasPrefix (URLPath r) ''/deploy/''" "\<not> HasPrefix (URLPath r) ''/executions/''"
    unfolding assms(2) by (simp_all add: HasPrefix_def)
  ultimately show ?thesis using assms by (simp add: ServeHTTP_def Let_def)
qed

text \<open>The agent a function goes to, stated on the stored records.\<close>

definition best_stored :: "store_view \<Rightarrow> func \<Rightarrow> agent \<Rightarrow> bool" where
  "best_stored v fn a \<longleftrightarrow>
     v_agents v (ID a) = Some a \<and> Status a = AgentOnline \<and> CanFit a fn \<and>
     (\<forall>i b. v_agents v i = Some b \<and> Status b = AgentOnline \<and> CanFit b fn \<longrightarrow>
        \<not> flt (AvailableScore a) (AvailableScore b))"

lemma async_cases:
  assumes "handleAsyncExecute E fresh n r s = (Reply c j, s')"
  obtains args fn best resp w where "decode_body decode_execute_request (Body r) = Inr args"
    and "reg_GetFunction (api_registry E) n (api_store s) = Some fn"
    and "best_agent fn (GetAvailableAgents (api_registry E) (api_store s)) None = Some best"
    and "ExecuteFunctionOn (api_client E) best n args (''exc-'' @ fresh) True (api_world s) = (Inr resp, w)"
    and "c = 202" and "j = Some (JObj [(''execution_id'', JStr (''exc-'' @ fresh)), (''status'', JStr ''accepted'')])"
    and "s' = s\<lparr>api_world := w,
      api_store := reg_SaveExecutionToAgentMap (api_registry E) (''exc-'' @ fresh) (ID best) (api_store s)\<rparr>"
  using assms
  by (auto simp: handleAsyncExecute_def Let_def split: sum.splits option.splits prod.splits)

context memory_in_service begin

lemma available_up:
  assumes "up m" and "keyed (view m)"
  shows "b \<in> set (GetAvailableAgents M m) \<longleftrightarrow>
    v_agents (view m) (ID b) = Some b \<and> Status b = AgentOnline"
proof -
  have "set (GetAvailableAgents M m) = {b \<in> ran (v_agents (view m)). Status b = AgentOnline}"
    using enumerates_set [OF reg_get_all_up [OF assms(1)]]
    by (auto simp: available_eq_online online_of_all)
  then show ?thesis using assms(2) by (auto simp: keyed_def ran_def)
qed

lemma best_up:
  assumes "up m" and "keyed (view m)" and "best_for fn (GetAvailableAgents M m) a"
  shows "best_stored (view m) fn a"
proof -
  have "b \<in> set (GetAvailableAgents M m)" if "v_agents (view m) i = Some b" "Status b = AgentOnline" for i b
    using that assms(2) available_up [OF assms(1,2)] by (auto simp: keyed_def)
  then show ?thesis
    using assms(3) available_up [OF assms(1,2)] by (auto simp: best_for_def best_stored_def)
qed

lemma owner_up:
  assumes "up m" and "v_agents (view m) i = Some a" and "i \<noteq> []" and "api_registry E = M"
    and "api_store s' = reg_SaveExecutionToAgentMap M x i m"
  shows "owning_agent E x s' = Inr a"
  using writes_up(3) [OF assms(1), of x i] reg_get_exec_up reg_get_agent_up assms
  by (simp add: owning_agent_def)

end

section \<open>When the loop waits\<close>

definition waits ::
  "('m, 'w) api_env \<Rightarrow> func \<Rightarrow> string \<Rightarrow> string list \<Rightarrow> string \<Rightarrow> ('m, 'w) api_state \<Rightarrow> bool" where
  "waits E fn name args x s \<longleftrightarrow>
     (case best_agent fn (GetAvailableAgents (api_registry E) (api_store s)) None of
        None \<Rightarrow> ResourcePressureBehavior fn \<noteq> PressureBehaviorExit
      | Some best \<Rightarrow>
          (case ExecuteFunctionOn (api_client E) best name args x False (api_world s) of
             (Inl e, w) \<Rightarrow> False
           | (Inr result, w) \<Rightarrow>
               ExecutionResponse.Error result \<noteq> [] \<and> Contains (ExecutionResponse.Error result) ''at capacity'' \<and>
               MaxConcurrencyBehavior fn \<noteq> ConcurrencyBehaviorExit))"

lemma execute_loop_nil: "execute_loop E fn name args x [] s = None \<longleftrightarrow> waits E fn name args x s"
  by (subst execute_loop.simps)
    (simp add: waits_def Let_def split: option.split sum.split prod.split)

lemma execute_loop_resume:
  "execute_loop E fn name args x (Resume s1 # es) s =
     (if waits E fn name args x s then execute_loop E fn name args x es s1
      else execute_loop E fn name args x [] s)"
  by (subst (1 3) execute_loop.simps)
    (simp add: waits_def Let_def split: option.split sum.split prod.split)

lemma execute_loop_none_iff:
  "execute_loop E fn name args x (map Resume ss) s = None \<longleftrightarrow> (\<forall>s0 \<in> set (s # ss). waits E fn name args x s0)"
  by (induction ss arbitrary: s) (simp_all add: execute_loop_nil execute_loop_resume)

section \<open>A small server\<close>

text \<open>A server over the association-list store, with one function and one agent that answers every call.\<close>

definition lab_yaml :: FunctionYAML where
  "lab_yaml =
     \<lparr>fy_Name = ''f'', fy_Handler = ''main'', Resources = \<lparr>rl_CPU = 100, rl_Memory = 128\<rparr>, Timeout = 30,
      fy_MaxConcurrency = 0, fy_MaxConcurrencyBehavior = [], fy_ResourcePressureBehavior = [], fy_Env = None\<rparr>"

definition lab_api :: "((string \<times> bytes) list, (string, unit) client_state) api_env" where
  "lab_api =
     \<lparr>api_registry = RedisMemory alist_redis,
      api_client = AgentClient echo_grpc linux (None :: (unit, unit) pki option), api_init = None,
      api_key = ''key'', yaml_Unmarshal = (\<lambda>_. Inr lab_yaml),
      host = \<lparr>cpu_Percent = [], VirtualMemory = None, Uptime = 0\<rparr>\<rparr>"

definition lab_served :: "((string \<times> bytes) list, (string, unit) client_state) api_state" where
  "lab_served =
     \<lparr>api_store = run_ops (RedisMemory alist_redis)
        [OpFunction sample_func, OpRegister 0 ''a1'' ''10.0.0.1:50052'' [] [] [], OpNodeStatus ''a1'' sample_status] [],
      api_world = NewAgentClient (), syncs = []\<rparr>"

definition lab_request :: "string \<Rightarrow> string \<Rightarrow> bytes \<Rightarrow> request" where
  "lab_request meth path b =
     \<lparr>Method = meth, URLPath = path, HeaderGet = (\<lambda>h. if h = ''X-API-Key'' then ''key'' else []), Body = Inr b\<rparr>"

lemma lab_run:
  "redis_view (map_of (run_ops (RedisMemory alist_redis) ops [])) = fold view_step ops empty_view"
  "decodable (map_of (run_ops (RedisMemory alist_redis) ops []))"
  "keyed (redis_view (map_of (run_ops (RedisMemory alist_redis) ops [])))"
proof -
  have start: "redis_view Map.empty = empty_view" "keyed (redis_view Map.empty)" "decodable Map.empty"
    by (simp_all add: redis_view_def empty_view_def keyed_def decodable_empty)
  then show "redis_view (map_of (run_ops (RedisMemory alist_redis) ops [])) = fold view_step ops empty_view"
    and "decodable (map_of (run_ops (RedisMemory alist_redis) ops []))"
    using memory_in_service.run_ops_refines
      [OF redis_in_service.redis_memory_in_service [OF alist.redis_in_service_axioms], of "[]" ops] by simp_all
  show "keyed (redis_view (map_of (run_ops (RedisMemory alist_redis) ops [])))"
    using memory_contract.run_ops_keyed [OF redis_server.redis_memory_contract [OF alist.redis_server_axioms], of "[]"]
      start(2) by simp
qed

lemma lab_serving:
  "decodable (map_of (api_store lab_served))" "keyed (redis_view (map_of (api_store lab_served)))"
  unfolding lab_served_def api_state.simps by (rule lab_run)+

lemma lab_api_simps [simp]: "api_registry lab_api = RedisMemory alist_redis" "api_init lab_api = None"
  by (simp_all add: lab_api_def)

lemma lab_request_simps [simp]:
  "Method (lab_request meth path b) = meth" "URLPath (lab_request meth path b) = path"
  "Body (lab_request meth path b) = Inr b" "authenticate lab_api (lab_request meth path b)"
  by (simp_all add: lab_request_def authenticate_def lab_api_def)

section \<open>Properties\<close>

text \<open>
  C7. Without a configured key nothing gets in: a request that presents the key neither in
  X-API-Key nor, when that header is empty, in Authorization (bare or after Bearer) is answered
  with 401 or 404, or is one of the two public reads, and changes nothing: no record, no call to
  an agent or a cloud, no background synchronisation.
\<close>

theorem unauthenticated_no_effect:
  assumes "api_key E \<noteq> []" and "HeaderGet r ''X-API-Key'' \<noteq> api_key E"
    and "HeaderGet r ''X-API-Key'' \<noteq> [] \<or>
      HeaderGet r ''Authorization'' \<noteq> api_key E \<and> HeaderGet r ''Authorization'' \<noteq> bearer @ api_key E"
  shows "\<exists>resp. ServeHTTP E now fresh ev r s = Some (resp, s) \<and>
    (resp = HttpError ''Unauthorized'' 401 \<or> resp = HttpError ''404 page not found'' 404 \<or>
     Method r = ''GET'' \<and> (URLPath r = ''/health'' \<or> URLPath r = ''/agents''))"
proof -
  have "take 7 (HeaderGet r ''Authorization'') = bearer \<Longrightarrow>
      HeaderGet r ''Authorization'' = bearer @ drop 7 (HeaderGet r ''Authorization'')"
    by (metis append_take_drop_id)
  then have "\<not> authenticate E r" using assms by (auto simp: authenticate_def Let_def)
  then show ?thesis
    by (auto simp: ServeHTTP_def Let_def unauthorized_def status_codes handleHealth_def handleGetAgents_def)
qed

theorem unauthenticated_no_effect_witness:
  "\<exists>resp. ServeHTTP lab_api 0 [] [] ((lab_request ''DELETE'' ''/nodes'' (RawBytes []))\<lparr>HeaderGet := \<lambda>_. []\<rparr>) lab_served =
     Some (resp, lab_served) \<and> (resp = HttpError ''Unauthorized'' 401 \<or> resp = HttpError ''404 page not found'' 404)"
  using unauthenticated_no_effect [of lab_api "(lab_request ''DELETE'' ''/nodes'' (RawBytes []))\<lparr>HeaderGet := \<lambda>_. []\<rparr>" 0 "[]" "[]" lab_served]
  by (auto simp: lab_api_def lab_request_def bearer_def)

text \<open>
  C14. An accepted asynchronous execution went to a stored, online agent the function fits on, none
  of which has more headroom: the one call made is \<open>ExecuteFunction\<close> on that agent, asynchronous,
  with the request's arguments and a fresh execution identifier, and the agent accepted it.  The
  answer names the execution, the only record written is its owner, and a later query or
  cancellation of the execution is forwarded to that agent.
\<close>

theorem async_dispatch:
  assumes "redis_in_service R kv live" and "api_registry E = RedisMemory R"
    and "live (api_store s)" and "decodable (kv (api_store s))" and "keyed (redis_view (kv (api_store s)))"
    and "Method r = ''POST''" and "URLPath r = ''/execute/'' @ n @ ''/async''" and "authenticate E r"
    and "ServeHTTP E now fresh ev r s = Some (Reply c j, s')"
  shows "c = 202 \<and>
    j = Some (JObj [(''execution_id'', JStr (''exc-'' @ fresh)), (''status'', JStr ''accepted'')]) \<and>
    (\<exists>args fn best result. decode_body decode_execute_request (Body r) = Inr args \<and>
       v_funcs (redis_view (kv (api_store s))) n = Some fn \<and>
       best_stored (redis_view (kv (api_store s))) fn best \<and>
       ExecuteFunctionOn (api_client E) best n args (''exc-'' @ fresh) True (api_world s) =
         (Inr result, api_world s') \<and> syncs s' = syncs s \<and>
       redis_view (kv (api_store s')) = redis_view (kv (api_store s))
         \<lparr>v_execs := (v_execs (redis_view (kv (api_store s))))(''exc-'' @ fresh \<mapsto> ID best)\<rparr> \<and>
       (ID best \<noteq> [] \<longrightarrow> owning_agent E (''exc-'' @ fresh) s' = Inr best))"
proof -
  note serv = redis_in_service.redis_memory_in_service [OF assms(1)]
  have run: "handleAsyncExecute E fresh n r s = (Reply c j, s')"
    using assms(9) route_async [OF assms(6-8)] by simp
  from run obtain args fn best resp w
    where call: "decode_body decode_execute_request (Body r) = Inr args"
      "ExecuteFunctionOn (api_client E) best n args (''exc-'' @ fresh) True (api_world s) = (Inr resp, w)"
    and a: "reg_GetFunction (api_registry E) n (api_store s) = Some fn"
      "best_agent fn (GetAvailableAgents (api_registry E) (api_store s)) None = Some best"
      "c = 202" "j = Some (JObj [(''execution_id'', JStr (''exc-'' @ fresh)), (''status'', JStr ''accepted'')])"
      "s' = s\<lparr>api_world := w,
        api_store := reg_SaveExecutionToAgentMap (api_registry E) (''exc-'' @ fresh) (ID best) (api_store s)\<rparr>"
    by (rule async_cases)
  have up: "live (api_store s) \<and> decodable (kv (api_store s))" using assms by simp
  have best: "best_stored (redis_view (kv (api_store s))) fn best"
    using memory_in_service.best_up [OF serv up assms(5)] best_agent_some [OF a(2)] assms(2) by simp
  then have "v_agents (redis_view (kv (api_store s))) (ID best) = Some best" by (simp add: best_stored_def)
  from memory_in_service.owner_up [OF serv up this _ assms(2)]
  have "ID best \<noteq> [] \<Longrightarrow> owning_agent E (''exc-'' @ fresh) s' = Inr best" using a(5) assms(2) by simp
  moreover have "redis_view (kv (api_store s')) = redis_view (kv (api_store s))
      \<lparr>v_execs := (v_execs (redis_view (kv (api_store s))))(''exc-'' @ fresh \<mapsto> ID best)\<rparr>"
    using memory_in_service.writes_up(3) [OF serv up] a(5) assms(2) by simp
  moreover have "v_funcs (redis_view (kv (api_store s))) n = Some fn"
    using memory_in_service.reg_get_function_up [OF serv up] a(1) assms(2) by simp
  moreover have "api_world s' = w" "syncs s' = syncs s" using a(5) by simp_all
  ultimately show ?thesis using call a(3,4) best by blast
qed

theorem async_dispatch_witness:
  "\<exists>a. owning_agent lab_api ''exc-1'' (snd (the (ServeHTTP lab_api 0 ''1'' []
     (lab_request ''POST'' ''/execute/resize/async'' (JsonText JNull)) lab_served))) = Inr a \<and> ID a = ''a1''"
proof -
  let ?r = "lab_request ''POST'' ''/execute/resize/async'' (JsonText JNull)"
  let ?o = "ServeHTTP lab_api 0 ''1'' [] ?r lab_served"
  have "case ?o of
     Some (Reply c j, s') \<Rightarrow> v_execs (redis_view (map_of (api_store s'))) ''exc-1'' = Some ''a1'' | _ \<Rightarrow> False"
    by code_simp
  then obtain c j s' where o1: "?o = Some (Reply c j, s')"
    and x: "v_execs (redis_view (map_of (api_store s'))) ''exc-1'' = Some ''a1''"
    by (auto split: option.splits prod.splits response.splits)
  from async_dispatch [OF alist.redis_in_service_axioms _ _ _ _ _ _ _ o1, of "''resize''"]
  show ?thesis using x o1 lab_serving by force
qed

text \<open>
  C6. A synchronous execution that is answered with a document was run, at the start or after some
  wait, by a stored, online, fitting agent with the most headroom at that moment, and the answer
  carries that agent's result: 200 exactly when it reports no error, 500 when it reports one other
  than being at capacity.  No record is written.
\<close>

theorem execute_sound:
  assumes "redis_in_service R kv live" and "api_registry E = RedisMemory R"
    and "\<And>s0. s0 = s \<or> Resume s0 \<in> set ev \<Longrightarrow>
      live (api_store s0) \<and> decodable (kv (api_store s0)) \<and> keyed (redis_view (kv (api_store s0)))"
    and "handleExecute E fresh ev n r s = Some (Reply c j, s')"
  shows "\<exists>args fn s0 best result w. (s0 = s \<or> Resume s0 \<in> set ev) \<and>
    v_funcs (redis_view (kv (api_store s))) n = Some fn \<and> best_stored (redis_view (kv (api_store s0))) fn best \<and>
    ExecuteFunctionOn (api_client E) best n args (''exc-'' @ fresh) False (api_world s0) = (Inr result, w) \<and>
    s' = s0\<lparr>api_world := w\<rparr> \<and>
    (if ExecutionResponse.Error result = []
     then c = 200 \<and> j = Some (execute_reply ''success'' best (''exc-'' @ fresh) result)
     else c = 500 \<and> \<not> Contains (ExecutionResponse.Error result) ''at capacity'' \<and>
       j = Some (execute_reply ''failed'' best (''exc-'' @ fresh) result))"
proof -
  note serv = redis_in_service.redis_memory_in_service [OF assms(1)]
  obtain args fn where fn: "reg_GetFunction (api_registry E) n (api_store s) = Some fn"
    and loop: "execute_loop E fn n args (''exc-'' @ fresh) ev s = Some (Reply c j, s')"
    using assms(4) by (auto simp: handleExecute_def split: sum.splits option.splits)
  obtain s0 where s0: "s0 = s \<or> Resume s0 \<in> set ev"
    and ex: "executed_by E fn n args (''exc-'' @ fresh) c j s0 s'"
    using execute_loop_reply [OF loop] by blast
  obtain best result w where b: "best_for fn (GetAvailableAgents (api_registry E) (api_store s0)) best"
    "ExecuteFunctionOn (api_client E) best n args (''exc-'' @ fresh) False (api_world s0) = (Inr result, w)"
    "s' = s0\<lparr>api_world := w\<rparr>"
    "if ExecutionResponse.Error result = []
     then c = 200 \<and> j = Some (execute_reply ''success'' best (''exc-'' @ fresh) result)
     else c = 500 \<and> \<not> Contains (ExecutionResponse.Error result) ''at capacity'' \<and>
       j = Some (execute_reply ''failed'' best (''exc-'' @ fresh) result)"
    using ex by (auto simp: executed_by_def)
  have "best_stored (redis_view (kv (api_store s0))) fn best"
    using memory_in_service.best_up [OF serv, of "api_store s0" fn best] b(1) assms(2,3) s0 by auto
  moreover have "v_funcs (redis_view (kv (api_store s))) n = Some fn"
    using memory_in_service.reg_get_function_up [OF serv, of "api_store s" n] fn assms(2,3) by auto
  ultimately show ?thesis using s0 b(2-4) by blast
qed

theorem execute_sound_witness:
  "\<exists>fn best. v_funcs (redis_view (map_of (api_store lab_served))) ''resize'' = Some fn \<and>
     best_stored (redis_view (map_of (api_store lab_served))) fn best"
proof -
  let ?o = "handleExecute lab_api ''1'' [] ''resize'' (lab_request ''POST'' ''/execute/resize'' (JsonText JNull)) lab_served"
  have "case ?o of Some (Reply c j, s') \<Rightarrow> True | _ \<Rightarrow> False" by code_simp
  then obtain c j s' where "?o = Some (Reply c j, s')" by (auto split: option.splits prod.splits response.splits)
  from execute_sound [OF alist.redis_in_service_axioms lab_api_simps(1) _ this] lab_serving show ?thesis by auto
qed

text \<open>
  C23. The execution loop waits exactly as long as it has to: whatever states it resumes in, it is
  still waiting if and only if in each of them no agent fits and the function waits on resource
  pressure, or the chosen agent is at capacity and the function waits on concurrency.  It answers
  in the first other state, and it always ends when the client goes away.
\<close>

theorem execute_ends:
  "(handleExecute E fresh (map Resume ss) n r s = None \<longleftrightarrow>
     (\<exists>args fn. decode_body decode_execute_request (Body r) = Inr args \<and>
        reg_GetFunction (api_registry E) n (api_store s) = Some fn \<and>
        (\<forall>s0 \<in> set (s # ss). waits E fn n args (''exc-'' @ fresh) s0))) \<and>
   handleExecute E fresh (map Resume ss @ ClientGone # es) n r s \<noteq> None"
  by (auto simp: handleExecute_def execute_loop_none_iff
      execute_loop_ends [unfolded not_None_eq split_paired_Ex] split: sum.splits option.splits)

definition lab_idle :: "((string \<times> bytes) list, (string, unit) client_state) api_state" where
  "lab_idle = lab_served\<lparr>api_store := run_ops (RedisMemory alist_redis) [OpFunction sample_func] []\<rparr>"

theorem execute_ends_witness:
  "handleExecute lab_api ''1'' (map Resume [lab_idle]) ''resize''
     (lab_request ''POST'' ''/execute/resize'' (JsonText JNull)) lab_idle = None \<and>
   handleExecute lab_api ''1'' (map Resume [lab_served]) ''resize''
     (lab_request ''POST'' ''/execute/resize'' (JsonText JNull)) lab_idle \<noteq> None"
proof -
  let ?r = "lab_request ''POST'' ''/execute/resize'' (JsonText JNull)"
  have args: "decode_body decode_execute_request (Body ?r) = Inr args \<longleftrightarrow> args = []" for args
    by (auto simp: decode_body_def)
  have fn: "reg_GetFunction (api_registry lab_api) ''resize'' (api_store lab_idle) = Some sample_func"
    by code_simp
  have w: "waits lab_api sample_func ''resize'' [] ''exc-1'' lab_idle"
    "\<not> waits lab_api sample_func ''resize'' [] ''exc-1'' lab_served" by code_simp+
  show ?thesis
    using execute_ends [of lab_api "''1''" "[lab_idle]" "''resize''" ?r lab_idle]
      execute_ends [of lab_api "''1''" "[lab_served]" "''resize''" ?r lab_idle] args fn w by simp
qed

end
