(* ===== verification/Api_Registration.thy ===== *)
theory Api_Registration imports Api_Claims Autoscaler_Safety begin

text \<open>
  What the three registering handlers leave in the store: an agent that joins, a function file, a
  code archive; and what the loop that pushes a function or code to the agents reports.
\<close>

section \<open>Pushing to the agents\<close>

text \<open>The status an agent's answer gives it.\<close>

definition answer_status :: "agent \<Rightarrow> go_error option \<Rightarrow> AgentOperationStatus" where
  "answer_status a r =
     (case r of
        None \<Rightarrow> \<lparr>os_AgentID = ID a, os_Status = ''success'', os_Message = []\<rparr>
      | Some e \<Rightarrow> \<lparr>os_AgentID = ID a, os_Status = ''failed'', os_Message = e\<rparr>)"

text \<open>
  \<open>answers push as w sts w'\<close>: each agent was pushed to once and in this order, from world \<open>w\<close> to
  world \<open>w'\<close>, and its status says whether it accepted or, with the error's text, did not.
\<close>

definition answers ::
  "(agent \<Rightarrow> 'w \<Rightarrow> go_error option \<times> 'w) \<Rightarrow> agent list \<Rightarrow> 'w \<Rightarrow> AgentOperationStatus list \<Rightarrow> 'w \<Rightarrow> bool" where
  "answers push as w sts w' \<longleftrightarrow>
     length sts = length as \<and>
     (\<exists>ws. length ws = length as + 1 \<and> ws ! 0 = w \<and> ws ! length as = w' \<and>
        (\<forall>k < length as. push (as ! k) (ws ! k) = (fst (push (as ! k) (ws ! k)), ws ! Suc k) \<and>
           sts ! k = answer_status (as ! k) (fst (push (as ! k) (ws ! k)))))"

lemma answers_Nil: "answers push [] w [] w"
  unfolding answers_def by (intro conjI exI [of _ "[w]"]) simp_all

lemma answers_Cons:
  assumes "push a w = (r, w1)" and "answers push as w1 sts w'"
  shows "answers push (a # as) w (answer_status a r # sts) w'"
proof -
  obtain ws where ws: "length ws = length as + 1" "ws ! 0 = w1" "ws ! length as = w'"
    and step: "\<And>k. k < length as \<Longrightarrow> push (as ! k) (ws ! k) = (fst (push (as ! k) (ws ! k)), ws ! Suc k) \<and>
       sts ! k = answer_status (as ! k) (fst (push (as ! k) (ws ! k)))"
    and len: "length sts = length as"
    using assms(2) unfolding answers_def by blast
  have "push ((a # as) ! k) ((w # ws) ! k) = (fst (push ((a # as) ! k) ((w # ws) ! k)), (w # ws) ! Suc k) \<and>
      (answer_status a r # sts) ! k = answer_status ((a # as) ! k) (fst (push ((a # as) ! k) ((w # ws) ! k)))"
    if "k < length (a # as)" for k
  proof (cases k)
    case 0
    then show ?thesis using assms(1) ws(2) by simp
  next
    case (Suc m)
    then show ?thesis using step [of m] that by simp
  qed
  then show ?thesis using ws len unfolding answers_def by (intro conjI exI [of _ "w # ws"]) simp_all
qed

lemma push_to_agents_answers:
  "push_to_agents push as w = ((sts, n), w') \<Longrightarrow>
     answers push as w sts w' \<and> n = int (length (filter (\<lambda>o1. os_Status o1 = ''success'') sts))"
proof (induction as arbitrary: w sts n w')
  case Nil
  then show ?case by (simp add: answers_Nil)
next
  case (Cons a as)
  obtain r w1 where p: "push a w = (r, w1)" by fastforce
  obtain sts1 n1 w2 where rest: "push_to_agents push as w1 = ((sts1, n1), w2)" by (metis prod.exhaust)
  have "sts = answer_status a r # sts1" "w2 = w'"
    and "n = n1 + (if os_Status (answer_status a r) = ''success'' then 1 else 0)"
    using Cons.prems p rest by (cases r; simp add: answer_status_def)+
  then show ?case using answers_Cons [where push = push, OF p] Cons.IH [OF rest] by simp
qed

section \<open>Joining\<close>

definition joined_agent :: "time \<Rightarrow> string \<Rightarrow> node_status \<Rightarrow> agent" where
  "joined_agent now addr ns =
     (new_agent AgentOnline now (ns_AgentID ns) addr [] [] [])
       \<lparr>NodeStatus := Some ns, ActiveCount := ActiveTasks ns, LastHeartbeat := CollectedAt ns\<rparr>"

context memory_in_service begin

lemma join_up:
  assumes "up m" and "time_json_ok now" and "agent_json_ok (joined_agent now addr ns)"
  shows "view (UpdateNodeStatus M (ns_AgentID ns) ns (RegisterAgent M now (ns_AgentID ns) addr [] [] [] m)) =
    view m\<lparr>v_agents := (v_agents (view m))(ns_AgentID ns \<mapsto> joined_agent now addr ns)\<rparr>"
proof -
  let ?new = "new_agent AgentOnline now (ns_AgentID ns) addr [] [] []"
  have ok: "agent_json_ok ?new" using assms(2) by (simp add: agent_json_ok_def new_agent_def)
  have st: "status_of ns ?new = Some (joined_agent now addr ns)"
    by (simp add: status_of_def joined_agent_def new_agent_def promoted_def)
  have "view (registry_step M (OpNodeStatus (ns_AgentID ns) ns)
      (registry_step M (OpRegister now (ns_AgentID ns) addr [] [] []) m)) =
      view_step (OpNodeStatus (ns_AgentID ns) ns) (view_step (OpRegister now (ns_AgentID ns) addr [] [] []) (view m))"
    using registry_step_refines [OF assms(1)]
      registry_step_refines [of "registry_step M (OpRegister now (ns_AgentID ns) addr [] [] []) m"] by metis
  also have "\<dots> = modify_view (ns_AgentID ns) (status_of ns)
      (view m\<lparr>v_agents := (v_agents (view m))(ns_AgentID ns \<mapsto> ?new)\<rparr>)"
    using ok by (simp add: put_agent_def new_agent_def)
  also have "\<dots> = view m\<lparr>v_agents := (v_agents (view m))(ns_AgentID ns \<mapsto> joined_agent now addr ns)\<rparr>"
  proof -
    have "ID (joined_agent now addr ns) = ns_AgentID ns" by (simp add: joined_agent_def new_agent_def)
    then show ?thesis using st assms(3) by (simp add: modify_view_def put_agent_def)
  qed
  finally show ?thesis by simp
qed

end

section \<open>Properties\<close>

text \<open>
  C26. An agent that answers at the address it is registered under joins the fleet exactly when its
  identifier is not taken by another address: then it is stored online with the loads it
  reported, replacing whatever was stored under its identifier, and its functions are
  synchronised; otherwise the answer is 409 and the store is unchanged.
\<close>

theorem register_agent_outcome:
  assumes "redis_in_service R kv live" and "api_registry E = RedisMemory R"
    and "live (api_store s)" and "decodable (kv (api_store s))"
    and "decode_body decode_register_request (Body r) = Inr req" and "rr_Address req \<noteq> []"
    and "GetNodeStatusOf (api_client E) (probe_agent (rr_Address req)) (api_world s) = (Inr ns, w)"
    and "ns_AgentID ns \<noteq> []" and "time_json_ok now" and "agent_json_ok (joined_agent now (rr_Address req) ns)"
  shows "if \<exists>a. v_agents (redis_view (kv (api_store s))) (ns_AgentID ns) = Some a \<and> Address a \<noteq> rr_Address req
    then handleRegisterAgent E now r s =
      (HttpError ''agent already registered at a different address'' 409, s\<lparr>api_world := w\<rparr>)
    else \<exists>s'. handleRegisterAgent E now r s =
        (Reply 201 (register_reply (ns_AgentID ns) (rr_Address req) ns), s') \<and>
      redis_view (kv (api_store s')) = redis_view (kv (api_store s))
        \<lparr>v_agents := (v_agents (redis_view (kv (api_store s))))
           (ns_AgentID ns \<mapsto> joined_agent now (rr_Address req) ns)\<rparr> \<and>
      api_world s' = w \<and> syncs s' = syncs s @ [(ns_AgentID ns, rr_Address req)]"
proof -
  note serv = redis_in_service.redis_memory_in_service [OF assms(1)]
  have up: "live (api_store s) \<and> decodable (kv (api_store s))" using assms by simp
  note get = memory_in_service.reg_get_agent_up [OF serv up, of "ns_AgentID ns"]
  note join = memory_in_service.join_up [OF serv up assms(9,10)]
  have probe: "GetNodeStatusOf (api_client E)
      \<lparr>ID = [], Address = rr_Address req, ActiveCount = 0, LastHeartbeat = zero_time, Status = AgentOnline,
       ProviderID = [], InstanceType = [], Provider = [], NodeStatus = None\<rparr> (api_world s) = (Inr ns, w)"
    using assms(7) by (simp add: probe_agent_def)
  show ?thesis
    using assms(2,5,6,8) get join probe
    by (auto simp: handleRegisterAgent_def Let_def status_codes split: option.splits)
qed

text \<open>A managed, draining agent that registers itself is online and managed by nobody afterwards.\<close>

theorem register_agent_outcome_witness:
  "\<exists>b :: agent. v_agents (redis_view (map_of (api_store (snd (handleRegisterAgent lab_api 0
       (lab_request ''POST'' ''/agents/register'' (JsonText (JObj [(''address'', JStr ''10.0.0.1:50052'')])))
       (lab_served\<lparr>api_store := lab_store [lab_agent ''10.0.0.1:50052'' AgentDraining]\<rparr>))))))
     ''10.0.0.1:50052'' = Some b \<and> Provider b = [] \<and> Status b = AgentOnline"
proof -
  let ?r = "lab_request ''POST'' ''/agents/register'' (JsonText (JObj [(''address'', JStr ''10.0.0.1:50052'')]))"
  let ?s = "lab_served\<lparr>api_store := lab_store [lab_agent ''10.0.0.1:50052'' AgentDraining]\<rparr>"
  let ?ns = "\<lparr>ns_AgentID = ''10.0.0.1:50052'', CPUPercent = Fin 10, MemPercent = Fin 20, MemTotalMB = 8192,
         MemUsedMB = 1024, ActiveTasks = 0, UptimeSec = 60, CollectedAt = 0\<rparr> :: node_status"
  have fold: "equal_fold ''address'' ''address''" "\<not> equal_fold ''address'' ''tls''" by code_simp+
  have dec: "decode_body decode_register_request (Body ?r) = Inr \<lparr>rr_Address = ''10.0.0.1:50052'', rr_TLS = False\<rparr>"
    using fold by (simp add: decode_body_def)
  obtain w where probe: "GetNodeStatusOf (api_client lab_api) (probe_agent ''10.0.0.1:50052'') (api_world ?s) = (Inr ?ns, w)"
    by (simp add: lab_api_def AgentClient_def client_GetNodeStatus_def with_client_def get_client_def
        client_creds_def probe_agent_def echo_grpc_def echo_report_def lab_served_def NewAgentClient_def)
  have ok: "time_json_ok 0" "agent_json_ok (joined_agent 0 ''10.0.0.1:50052'' ?ns)" by code_simp+
  have stored: "v_agents (redis_view (map_of (api_store ?s))) ''10.0.0.1:50052'' =
      Some (lab_agent ''10.0.0.1:50052'' AgentDraining)" "decodable (map_of (api_store ?s))"
    by (simp_all add: lab_stored)
  have addr: "Address (lab_agent ''10.0.0.1:50052'' AgentDraining) = ''10.0.0.1:50052''"
    by (simp add: lab_agent_def sample_agent_def)
  from register_agent_outcome [OF alist.redis_in_service_axioms lab_api_simps(1) TrueI stored(2) dec _ _ _ ok(1), of ?ns w]
  show ?thesis using probe ok(2) stored(1) addr by (force simp: joined_agent_def new_agent_def)
qed

text \<open>
  C24. A function file that passes the checks is stored under its name, in a valid form and as the
  only change, and then registered on every stored agent, one after the other: the statuses report,
  agent by agent, whether its call of \<open>RegisterFunction\<close> succeeded.  The answer is 201 with these
  statuses and the number of successes when there is one, and 500 when there is none, the function
  being stored all the same.
\<close>

theorem function_registration:
  assumes "redis_in_service R kv live" and "api_registry E = RedisMemory R"
    and "live (api_store s)" and "decodable (kv (api_store s))"
    and "Body r = Inr b" and "\<not> bytes_empty b" and "yaml_Unmarshal E b = Inr fy"
  shows "case function_of_yaml fy of
      Inl e \<Rightarrow> handleRegisterFunction E r s = (HttpError e 400, s)
    | Inr f \<Rightarrow> func_ok f \<and>
        (\<exists>as sts s'. redis_view (kv (api_store s')) = redis_view (kv (api_store s))
             \<lparr>v_funcs := (v_funcs (redis_view (kv (api_store s))))(Name f \<mapsto> f)\<rparr> \<and> syncs s' = syncs s \<and>
           enumerates as (v_agents (redis_view (kv (api_store s)))) \<and>
           answers (\<lambda>a. RegisterFunctionOn (api_client E) a f) as (api_world s) sts (api_world s') \<and>
           handleRegisterFunction E r s =
             (if \<exists>o1 \<in> set sts. os_Status o1 = ''success''
              then Reply 201 (Some (push_reply ''registered_count'' sts
                     (int (length (filter (\<lambda>o1. os_Status o1 = ''success'') sts))) (int (length as))))
              else HttpError ''failed to register function on any agent'' 500, s'))"
proof (cases "function_of_yaml fy")
  case (Inl e)
  then show ?thesis using assms(5-7) by (simp add: handleRegisterFunction_def status_codes)
next
  case (Inr f)
  note serv = redis_in_service.redis_memory_in_service [OF assms(1)]
  have up: "live (api_store s) \<and> decodable (kv (api_store s))" using assms by simp
  let ?m = "RegisterFunction (api_registry E) f (api_store s)"
  let ?as = "reg_GetAllAgents (api_registry E) ?m"
  obtain sts n w where push: "push_to_agents (\<lambda>a. RegisterFunctionOn (api_client E) a f) ?as (api_world s) = ((sts, n), w)"
    by (metis prod.exhaust)
  note spec = push_to_agents_answers [OF push]
  note view = memory_in_service.writes_up(1) [OF serv up, of f]
  have as: "enumerates ?as (v_agents (redis_view (kv (api_store s))))"
    using memory_in_service.reg_get_all_up [OF serv, of ?m] view assms(2) by simp
  have none: "n = 0 \<longleftrightarrow> \<not> (\<exists>o1 \<in> set sts. os_Status o1 = ''success'')"
    using spec by (auto simp: filter_empty_conv)
  let ?s' = "s\<lparr>api_store := ?m, api_world := w\<rparr>"
  have run: "handleRegisterFunction E r s =
      (if n = 0 then HttpError ''failed to register function on any agent'' 500
       else Reply 201 (Some (push_reply ''registered_count'' sts n (int (length ?as)))), ?s')"
    using Inr assms(5-7) push by (simp add: handleRegisterFunction_def Let_def status_codes)
  have "redis_view (kv (api_store ?s')) = redis_view (kv (api_store s))
      \<lparr>v_funcs := (v_funcs (redis_view (kv (api_store s))))(Name f \<mapsto> f)\<rparr>"
    using view assms(2) by simp
  then show ?thesis
    unfolding Inr sum.case using function_of_yaml_ok [OF Inr] run spec none as
    by (intro conjI exI [of _ ?as] exI [of _ sts] exI [of _ ?s']) simp_all
qed

theorem function_registration_witness:
  "\<exists>s'. handleRegisterFunction lab_api (lab_request ''PUT'' ''/functions'' (RawBytes ''name: f'')) lab_idle =
     (HttpError ''failed to register function on any agent'' 500, s') \<and>
     v_funcs (redis_view (map_of (api_store s'))) ''f'' \<noteq> None"
proof -
  obtain f where f: "function_of_yaml lab_yaml = Inr f" "Name f = ''f''"
    by (simp add: function_of_yaml_def lab_yaml_def)
  have serv: "decodable (map_of (api_store lab_idle))" "v_agents (redis_view (map_of (api_store lab_idle))) = Map.empty"
    by (simp_all add: lab_idle_def lab_run empty_view_def)
  have none: "as = [] \<Longrightarrow> answers push as w sts w' \<Longrightarrow> sts = []"
    for as and push :: "agent \<Rightarrow> (string, unit) client_state \<Rightarrow> go_error option \<times> (string, unit) client_state" and w w' sts
    by (simp add: answers_def)
  have empty: "enumerates as Map.empty \<Longrightarrow> as = []" for as :: "agent list"
    using enumerates_length [of as Map.empty] by simp
  from function_registration [OF alist.redis_in_service_axioms lab_api_simps(1) TrueI serv(1), of
      "lab_request ''PUT'' ''/functions'' (RawBytes ''name: f'')" "RawBytes ''name: f''" lab_yaml]
  obtain as sts s' where "v_funcs (redis_view (map_of (api_store s'))) ''f'' = Some f"
    "enumerates as (v_agents (redis_view (map_of (api_store lab_idle))))"
    "answers (\<lambda>a. RegisterFunctionOn (api_client lab_api) a f) as (api_world lab_idle) sts (api_world s')"
    "handleRegisterFunction lab_api (lab_request ''PUT'' ''/functions'' (RawBytes ''name: f'')) lab_idle =
       (if \<exists>o1 \<in> set sts. os_Status o1 = ''success''
        then Reply 201 (Some (push_reply ''registered_count'' sts
               (int (length (filter (\<lambda>o1. os_Status o1 = ''success'') sts))) (int (length as))))
        else HttpError ''failed to register function on any agent'' 500, s')"
    using f by (force simp: lab_api_def bytes_empty_def)
  then show ?thesis using none empty serv(2) by force
qed

text \<open>
  C25. An archive for a registered function is stored under the function's name as the only change
  of the store, and then deployed to every online agent, one after the other; without an online
  agent the answer is 503, with one that accepts it 201 and the statuses, otherwise 500.  In all
  three cases the archive stays stored, for the agents that join later.
\<close>

theorem deploy_outcome:
  assumes "redis_in_service R kv live" and "api_registry E = RedisMemory R"
    and "live (api_store s)" and "decodable (kv (api_store s))"
    and "v_funcs (redis_view (kv (api_store s))) n \<noteq> None" and "Body r = Inr b" and "\<not> bytes_empty b"
  shows "\<exists>all as sts s'. redis_view (kv (api_store s')) = redis_view (kv (api_store s))
      \<lparr>v_codes := (v_codes (redis_view (kv (api_store s))))(n \<mapsto> b)\<rparr> \<and> syncs s' = syncs s \<and>
    enumerates all (v_agents (redis_view (kv (api_store s)))) \<and> as = filter (\<lambda>a. Status a = AgentOnline) all \<and>
    answers (\<lambda>a. DeployFunctionOn (api_client E) a n b) as (api_world s) sts (api_world s') \<and>
    handleDeploy E n r s =
      (if as = [] then HttpError ''no agents available'' 503
       else if \<exists>o1 \<in> set sts. os_Status o1 = ''success''
       then Reply 201 (Some (push_reply ''deployed_count'' sts
              (int (length (filter (\<lambda>o1. os_Status o1 = ''success'') sts))) (int (length as))))
       else HttpError ''failed to deploy to any agent'' 500, s')"
proof -
  note serv = redis_in_service.redis_memory_in_service [OF assms(1)]
  have up: "live (api_store s) \<and> decodable (kv (api_store s))" using assms by simp
  obtain f where f: "reg_GetFunction (api_registry E) n (api_store s) = Some f"
    using memory_in_service.reg_get_function_up [OF serv up] assms(2,5) by auto
  let ?m = "reg_SaveCodeArchive (api_registry E) n b (api_store s)"
  let ?all = "reg_GetAllAgents (api_registry E) ?m" and ?as = "GetAvailableAgents (api_registry E) ?m"
  obtain sts k w where push: "push_to_agents (\<lambda>a. DeployFunctionOn (api_client E) a n b) ?as (api_world s) = ((sts, k), w)"
    by (metis prod.exhaust)
  note spec = push_to_agents_answers [OF push]
  note view = memory_in_service.writes_up(2) [OF serv up, of n b]
  have all: "enumerates ?all (v_agents (redis_view (kv (api_store s))))"
    using memory_in_service.reg_get_all_up [OF serv, of ?m] view assms(2) by simp
  have as: "?as = filter (\<lambda>a. Status a = AgentOnline) ?all" by (simp add: available_eq_online online_of_all)
  have none: "k = 0 \<longleftrightarrow> \<not> (\<exists>o1 \<in> set sts. os_Status o1 = ''success'')"
    using spec by (auto simp: filter_empty_conv)
  let ?s' = "s\<lparr>api_store := ?m, api_world := w\<rparr>"
  have w: "?as = [] \<Longrightarrow> w = api_world s" using push by simp
  have run: "handleDeploy E n r s =
      (if ?as = [] then HttpError ''no agents available'' 503
       else if k = 0 then HttpError ''failed to deploy to any agent'' 500
       else Reply 201 (Some (push_reply ''deployed_count'' sts k (int (length ?as)))), ?s')"
    using f assms(6,7) push w by (simp add: handleDeploy_def Let_def status_codes)
  have "redis_view (kv (api_store ?s')) = redis_view (kv (api_store s))
      \<lparr>v_codes := (v_codes (redis_view (kv (api_store s))))(n \<mapsto> b)\<rparr>"
    using view assms(2) by simp
  then show ?thesis
    using run spec none all as by (intro exI [of _ ?all] exI [of _ ?as] exI [of _ sts] exI [of _ ?s'] conjI) simp_all
qed

theorem deploy_outcome_witness:
  "\<exists>s'. handleDeploy lab_api ''resize'' (lab_request ''PUT'' ''/deploy/resize'' (RawBytes ''zip'')) lab_idle =
     (HttpError ''no agents available'' 503, s') \<and>
     v_codes (redis_view (map_of (api_store s'))) ''resize'' = Some (RawBytes ''zip'')"
proof -
  have serv: "decodable (map_of (api_store lab_idle))" "v_agents (redis_view (map_of (api_store lab_idle))) = Map.empty"
    "v_funcs (redis_view (map_of (api_store lab_idle))) ''resize'' \<noteq> None"
    by (simp_all add: lab_idle_def lab_run empty_view_def sample_func_def)
  have empty: "enumerates all Map.empty \<Longrightarrow> all = []" for all :: "agent list"
    using enumerates_length [of all Map.empty] by simp
  from deploy_outcome [OF alist.redis_in_service_axioms lab_api_simps(1) TrueI serv(1,3), of
      "lab_request ''PUT'' ''/deploy/resize'' (RawBytes ''zip'')" "RawBytes ''zip''"]
  show ?thesis using empty serv(2) by (force simp: bytes_empty_def)
qed

end
