(* ===== verification/Pki.thy ===== *)
theory Pki imports Agent_Client begin

text \<open>
  \<open>pkg/pki/pki.go\<close>: the certificate authority, the client certificate and the SSH key under the
  certificate directory.  Files, keys, certificates and the clock belong to Go's libraries: a
  record \<open>crypto\<close> over an outside state \<open>'w\<close>.  A key pair is its private key.
\<close>

section \<open>The libraries\<close>

datatype key_usage = DigitalSignature | KeyEncipherment | CertSign | CRLSign
datatype ext_key_usage = ServerAuth | ClientAuth

record certificate_template =
  SerialNumber :: int
  CommonName :: string
  DNSNames :: "string list"
  NotBefore :: time
  NotAfter :: time
  KeyUsage :: "key_usage list"
  ExtKeyUsage :: "ext_key_usage list"
  BasicConstraintsValid :: bool
  IsCA :: bool
  MaxPathLen :: int

text \<open>\<open>SelfIssued\<close>: the template is its own parent, as for the authority.\<close>

datatype 'crt issuer = SelfIssued | IssuedBy 'crt

record ('crt, 'key, 'w) crypto =
  fs_Abs :: "string \<Rightarrow> go_error + string"
  fs_Stat :: "string \<Rightarrow> 'w \<Rightarrow> bool"
  fs_ReadFile :: "string \<Rightarrow> 'w \<Rightarrow> go_error + string"
  fs_WriteFile :: "string \<Rightarrow> string \<Rightarrow> nat \<Rightarrow> 'w \<Rightarrow> (go_error + unit) \<times> 'w"
  fs_MkdirAll :: "string \<Rightarrow> nat \<Rightarrow> 'w \<Rightarrow> (go_error + unit) \<times> 'w"
  ecdsa_GenerateKey :: "'w \<Rightarrow> (go_error + 'key) \<times> 'w"
  rand_Int :: "int \<Rightarrow> 'w \<Rightarrow> (go_error + int) \<times> 'w"
  x509_CreateCertificate ::
    "certificate_template \<Rightarrow> 'crt issuer \<Rightarrow> 'key \<Rightarrow> 'key \<Rightarrow> 'w \<Rightarrow> (go_error + string) \<times> 'w"
  x509_ParseCertificate :: "string \<Rightarrow> go_error + 'crt"
  crt_Raw :: "'crt \<Rightarrow> string"
  x509_MarshalECPrivateKey :: "'key \<Rightarrow> go_error + string"
  x509_ParseECPrivateKey :: "string \<Rightarrow> go_error + 'key"
  pem_EncodeToMemory :: "string \<Rightarrow> string \<Rightarrow> string"
  pem_Decode :: "string \<Rightarrow> string option"
  ssh_AuthorizedKey :: "'key \<Rightarrow> go_error + string"
  pki_Now :: "'w \<Rightarrow> time"

text \<open>The shape of Go's error handling: stop at the first error, or give it a prefix and stop.\<close>

definition andthen :: "(go_error + 'a) \<times> 'w \<Rightarrow> ('a \<Rightarrow> 'w \<Rightarrow> (go_error + 'b) \<times> 'w) \<Rightarrow> (go_error + 'b) \<times> 'w" where
  "andthen r f = (case r of (Inl e, w) \<Rightarrow> (Inl e, w) | (Inr a, w) \<Rightarrow> f a w)"

definition wrapped :: "string \<Rightarrow> (go_error + 'a) \<times> 'w \<Rightarrow> (go_error + 'a) \<times> 'w" where
  "wrapped msg r = (case r of (Inl e, w) \<Rightarrow> (Inl (msg @ e), w) | (Inr a, w) \<Rightarrow> (Inr a, w))"

lemma andthen_Inr: "andthen r f = (Inr b, w') \<longleftrightarrow> (\<exists>a w. r = (Inr a, w) \<and> f a w = (Inr b, w'))"
  by (auto simp: andthen_def split: prod.splits sum.splits)

lemma wrapped_Inr [simp]: "wrapped msg r = (Inr a, w) \<longleftrightarrow> r = (Inr a, w)"
  by (auto simp: wrapped_def split: prod.splits sum.splits)

lemma andthen_Inr_arg [simp]: "andthen (Inr a, w) f = f a w"
  by (simp add: andthen_def)

section \<open>Helpers\<close>

definition fileExists :: "('crt, 'key, 'w) crypto \<Rightarrow> string \<Rightarrow> 'w \<Rightarrow> bool" where
  "fileExists C path w = fs_Stat C path w"

definition writeFile :: "('crt, 'key, 'w) crypto \<Rightarrow> string \<Rightarrow> string \<Rightarrow> nat \<Rightarrow> 'w \<Rightarrow> (go_error + unit) \<times> 'w" where
  "writeFile C path data perm w = wrapped (''write '' @ path @ '': '') (fs_WriteFile C path data perm w)"

definition pemEncodeCert :: "('crt, 'key, 'w) crypto \<Rightarrow> string \<Rightarrow> string" where
  "pemEncodeCert C der = pem_EncodeToMemory C ''CERTIFICATE'' der"

definition randomSerial :: "('crt, 'key, 'w) crypto \<Rightarrow> 'w \<Rightarrow> (go_error + int) \<times> 'w" where
  "randomSerial C w = rand_Int C (2 ^ 128) w"

text \<open>Permissions are octal in the source: 0600 is 384, 0644 is 420, 0700 is 448.\<close>

definition writeECKey :: "('crt, 'key, 'w) crypto \<Rightarrow> string \<Rightarrow> 'key \<Rightarrow> 'w \<Rightarrow> (go_error + unit) \<times> 'w" where
  "writeECKey C path key w =
     andthen (x509_MarshalECPrivateKey C key, w) (\<lambda>der w.
       writeFile C path (pem_EncodeToMemory C ''EC PRIVATE KEY'' der) 384 w)"

definition loadCA :: "('crt, 'key, 'w) crypto \<Rightarrow> string \<Rightarrow> string \<Rightarrow> 'w \<Rightarrow> go_error + ('crt \<times> 'key)" where
  "loadCA C certPath keyPath w =
     (case fs_ReadFile C certPath w of
        Inl e \<Rightarrow> Inl e
      | Inr certData \<Rightarrow>
          (case pem_Decode C certData of
             None \<Rightarrow> Inl (''no PEM block in '' @ certPath)
           | Some block \<Rightarrow>
               (case x509_ParseCertificate C block of
                  Inl e \<Rightarrow> Inl e
                | Inr cert \<Rightarrow>
                    (case fs_ReadFile C keyPath w of
                       Inl e \<Rightarrow> Inl e
                     | Inr keyData \<Rightarrow>
                         (case pem_Decode C keyData of
                            None \<Rightarrow> Inl (''no PEM block in '' @ keyPath)
                          | Some keyBlock \<Rightarrow>
                              (case x509_ParseECPrivateKey C keyBlock of
                                 Inl e \<Rightarrow> Inl e
                               | Inr key \<Rightarrow> Inr (cert, key)))))))"

definition minutes :: "int \<Rightarrow> duration" where
  "minutes n = n * 60 * 10 ^ 9"

definition days :: "int \<Rightarrow> duration" where
  "days n = n * 24 * 60 * 60 * 10 ^ 9"

section \<open>The authority\<close>

definition ca_template :: "int \<Rightarrow> time \<Rightarrow> certificate_template" where
  "ca_template serial now =
     \<lparr>SerialNumber = serial, CommonName = ''flux-ca'', DNSNames = [], NotBefore = now - minutes 5,
      NotAfter = now + days (10 * 365), KeyUsage = [CertSign, CRLSign], ExtKeyUsage = [],
      BasicConstraintsValid = True, IsCA = True, MaxPathLen = 1\<rparr>"

definition initCA ::
  "('crt, 'key, 'w) crypto \<Rightarrow> platform \<Rightarrow> ('crt, 'key) pki \<Rightarrow> 'w \<Rightarrow> (go_error + ('crt, 'key) pki) \<times> 'w" where
  "initCA C pf p w =
     (let caDir = Join pf [certsDir p, ''ca'']; certPath = Join pf [caDir, ''ca.pem''];
          keyPath = Join pf [caDir, ''ca-key.pem'']
      in if fileExists C certPath w \<and> fileExists C keyPath w then
           (case loadCA C certPath keyPath w of
              Inl e \<Rightarrow> (Inl (''load existing CA: '' @ e), w)
            | Inr (cert, key) \<Rightarrow> (Inr (p\<lparr>caCert := Some cert, caKey := Some key\<rparr>), w))
         else
           andthen (wrapped (''mkdir '' @ caDir @ '': '') (fs_MkdirAll C caDir 448 w)) (\<lambda>_ w.
           andthen (ecdsa_GenerateKey C w) (\<lambda>key w.
           andthen (randomSerial C w) (\<lambda>serial w.
           andthen (x509_CreateCertificate C (ca_template serial (pki_Now C w)) SelfIssued key key w) (\<lambda>der w.
           andthen (x509_ParseCertificate C der, w) (\<lambda>cert w.
           andthen (writeFile C certPath (pemEncodeCert C der) 420 w) (\<lambda>_ w.
           andthen (writeECKey C keyPath key w) (\<lambda>_ w.
             (Inr (p\<lparr>caCert := Some cert, caKey := Some key\<rparr>), w)))))))))"

section \<open>Leaf certificates\<close>

definition leaf_template :: "int \<Rightarrow> string \<Rightarrow> string list \<Rightarrow> duration \<Rightarrow> time \<Rightarrow> certificate_template" where
  "leaf_template serial cn dnsNames validity now =
     \<lparr>SerialNumber = serial, CommonName = cn, DNSNames = dnsNames, NotBefore = now - minutes 5,
      NotAfter = now + validity, KeyUsage = [DigitalSignature, KeyEncipherment],
      ExtKeyUsage = [ServerAuth, ClientAuth], BasicConstraintsValid = False, IsCA = False, MaxPathLen = 0\<rparr>"

text \<open>
  A \<open>PKI\<close> that \<open>New\<close> returned has its authority; on one that has none \<open>CreateCertificate\<close> would
  dereference nil.
\<close>

definition generateLeaf ::
  "('crt, 'key, 'w) crypto \<Rightarrow> ('crt, 'key) pki \<Rightarrow> string \<Rightarrow> string list \<Rightarrow> duration \<Rightarrow> 'w \<Rightarrow>
   (go_error + string \<times> string) \<times> 'w" where
  "generateLeaf C p cn dnsNames validity w =
     andthen (ecdsa_GenerateKey C w) (\<lambda>key w.
     andthen (randomSerial C w) (\<lambda>serial w.
       (case (caCert p, caKey p) of
          (Some ca, Some caK) \<Rightarrow>
            andthen (x509_CreateCertificate C (leaf_template serial cn dnsNames validity (pki_Now C w))
                       (IssuedBy ca) key caK w) (\<lambda>der w.
            andthen (x509_MarshalECPrivateKey C key, w) (\<lambda>ecBytes w.
              (Inr (pemEncodeCert C der, pem_EncodeToMemory C ''EC PRIVATE KEY'' ecBytes), w)))
        | _ \<Rightarrow> (Inl ''nil pointer dereference'', w))))"

definition initFluxCert ::
  "('crt, 'key, 'w) crypto \<Rightarrow> platform \<Rightarrow> ('crt, 'key) pki \<Rightarrow> 'w \<Rightarrow> (go_error + unit) \<times> 'w" where
  "initFluxCert C pf p w =
     (let fluxDir = Join pf [certsDir p, ''flux'']; certPath = Join pf [fluxDir, ''flux.pem''];
          keyPath = Join pf [fluxDir, ''flux-key.pem'']
      in if fileExists C certPath w \<and> fileExists C keyPath w then (Inr (), w)
         else
           andthen (wrapped (''mkdir '' @ fluxDir @ '': '') (fs_MkdirAll C fluxDir 448 w)) (\<lambda>_ w.
           andthen (wrapped ''generate flux cert: ''
                      (generateLeaf C p ''flux'' [''flux''] (days (5 * 365)) w)) (\<lambda>(certPEM, keyPEM) w.
           andthen (writeFile C certPath certPEM 420 w) (\<lambda>_ w.
             writeFile C keyPath keyPEM 384 w))))"

definition initSSHKey ::
  "('crt, 'key, 'w) crypto \<Rightarrow> platform \<Rightarrow> ('crt, 'key) pki \<Rightarrow> 'w \<Rightarrow> (go_error + ('crt, 'key) pki) \<times> 'w" where
  "initSSHKey C pf p w =
     (let sshDir = Join pf [certsDir p, ''ssh'']; privPath = Join pf [sshDir, ''flux-agent.pem''];
          pubPath = Join pf [sshDir, ''flux-agent.pub'']
      in if fileExists C privPath w \<and> fileExists C pubPath w then
           (case fs_ReadFile C pubPath w of
              Inl e \<Rightarrow> (Inl (''read SSH public key: '' @ e), w)
            | Inr pubData \<Rightarrow> (Inr (p\<lparr>sshPublicKey := pubData\<rparr>), w))
         else
           andthen (wrapped (''mkdir '' @ sshDir @ '': '') (fs_MkdirAll C sshDir 448 w)) (\<lambda>_ w.
           andthen (ecdsa_GenerateKey C w) (\<lambda>key w.
           andthen (writeECKey C privPath key w) (\<lambda>_ w.
           andthen (wrapped ''convert to SSH public key: '' (ssh_AuthorizedKey C key, w)) (\<lambda>pubBytes w.
           andthen (writeFile C pubPath pubBytes 420 w) (\<lambda>_ w.
             (Inr (p\<lparr>sshPublicKey := pubBytes\<rparr>), w)))))))"

section \<open>The PKI\<close>

definition New ::
  "('crt, 'key, 'w) crypto \<Rightarrow> platform \<Rightarrow> string \<Rightarrow> 'w \<Rightarrow> (go_error + ('crt, 'key) pki) \<times> 'w" where
  "New C pf dir w =
     andthen (wrapped ''resolve certs_dir: '' (fs_Abs C dir, w)) (\<lambda>abs w.
     andthen (initCA C pf \<lparr>certsDir = abs, caCert = None, caKey = None, sshPublicKey = []\<rparr> w) (\<lambda>p w.
     andthen (initFluxCert C pf p w) (\<lambda>_ w. initSSHKey C pf p w)))"

text \<open>Certificate, key and authority certificate for an agent, the first two also kept on disk.\<close>

definition MintAgentCert ::
  "('crt, 'key, 'w) crypto \<Rightarrow> platform \<Rightarrow> ('crt, 'key) pki \<Rightarrow> string \<Rightarrow> 'w \<Rightarrow>
   (go_error + string \<times> string \<times> string) \<times> 'w" where
  "MintAgentCert C pf p agentID w =
     (let agentDir = Join pf [certsDir p, ''agents'', agentID]
      in andthen (wrapped (''mkdir '' @ agentDir @ '': '') (fs_MkdirAll C agentDir 448 w)) (\<lambda>_ w.
         andthen (wrapped ''generate agent cert: ''
                    (generateLeaf C p ''flux-agent'' [''flux-agent''] (days 365) w)) (\<lambda>(certPEM, keyPEM) w.
         andthen (writeFile C (Join pf [agentDir, ''agent.pem'']) certPEM 420 w) (\<lambda>_ w.
         andthen (writeFile C (Join pf [agentDir, ''agent-key.pem'']) keyPEM 384 w) (\<lambda>_ w.
           (case caCert p of
              None \<Rightarrow> (Inl ''nil pointer dereference'', w)
            | Some ca \<Rightarrow> (Inr (certPEM, keyPEM, pemEncodeCert C (crt_Raw C ca)), w)))))))"

end
