(* ===== verification/Pki_Claims.thy ===== *)
theory Pki_Claims imports Pki begin

text \<open>
  What the PKI promises over the documented behaviour of the file system and the encodings: a
  restart finds the material the first start made, and an agent's certificate is issued by the
  authority for the name the client verifies.
\<close>

lemma andthen_InrE:
  assumes "andthen r f = (Inr b, w')"
  obtains a w where "r = (Inr a, w)" and "f a w = (Inr b, w')"
  using assms unfolding andthen_Inr by blast

section \<open>The contract of the libraries\<close>

text \<open>What is there, and what can be read, stays so in a later state at the given paths.\<close>

definition keeps :: "('crt, 'key, 'w) crypto \<Rightarrow> (string \<Rightarrow> bool) \<Rightarrow> 'w \<Rightarrow> 'w \<Rightarrow> bool" where
  "keeps C at_path w w' \<longleftrightarrow>
     (\<forall>q. at_path q \<longrightarrow> (fs_Stat C q w \<longrightarrow> fs_Stat C q w') \<and>
        (\<forall>d. fs_ReadFile C q w = Inr d \<longrightarrow> fs_ReadFile C q w' = Inr d))"

lemma keeps_refl [simp]: "keeps C P w w"
  by (simp add: keeps_def)

lemma keeps_trans: "keeps C P w w' \<Longrightarrow> keeps C P w' w'' \<Longrightarrow> keeps C P w w''"
  by (simp add: keeps_def)

lemma keeps_both: "keeps C P w w' \<Longrightarrow> keeps C Q w' w'' \<Longrightarrow> keeps C (\<lambda>q. P q \<and> Q q) w w''"
  by (simp add: keeps_def)

lemma keeps_stat: "keeps C P w w' \<Longrightarrow> P q \<Longrightarrow> fs_Stat C q w \<Longrightarrow> fs_Stat C q w'"
  by (simp add: keeps_def)

lemma keeps_read: "keeps C P w w' \<Longrightarrow> P q \<Longrightarrow> fs_ReadFile C q w = Inr d \<Longrightarrow> fs_ReadFile C q w' = Inr d"
  by (simp add: keeps_def)

lemma keeps_mono: "keeps C P w w' \<Longrightarrow> (\<And>q. Q q \<Longrightarrow> P q) \<Longrightarrow> keeps C Q w w'"
  by (simp add: keeps_def)

locale crypto_contract =
  fixes C :: "('crt, 'key, 'w) crypto"
  assumes write_ok: "fs_WriteFile C p d perm w = (Inr u, w') \<Longrightarrow>
      fs_Stat C p w' \<and> fs_ReadFile C p w' = Inr d \<and> keeps C (\<lambda>q. q \<noteq> p) w w'"
    and mkdir_keeps: "fs_MkdirAll C p perm w = (Inr u, w') \<Longrightarrow> keeps C (\<lambda>_. True) w w'"
    and generate_keeps: "ecdsa_GenerateKey C w = (Inr k, w') \<Longrightarrow> keeps C (\<lambda>_. True) w w'"
    and rand_keeps: "rand_Int C bound w = (Inr n, w') \<Longrightarrow> keeps C (\<lambda>_. True) w w'"
    and create_keeps: "x509_CreateCertificate C t i k s w = (Inr der, w') \<Longrightarrow> keeps C (\<lambda>_. True) w w'"
    and pem_inverse: "pem_Decode C (pem_EncodeToMemory C typ b) = Some b"
    and key_inverse: "x509_MarshalECPrivateKey C k = Inr b \<Longrightarrow> x509_ParseECPrivateKey C b = Inr k"
    and raw_inverse: "x509_ParseCertificate C der = Inr crt \<Longrightarrow> crt_Raw C crt = der"
begin

lemma writeFile_ok:
  "writeFile C p d perm w = (Inr u, w') \<Longrightarrow>
     fs_Stat C p w' \<and> fs_ReadFile C p w' = Inr d \<and> keeps C (\<lambda>q. q \<noteq> p) w w'"
  unfolding writeFile_def wrapped_Inr by (rule write_ok)

lemma writeECKey_ok:
  assumes "writeECKey C p k w = (Inr u, w')"
  obtains d b where "fs_Stat C p w'" and "fs_ReadFile C p w' = Inr d" and "pem_Decode C d = Some b"
    and "x509_ParseECPrivateKey C b = Inr k" and "keeps C (\<lambda>q. q \<noteq> p) w w'"
proof -
  obtain b where b: "x509_MarshalECPrivateKey C k = Inr b"
    "writeFile C p (pem_EncodeToMemory C ''EC PRIVATE KEY'' b) 384 w = (Inr u, w')"
    using assms by (auto simp: writeECKey_def andthen_Inr)
  from writeFile_ok [OF b(2)] show ?thesis
    using that pem_inverse key_inverse [OF b(1)] by blast
qed

lemma loadCA_iff:
  "loadCA C cp kp w = Inr (cert, key) \<longleftrightarrow>
     (\<exists>cd cb kd kb. fs_ReadFile C cp w = Inr cd \<and> pem_Decode C cd = Some cb \<and>
        x509_ParseCertificate C cb = Inr cert \<and> fs_ReadFile C kp w = Inr kd \<and>
        pem_Decode C kd = Some kb \<and> x509_ParseECPrivateKey C kb = Inr key)"
  by (auto simp: loadCA_def split: sum.splits option.splits)

lemma loadCA_keeps:
  "loadCA C cp kp w = Inr (cert, key) \<Longrightarrow> keeps C P w w' \<Longrightarrow> P cp \<Longrightarrow> P kp \<Longrightarrow>
     loadCA C cp kp w' = Inr (cert, key)"
  unfolding loadCA_iff keeps_def by blast

lemma generateLeaf_keeps:
  assumes "generateLeaf C p cn names validity w = (Inr r, w')"
  shows "keeps C (\<lambda>_. True) w w'"
proof -
  obtain k w1 n w2 where "ecdsa_GenerateKey C w = (Inr k, w1)" "randomSerial C w1 = (Inr n, w2)"
    and "keeps C (\<lambda>_. True) w2 w'"
    using assms create_keeps
    by (cases "caCert p"; cases "caKey p") (auto simp: generateLeaf_def andthen_Inr)
  then show ?thesis
    using generate_keeps rand_keeps keeps_trans unfolding randomSerial_def by metis
qed

end

section \<open>The six files\<close>

definition ca_pem :: "platform \<Rightarrow> string \<Rightarrow> string" where
  "ca_pem pf dir = Join pf [Join pf [dir, ''ca''], ''ca.pem'']"

definition ca_key_pem :: "platform \<Rightarrow> string \<Rightarrow> string" where
  "ca_key_pem pf dir = Join pf [Join pf [dir, ''ca''], ''ca-key.pem'']"

definition flux_pem :: "platform \<Rightarrow> string \<Rightarrow> string" where
  "flux_pem pf dir = Join pf [Join pf [dir, ''flux''], ''flux.pem'']"

definition flux_key_pem :: "platform \<Rightarrow> string \<Rightarrow> string" where
  "flux_key_pem pf dir = Join pf [Join pf [dir, ''flux''], ''flux-key.pem'']"

definition ssh_key :: "platform \<Rightarrow> string \<Rightarrow> string" where
  "ssh_key pf dir = Join pf [Join pf [dir, ''ssh''], ''flux-agent.pem'']"

definition ssh_pub :: "platform \<Rightarrow> string \<Rightarrow> string" where
  "ssh_pub pf dir = Join pf [Join pf [dir, ''ssh''], ''flux-agent.pub'']"

definition pki_paths :: "platform \<Rightarrow> string \<Rightarrow> string list" where
  "pki_paths pf dir =
     [ca_pem pf dir, ca_key_pem pf dir, flux_pem pf dir, flux_key_pem pf dir, ssh_key pf dir, ssh_pub pf dir]"

lemmas path_defs = ca_pem_def ca_key_pem_def flux_pem_def flux_key_pem_def ssh_key_def ssh_pub_def

context crypto_contract begin

lemma initCA_ok:
  assumes "initCA C pf p w = (Inr p', w')" and "ca_pem pf (certsDir p) \<noteq> ca_key_pem pf (certsDir p)"
  obtains cert key where "p' = p\<lparr>caCert := Some cert, caKey := Some key\<rparr>"
    and "fs_Stat C (ca_pem pf (certsDir p)) w'" and "fs_Stat C (ca_key_pem pf (certsDir p)) w'"
    and "loadCA C (ca_pem pf (certsDir p)) (ca_key_pem pf (certsDir p)) w' = Inr (cert, key)"
proof (cases "fileExists C (ca_pem pf (certsDir p)) w \<and> fileExists C (ca_key_pem pf (certsDir p)) w")
  case True
  then show ?thesis using assms(1) that
    by (auto simp: initCA_def Let_def fileExists_def simp flip: path_defs split: sum.splits)
next
  case False
  then obtain key der cert w1 w2 u u' where
    parse: "x509_ParseCertificate C der = Inr cert" and
    crt: "writeFile C (ca_pem pf (certsDir p)) (pemEncodeCert C der) 420 w1 = (Inr u, w2)" and
    kf: "writeECKey C (ca_key_pem pf (certsDir p)) key w2 = (Inr u', w')" and
    p': "p' = p\<lparr>caCert := Some cert, caKey := Some key\<rparr>"
    using assms(1) unfolding initCA_def Let_def path_defs [symmetric] if_not_P [OF False]
    by (auto simp: andthen_Inr)
  note c = writeFile_ok [OF crt]
  obtain d b where k: "fs_Stat C (ca_key_pem pf (certsDir p)) w'"
    "fs_ReadFile C (ca_key_pem pf (certsDir p)) w' = Inr d" "pem_Decode C d = Some b"
    "x509_ParseECPrivateKey C b = Inr key" "keeps C (\<lambda>q. q \<noteq> ca_key_pem pf (certsDir p)) w2 w'"
    by (rule writeECKey_ok [OF kf])
  have "fs_Stat C (ca_pem pf (certsDir p)) w'"
    "fs_ReadFile C (ca_pem pf (certsDir p)) w' = Inr (pemEncodeCert C der)"
    using c k(5) assms(2) by (auto simp: keeps_def)
  then show ?thesis
    using that [OF p' _ k(1)] k(2-4) parse pem_inverse unfolding loadCA_iff pemEncodeCert_def by blast
qed

lemma initFluxCert_steps:
  assumes "initFluxCert C pf p w = (Inr u, w')"
    and "\<not> (fileExists C (flux_pem pf (certsDir p)) w \<and> fileExists C (flux_key_pem pf (certsDir p)) w)"
  obtains w1 w2 w3 u1 u2 certPEM keyPEM where
    "fs_MkdirAll C (Join pf [certsDir p, ''flux'']) 448 w = (Inr u1, w1)"
    "generateLeaf C p ''flux'' [''flux''] (days (5 * 365)) w1 = (Inr (certPEM, keyPEM), w2)"
    "writeFile C (flux_pem pf (certsDir p)) certPEM 420 w2 = (Inr u2, w3)"
    "writeFile C (flux_key_pem pf (certsDir p)) keyPEM 384 w3 = (Inr u, w')"
  using assms(1) unfolding initFluxCert_def Let_def path_defs [symmetric] if_not_P [OF assms(2)]
  by (elim andthen_InrE, simp only: wrapped_Inr split: prod.splits, elim andthen_InrE) (rule that)

lemma initSSHKey_steps:
  assumes "initSSHKey C pf p w = (Inr p', w')"
    and "\<not> (fileExists C (ssh_key pf (certsDir p)) w \<and> fileExists C (ssh_pub pf (certsDir p)) w)"
  obtains key w1 w2 w3 u1 u2 u3 pub where
    "fs_MkdirAll C (Join pf [certsDir p, ''ssh'']) 448 w = (Inr u1, w1)"
    "ecdsa_GenerateKey C w1 = (Inr key, w2)"
    "writeECKey C (ssh_key pf (certsDir p)) key w2 = (Inr u2, w3)"
    "writeFile C (ssh_pub pf (certsDir p)) pub 420 w3 = (Inr u3, w')"
    "p' = p\<lparr>sshPublicKey := pub\<rparr>"
  using assms(1) unfolding initSSHKey_def Let_def path_defs [symmetric] if_not_P [OF assms(2)]
  by (elim andthen_InrE) (simp only: wrapped_Inr prod.inject sum.inject)

lemma initFluxCert_ok:
  assumes "initFluxCert C pf p w = (Inr u, w')" and "flux_pem pf (certsDir p) \<noteq> flux_key_pem pf (certsDir p)"
  shows "fs_Stat C (flux_pem pf (certsDir p)) w' \<and> fs_Stat C (flux_key_pem pf (certsDir p)) w' \<and>
    keeps C (\<lambda>q. q \<noteq> flux_pem pf (certsDir p) \<and> q \<noteq> flux_key_pem pf (certsDir p)) w w'"
proof (cases "fileExists C (flux_pem pf (certsDir p)) w \<and> fileExists C (flux_key_pem pf (certsDir p)) w")
  case True
  then show ?thesis using assms(1)
    by (auto simp: initFluxCert_def Let_def fileExists_def simp flip: path_defs)
next
  case False
  obtain w1 w2 w3 u1 u2 certPEM keyPEM where
    steps: "fs_MkdirAll C (Join pf [certsDir p, ''flux'']) 448 w = (Inr u1, w1)"
      "generateLeaf C p ''flux'' [''flux''] (days (5 * 365)) w1 = (Inr (certPEM, keyPEM), w2)" and
    crt: "writeFile C (flux_pem pf (certsDir p)) certPEM 420 w2 = (Inr u2, w3)" and
    kf: "writeFile C (flux_key_pem pf (certsDir p)) keyPEM 384 w3 = (Inr u, w')"
    by (rule initFluxCert_steps [OF assms(1) False])
  note start = keeps_trans [OF mkdir_keeps [OF steps(1)] generateLeaf_keeps [OF steps(2)]]
  have c: "fs_Stat C (flux_pem pf (certsDir p)) w3" "keeps C (\<lambda>q. q \<noteq> flux_pem pf (certsDir p)) w2 w3"
    using writeFile_ok [OF crt] by blast+
  have k: "fs_Stat C (flux_key_pem pf (certsDir p)) w'" "keeps C (\<lambda>q. q \<noteq> flux_key_pem pf (certsDir p)) w3 w'"
    using writeFile_ok [OF kf] by blast+
  show ?thesis
    using keeps_stat [OF k(2) _ c(1)] k(1) keeps_both [OF keeps_both [OF start c(2)] k(2)] assms(2) by simp
qed

lemma initSSHKey_ok:
  assumes "initSSHKey C pf p w = (Inr p', w')" and "ssh_key pf (certsDir p) \<noteq> ssh_pub pf (certsDir p)"
  shows "\<exists>pub. p' = p\<lparr>sshPublicKey := pub\<rparr> \<and> fs_Stat C (ssh_key pf (certsDir p)) w' \<and>
    fs_Stat C (ssh_pub pf (certsDir p)) w' \<and> fs_ReadFile C (ssh_pub pf (certsDir p)) w' = Inr pub \<and>
    keeps C (\<lambda>q. q \<noteq> ssh_key pf (certsDir p) \<and> q \<noteq> ssh_pub pf (certsDir p)) w w'"
proof (cases "fileExists C (ssh_key pf (certsDir p)) w \<and> fileExists C (ssh_pub pf (certsDir p)) w")
  case True
  then show ?thesis using assms(1)
    by (auto simp: initSSHKey_def Let_def fileExists_def simp flip: path_defs split: sum.splits)
next
  case False
  obtain key w1 w2 w3 u1 u2 u3 pub where
    steps: "fs_MkdirAll C (Join pf [certsDir p, ''ssh'']) 448 w = (Inr u1, w1)"
      "ecdsa_GenerateKey C w1 = (Inr key, w2)" and
    kf: "writeECKey C (ssh_key pf (certsDir p)) key w2 = (Inr u2, w3)" and
    pf: "writeFile C (ssh_pub pf (certsDir p)) pub 420 w3 = (Inr u3, w')" and
    p': "p' = p\<lparr>sshPublicKey := pub\<rparr>"
    by (rule initSSHKey_steps [OF assms(1) False])
  note start = keeps_trans [OF mkdir_keeps [OF steps(1)] generate_keeps [OF steps(2)]]
  have key: "fs_Stat C (ssh_key pf (certsDir p)) w3" "keeps C (\<lambda>q. q \<noteq> ssh_key pf (certsDir p)) w2 w3"
    using writeECKey_ok [OF kf] by blast+
  have pub: "fs_Stat C (ssh_pub pf (certsDir p)) w'" "fs_ReadFile C (ssh_pub pf (certsDir p)) w' = Inr pub"
    "keeps C (\<lambda>q. q \<noteq> ssh_pub pf (certsDir p)) w3 w'"
    using writeFile_ok [OF pf] by blast+
  show ?thesis
    using keeps_stat [OF pub(3) _ key(1)] pub(1,2) keeps_both [OF keeps_both [OF start key(2)] pub(3)] assms(2) p'
    by simp
qed

lemma New_ok:
  assumes "fs_Abs C dir = Inr d" and "distinct (pki_paths pf d)" and "New C pf dir w = (Inr p, w1)"
  obtains cert key pub where "p = \<lparr>certsDir = d, caCert = Some cert, caKey = Some key, sshPublicKey = pub\<rparr>"
    and "\<forall>q \<in> set (pki_paths pf d). fs_Stat C q w1"
    and "loadCA C (ca_pem pf d) (ca_key_pem pf d) w1 = Inr (cert, key)"
    and "fs_ReadFile C (ssh_pub pf d) w1 = Inr pub"
proof -
  let ?p0 = "\<lparr>certsDir = d, caCert = None, caKey = None, sshPublicKey = []\<rparr>"
  obtain p1 wa u wb where a: "initCA C pf ?p0 w = (Inr p1, wa)" and b: "initFluxCert C pf p1 wa = (Inr u, wb)"
    and c: "initSSHKey C pf p1 wb = (Inr p, w1)"
    using assms(3) unfolding New_def assms(1) by (auto elim!: andthen_InrE simp: wrapped_def)
  have ne: "ca_pem pf (certsDir ?p0) \<noteq> ca_key_pem pf (certsDir ?p0)" using assms(2) by (simp add: pki_paths_def)
  obtain cert key where ca: "p1 = \<lparr>certsDir = d, caCert = Some cert, caKey = Some key, sshPublicKey = []\<rparr>"
    "fs_Stat C (ca_pem pf d) wa" "fs_Stat C (ca_key_pem pf d) wa"
    "loadCA C (ca_pem pf d) (ca_key_pem pf d) wa = Inr (cert, key)"
    by (rule initCA_ok [OF a ne, simplified])
  have fx: "fs_Stat C (flux_pem pf d) wb \<and> fs_Stat C (flux_key_pem pf d) wb \<and>
      keeps C (\<lambda>q. q \<noteq> flux_pem pf d \<and> q \<noteq> flux_key_pem pf d) wa wb"
    using initFluxCert_ok [OF b] ca(1) assms(2) by (simp add: pki_paths_def)
  obtain pub where ssh: "p = p1\<lparr>sshPublicKey := pub\<rparr>" "fs_Stat C (ssh_key pf d) w1" "fs_Stat C (ssh_pub pf d) w1"
    "fs_ReadFile C (ssh_pub pf d) w1 = Inr pub" "keeps C (\<lambda>q. q \<noteq> ssh_key pf d \<and> q \<noteq> ssh_pub pf d) wb w1"
    using initSSHKey_ok [OF c] ca(1) assms(2) by (auto simp: pki_paths_def)
  note k1 = conjunct2 [OF conjunct2 [OF fx]]
  note kept = keeps_both [OF k1 ssh(5)]
  have "loadCA C (ca_pem pf d) (ca_key_pem pf d) w1 = Inr (cert, key)"
    using loadCA_keeps [OF ca(4) kept] assms(2) by (simp add: pki_paths_def)
  moreover have "fs_Stat C q w1" if "q \<in> set (pki_paths pf d)" for q
    using that keeps_stat [OF kept _ ca(2)] keeps_stat [OF kept _ ca(3)] ssh(2,3) fx
      keeps_stat [OF ssh(5)] assms(2) by (auto simp: pki_paths_def)
  ultimately show ?thesis using that [of cert key pub] ca(1) ssh(1,4) by simp
qed

end

text \<open>The two files of an agent.\<close>

definition agent_pem :: "platform \<Rightarrow> string \<Rightarrow> string \<Rightarrow> string" where
  "agent_pem pf dir i = Join pf [Join pf [dir, ''agents'', i], ''agent.pem'']"

definition agent_key_pem :: "platform \<Rightarrow> string \<Rightarrow> string \<Rightarrow> string" where
  "agent_key_pem pf dir i = Join pf [Join pf [dir, ''agents'', i], ''agent-key.pem'']"

lemma MintAgentCert_steps:
  assumes "MintAgentCert C pf p i w = (Inr (certPEM, keyPEM, caPEM), w')"
  obtains w1 w2 w3 u u' ca where
    "generateLeaf C p ''flux-agent'' [''flux-agent''] (days 365) w1 = (Inr (certPEM, keyPEM), w2)"
    and "writeFile C (agent_pem pf (certsDir p) i) certPEM 420 w2 = (Inr u, w3)"
    and "writeFile C (agent_key_pem pf (certsDir p) i) keyPEM 384 w3 = (Inr u', w')"
    and "caCert p = Some ca" and "caPEM = pemEncodeCert C (crt_Raw C ca)"
  using assms unfolding MintAgentCert_def Let_def agent_pem_def [symmetric] agent_key_pem_def [symmetric]
  by (elim andthen_InrE, simp only: wrapped_Inr split: prod.splits, elim andthen_InrE)
    (cases "caCert p", simp, simp only: option.case prod.inject sum.inject)

lemma generateLeaf_steps:
  assumes "generateLeaf C p cn names validity w = (Inr (certPEM, keyPEM), w')"
  obtains ca caK key serial der ec wk w1 w2 where "caCert p = Some ca" and "caKey p = Some caK"
    and "ecdsa_GenerateKey C w = (Inr key, wk)"
    and "x509_CreateCertificate C (leaf_template serial cn names validity (pki_Now C w1)) (IssuedBy ca) key caK w1 =
      (Inr der, w2)"
    and "certPEM = pemEncodeCert C der" and "x509_MarshalECPrivateKey C key = Inr ec"
    and "keyPEM = pem_EncodeToMemory C ''EC PRIVATE KEY'' ec"
proof -
  obtain ca caK where c: "caCert p = Some ca" "caKey p = Some caK"
    using assms by (cases "caCert p"; cases "caKey p") (auto simp: generateLeaf_def elim!: andthen_InrE)
  from assms show ?thesis
    unfolding generateLeaf_def c option.case prod.case
    by (elim andthen_InrE) (auto intro!: that [OF c])
qed

context crypto_contract begin

lemma minted_files:
  assumes "MintAgentCert C pf p i w = (Inr (certPEM, keyPEM, caPEM), w')"
    and "agent_pem pf (certsDir p) i \<noteq> agent_key_pem pf (certsDir p) i"
  shows "fs_ReadFile C (agent_pem pf (certsDir p) i) w' = Inr certPEM \<and>
    fs_ReadFile C (agent_key_pem pf (certsDir p) i) w' = Inr keyPEM"
proof -
  obtain w2 w3 u u' where crt: "writeFile C (agent_pem pf (certsDir p) i) certPEM 420 w2 = (Inr u, w3)"
    and key: "writeFile C (agent_key_pem pf (certsDir p) i) keyPEM 384 w3 = (Inr u', w')"
    by (rule MintAgentCert_steps [OF assms(1)])
  have c: "fs_ReadFile C (agent_pem pf (certsDir p) i) w3 = Inr certPEM" using writeFile_ok [OF crt] by blast
  have k: "fs_ReadFile C (agent_key_pem pf (certsDir p) i) w' = Inr keyPEM"
    "keeps C (\<lambda>q. q \<noteq> agent_key_pem pf (certsDir p) i) w3 w'"
    using writeFile_ok [OF key] by blast+
  show ?thesis using keeps_read [OF k(2) assms(2) c] k(1) by simp
qed

end

section \<open>A disk\<close>

text \<open>
  Files as an association list and keys as numbers, a certificate being its template's name: enough
  for the laws to hold.
\<close>

definition disk_crypto :: "(string, nat, (string \<times> string) list \<times> nat) crypto" where
  "disk_crypto =
     \<lparr>fs_Abs = Inr, fs_Stat = (\<lambda>p w. map_of (fst w) p \<noteq> None),
      fs_ReadFile = (\<lambda>p w. case map_of (fst w) p of None \<Rightarrow> Inl ''no such file'' | Some d \<Rightarrow> Inr d),
      fs_WriteFile = (\<lambda>p d perm w. (Inr (), (AList.update p d (fst w), snd w))),
      fs_MkdirAll = (\<lambda>p perm w. (Inr (), w)),
      ecdsa_GenerateKey = (\<lambda>w. (Inr (snd w), (fst w, snd w + 1))), rand_Int = (\<lambda>b w. (Inr 7, w)),
      x509_CreateCertificate = (\<lambda>t i k s w. (Inr (CommonName t), w)),
      x509_ParseCertificate = Inr, crt_Raw = id,
      x509_MarshalECPrivateKey = (\<lambda>k. Inr (replicate k CHR ''k'')),
      x509_ParseECPrivateKey = (\<lambda>d. Inr (length d)), pem_EncodeToMemory = (\<lambda>typ d. d), pem_Decode = Some,
      ssh_AuthorizedKey = (\<lambda>k. Inr (''ecdsa '' @ replicate k CHR ''k'')), pki_Now = (\<lambda>w. 0)\<rparr>"

interpretation disk: crypto_contract disk_crypto
  by unfold_locales (auto simp: disk_crypto_def keeps_def update_conv' split: option.splits)

lemma linux_paths: "distinct (pki_paths linux ''/etc/flux/certs'')"
  by code_simp

section \<open>Properties\<close>

text \<open>
  C18. A restart finds the material of the first start: when \<open>New\<close> has succeeded once and its six
  files are still there with their contents, it succeeds again with the same authority and the
  same SSH key, and without creating or writing anything.
\<close>

theorem pki_restart:
  assumes "crypto_contract C" and "fs_Abs C dir = Inr d" and "distinct (pki_paths pf d)"
    and "New C pf dir w = (Inr p, w1)" and "keeps C (\<lambda>q. q \<in> set (pki_paths pf d)) w1 w2"
  shows "New C pf dir w2 = (Inr p, w2) \<and> caCert p \<noteq> None \<and> caKey p \<noteq> None"
proof -
  obtain cert key pub where p: "p = \<lparr>certsDir = d, caCert = Some cert, caKey = Some key, sshPublicKey = pub\<rparr>"
    and st: "\<forall>q \<in> set (pki_paths pf d). fs_Stat C q w1"
    and ca: "loadCA C (ca_pem pf d) (ca_key_pem pf d) w1 = Inr (cert, key)"
    and pub: "fs_ReadFile C (ssh_pub pf d) w1 = Inr pub"
    by (rule crypto_contract.New_ok [OF assms(1-4)])
  have "\<And>q. q \<in> set (pki_paths pf d) \<Longrightarrow> fs_Stat C q w2" using st keeps_stat [OF assms(5)] by blast
  moreover have "loadCA C (ca_pem pf d) (ca_key_pem pf d) w2 = Inr (cert, key)"
    using crypto_contract.loadCA_keeps [OF assms(1) ca assms(5)] by (simp add: pki_paths_def)
  moreover have "fs_ReadFile C (ssh_pub pf d) w2 = Inr pub"
    using keeps_read [OF assms(5) _ pub] by (simp add: pki_paths_def)
  ultimately show ?thesis
    using p assms(2)
    by (simp add: New_def initCA_def initFluxCert_def initSSHKey_def Let_def fileExists_def wrapped_def
        pki_paths_def flip: path_defs)
qed

theorem pki_restart_witness:
  "\<exists>p. New disk_crypto linux ''/etc/flux/certs'' (snd (New disk_crypto linux ''/etc/flux/certs'' ([], 0))) =
     (Inr p, snd (New disk_crypto linux ''/etc/flux/certs'' ([], 0)))"
proof -
  let ?r = "New disk_crypto linux ''/etc/flux/certs'' ([], 0)"
  have "case fst ?r of Inl e \<Rightarrow> False | Inr p \<Rightarrow> True" by code_simp
  then obtain p where "fst ?r = Inr p" by (auto split: sum.splits)
  then have "?r = (Inr p, snd ?r)" by (metis prod.collapse)
  from pki_restart [OF disk.crypto_contract_axioms _ linux_paths this keeps_refl] show ?thesis
    by (auto simp: disk_crypto_def)
qed

text \<open>
  C19. The certificate an agent gets is issued, for the name the client verifies and for a year from
  its issue, by the authority whose certificate is on disk, and certifies a key generated for it:
  the key sent along is that key, and the authority certificate sent along is that authority's.
  Certificate and key are kept on disk under the agent's name.
\<close>

theorem minted_cert_trusted:
  assumes "crypto_contract C" and "fs_Abs C dir = Inr d" and "distinct (pki_paths pf d)"
    and "New C pf dir w = (Inr p, w1)" and "keeps C (\<lambda>q. q \<in> set (pki_paths pf d)) w1 w2"
    and "MintAgentCert C pf p i w2 = (Inr (certPEM, keyPEM, caPEM), w3)"
    and "agent_pem pf d i \<noteq> agent_key_pem pf d i"
  shows "\<exists>ca caK cd b key serial der ec wg wk wa wb.
    fs_ReadFile C (ca_pem pf d) w2 = Inr cd \<and> pem_Decode C cd = Some b \<and> x509_ParseCertificate C b = Inr ca \<and>
    caPEM = pemEncodeCert C b \<and> caKey p = Some caK \<and> ecdsa_GenerateKey C wg = (Inr key, wk) \<and>
    x509_CreateCertificate C (leaf_template serial ''flux-agent'' [''flux-agent''] (days 365) (pki_Now C wa))
      (IssuedBy ca) key caK wa = (Inr der, wb) \<and> certPEM = pemEncodeCert C der \<and>
    x509_MarshalECPrivateKey C key = Inr ec \<and> keyPEM = pem_EncodeToMemory C ''EC PRIVATE KEY'' ec \<and>
    fs_ReadFile C (agent_pem pf d i) w3 = Inr certPEM \<and> fs_ReadFile C (agent_key_pem pf d i) w3 = Inr keyPEM"
proof -
  obtain cert key pub where p: "p = \<lparr>certsDir = d, caCert = Some cert, caKey = Some key, sshPublicKey = pub\<rparr>"
    and ca: "loadCA C (ca_pem pf d) (ca_key_pem pf d) w1 = Inr (cert, key)"
    by (rule crypto_contract.New_ok [OF assms(1-4)])
  have "loadCA C (ca_pem pf d) (ca_key_pem pf d) w2 = Inr (cert, key)"
    using crypto_contract.loadCA_keeps [OF assms(1) ca assms(5)] by (simp add: pki_paths_def)
  then obtain cd b where b: "fs_ReadFile C (ca_pem pf d) w2 = Inr cd" "pem_Decode C cd = Some b"
    "x509_ParseCertificate C b = Inr cert"
    unfolding crypto_contract.loadCA_iff [OF assms(1)] by blast
  obtain wl wl' ca where leaf: "generateLeaf C p ''flux-agent'' [''flux-agent''] (days 365) wl = (Inr (certPEM, keyPEM), wl')"
    and caCert: "caCert p = Some ca" and raw: "caPEM = pemEncodeCert C (crt_Raw C ca)"
    by (rule MintAgentCert_steps [OF assms(6)])
  have caPEM: "caPEM = pemEncodeCert C b"
    using raw caCert p crypto_contract.raw_inverse [OF assms(1) b(3)] by simp
  have files: "fs_ReadFile C (agent_pem pf d i) w3 = Inr certPEM \<and> fs_ReadFile C (agent_key_pem pf d i) w3 = Inr keyPEM"
    using crypto_contract.minted_files [OF assms(1,6)] assms(7) p by simp
  obtain ca caK ck serial der ec wk wa wb where m: "caCert p = Some ca" "caKey p = Some caK"
    "ecdsa_GenerateKey C wl = (Inr ck, wk)"
    "x509_CreateCertificate C (leaf_template serial ''flux-agent'' [''flux-agent''] (days 365) (pki_Now C wa))
      (IssuedBy ca) ck caK wa = (Inr der, wb)"
    "certPEM = pemEncodeCert C der" "x509_MarshalECPrivateKey C ck = Inr ec"
    "keyPEM = pem_EncodeToMemory C ''EC PRIVATE KEY'' ec"
    by (rule generateLeaf_steps [OF leaf])
  have "ca = cert" using m(1) p by simp
  then show ?thesis using b caPEM m(2-7) files by blast
qed

theorem minted_cert_trusted_witness:
  "\<exists>crt. fs_ReadFile disk_crypto (agent_pem linux ''/etc/flux/certs'' ''a1'')
      (snd (case New disk_crypto linux ''/etc/flux/certs'' ([], 0) of
         (Inr p, w) \<Rightarrow> MintAgentCert disk_crypto linux p ''a1'' w
       | (Inl e, w) \<Rightarrow> (Inl e, w))) = Inr crt"
proof -
  let ?r = "New disk_crypto linux ''/etc/flux/certs'' ([], 0)"
  have "case fst ?r of Inl e \<Rightarrow> False | Inr p \<Rightarrow>
      (case fst (MintAgentCert disk_crypto linux p ''a1'' (snd ?r)) of Inl e \<Rightarrow> False | Inr t \<Rightarrow> True)"
    by code_simp
  then obtain p t where r: "fst ?r = Inr p"
    and m: "fst (MintAgentCert disk_crypto linux p ''a1'' (snd ?r)) = Inr t"
    by (auto split: sum.splits)
  from r have n: "?r = (Inr p, snd ?r)" by (metis prod.collapse)
  obtain certPEM keyPEM caPEM where "t = (certPEM, keyPEM, caPEM)" by (cases t)
  with m have minted: "MintAgentCert disk_crypto linux p ''a1'' (snd ?r) = (Inr (certPEM, keyPEM, caPEM),
      snd (MintAgentCert disk_crypto linux p ''a1'' (snd ?r)))" by (metis prod.collapse)
  have ne: "agent_pem linux ''/etc/flux/certs'' ''a1'' \<noteq> agent_key_pem linux ''/etc/flux/certs'' ''a1''"
    by code_simp
  have "fs_Abs disk_crypto ''/etc/flux/certs'' = Inr ''/etc/flux/certs''" by (simp add: disk_crypto_def)
  from minted_cert_trusted [OF disk.crypto_contract_axioms this linux_paths n keeps_refl minted ne]
  show ?thesis by (subst n) auto
qed

end
