(* ===== verification/Ssh_Bootstrap.thy ===== *)
theory Ssh_Bootstrap imports Pki Autoscaler begin

text \<open>
  \<open>pkg/resource/bootstrap.go\<close>: installing and starting an agent on a new node over SSH.  The SSH
  library, the private key file and the clock are a record \<open>ssh_lib\<close> over the outside state.
  Strings hold ASCII characters; logging is left out.
\<close>

section \<open>Formatting\<close>

definition nl :: string where
  "nl = [CHR 0x0A]"

definition dq :: string where
  "dq = [CHR 0x22]"

definition hex_digit :: "nat \<Rightarrow> char" where
  "hex_digit n = ''0123456789abcdef'' ! n"

text \<open>The verb \<open>%q\<close> on an ASCII character.\<close>

definition quote_char :: "char \<Rightarrow> string" where
  "quote_char c =
     (let n = (of_char c :: nat); bs = [CHR 0x5C]
      in if c = CHR 0x22 then bs @ dq
         else if c = CHR 0x5C then bs @ bs
         else if n = 7 then bs @ ''a'' else if n = 8 then bs @ ''b'' else if n = 12 then bs @ ''f''
         else if n = 10 then bs @ ''n'' else if n = 13 then bs @ ''r'' else if n = 9 then bs @ ''t''
         else if n = 11 then bs @ ''v''
         else if n < 32 \<or> n = 127 then bs @ ''x'' @ [hex_digit (n div 16), hex_digit (n mod 16)]
         else [c])"

definition quote :: "string \<Rightarrow> string" where
  "quote s = dq @ concat (map quote_char s) @ dq"

text \<open>\<open>net.JoinHostPort\<close> puts brackets around a host with a colon.\<close>

definition JoinHostPort :: "string \<Rightarrow> string \<Rightarrow> string" where
  "JoinHostPort host port =
     (if CHR '':'' \<in> set host then ''['' @ host @ '']:'' @ port else host @ '':'' @ port)"

section \<open>The library and the configuration\<close>

text \<open>
  A pause between two attempts to dial: the clock read after the failed attempt, and the error of
  the context when it is cancelled while waiting.  After the listed pauses the deadline is over.
\<close>

record ('signer, 'conn, 'sess, 'w) ssh_lib =
  boot_ReadFile :: "string \<Rightarrow> 'w \<Rightarrow> go_error + string"
  ParsePrivateKey :: "string \<Rightarrow> go_error + 'signer"
  ssh_Dial :: "string \<Rightarrow> string \<Rightarrow> 'signer \<Rightarrow> 'w \<Rightarrow> (go_error + 'conn) \<times> 'w"
  NewSession :: "'conn \<Rightarrow> 'w \<Rightarrow> (go_error + 'sess) \<times> 'w"
  CombinedOutput :: "'sess \<Rightarrow> string \<Rightarrow> 'w \<Rightarrow> (string \<times> go_error option) \<times> 'w"
  StdinPipe :: "'sess \<Rightarrow> 'w \<Rightarrow> (go_error + unit) \<times> 'w"
  sess_Start :: "'sess \<Rightarrow> string \<Rightarrow> 'w \<Rightarrow> (go_error + unit) \<times> 'w"
  stdin_Write :: "'sess \<Rightarrow> string \<Rightarrow> 'w \<Rightarrow> (go_error + unit) \<times> 'w"
  stdin_Close :: "'sess \<Rightarrow> 'w \<Rightarrow> 'w"
  sess_Wait :: "'sess \<Rightarrow> 'w \<Rightarrow> (go_error + unit) \<times> 'w"
  sess_Close :: "'sess \<Rightarrow> 'w \<Rightarrow> 'w"
  conn_Close :: "'conn \<Rightarrow> 'w \<Rightarrow> 'w"
  dial_pauses :: "'w \<Rightarrow> (time \<times> go_error option) list"
  boot_Now :: "'w \<Rightarrow> time"

record ('crt, 'key) BootstrapConfig =
  bc_PKI :: "('crt, 'key) pki"
  SSHUser :: string
  bc_AgentPort :: int
  AgentVersion :: string
  AgentSetupCommands :: "string list"

section \<open>Sessions\<close>

text \<open>A deferred \<open>Close\<close> runs on every way out.\<close>

definition closing :: "('w \<Rightarrow> 'w) \<Rightarrow> 'r \<times> 'w \<Rightarrow> 'r \<times> 'w" where
  "closing f r = (fst r, f (snd r))"

definition run ::
  "('signer, 'conn, 'sess, 'w) ssh_lib \<Rightarrow> 'conn \<Rightarrow> string \<Rightarrow> 'w \<Rightarrow> (go_error + unit) \<times> 'w" where
  "run L client cmd w =
     andthen (NewSession L client w) (\<lambda>sess w.
       closing (sess_Close L sess)
         (case CombinedOutput L sess cmd w of
            ((out, None), w) \<Rightarrow> (Inr (), w)
          | ((out, Some e), w) \<Rightarrow>
              (Inl (''command '' @ quote cmd @ '': '' @ e @ nl @ ''output: '' @ out), w)))"

definition uploadBytes ::
  "('signer, 'conn, 'sess, 'w) ssh_lib \<Rightarrow> 'conn \<Rightarrow> string \<Rightarrow> string \<Rightarrow> 'w \<Rightarrow> (go_error + unit) \<times> 'w" where
  "uploadBytes L client data remotePath w =
     andthen (NewSession L client w) (\<lambda>sess w.
       closing (sess_Close L sess)
         (andthen (StdinPipe L sess w) (\<lambda>_ w.
          andthen (sess_Start L sess (''sudo tee '' @ remotePath @ '' > /dev/null'') w) (\<lambda>_ w.
          andthen (stdin_Write L sess data w) (\<lambda>_ w.
            sess_Wait L sess (stdin_Close L sess w))))))"

section \<open>Dialling\<close>

fun dial_loop ::
  "('w \<Rightarrow> (go_error + 'conn) \<times> 'w) \<Rightarrow> time \<Rightarrow> (time \<times> go_error option) list \<Rightarrow> 'w \<Rightarrow> (go_error + 'conn) \<times> 'w" where
  "dial_loop attempt deadline [] w =
     wrapped ''SSH unreachable after 3 minutes: '' (attempt w)"
| "dial_loop attempt deadline ((now, cancelled) # pauses) w =
     (case attempt w of
        (Inr client, w) \<Rightarrow> (Inr client, w)
      | (Inl e, w) \<Rightarrow>
          if deadline < now then (Inl (''SSH unreachable after 3 minutes: '' @ e), w)
          else
            (case cancelled of
               Some c \<Rightarrow> (Inl c, w)
             | None \<Rightarrow> dial_loop attempt deadline pauses w))"

definition dial ::
  "('signer, 'conn, 'sess, 'w) ssh_lib \<Rightarrow> platform \<Rightarrow> ('crt, 'key) BootstrapConfig \<Rightarrow> string \<Rightarrow> 'w \<Rightarrow>
   (go_error + 'conn) \<times> 'w" where
  "dial L pf b host w =
     andthen (wrapped (''read SSH key '' @ SSHPrivateKeyPath pf (bc_PKI b) @ '': '')
                (boot_ReadFile L (SSHPrivateKeyPath pf (bc_PKI b)) w, w)) (\<lambda>keyData w.
     andthen (wrapped ''parse SSH key: '' (ParsePrivateKey L keyData, w)) (\<lambda>signer w.
       let addr = JoinHostPort host ''22''; deadline = boot_Now L w + minutes 3
       in dial_loop (ssh_Dial L addr (SSHUser b) signer) deadline (dial_pauses L w) w))"

section \<open>Bootstrap\<close>

definition agentDebURL :: "string \<Rightarrow> string" where
  "agentDebURL v =
     ''https://github.com/dashn9/serverless-agent/releases/download/v'' @ v @ ''/flux-agent_'' @ v @ ''_amd64.deb''"

definition buildAgentYAML :: "string \<Rightarrow> int \<Rightarrow> string \<Rightarrow> string" where
  "buildAgentYAML agentID port configDir =
     (let tlsBlock = nl @ ''tls:'' @ nl @ ''  enabled: true'' @ nl @ ''  ca_cert: '' @ configDir @ ''/tls/ca.pem'' @ nl @
            ''  cert_file: '' @ configDir @ ''/tls/agent.pem'' @ nl @ ''  key_file: '' @ configDir @
            ''/tls/agent-key.pem'' @ nl
      in ''agent_id: '' @ agentID @ nl @ ''port: '' @ dq @ int_digits port @ dq @ nl @ tlsBlock)"

definition configDir :: "('crt, 'key) BootstrapConfig \<Rightarrow> string" where
  "configDir b = ''/home/'' @ SSHUser b @ ''/flux-agent''"

definition installCmd :: "string \<Rightarrow> string" where
  "installCmd v =
     ''curl --connect-timeout 10 --max-time 30 -fLo /tmp/flux-agent.deb '' @ quote (agentDebURL v) @
     '' && sudo dpkg -i /tmp/flux-agent.deb && rm -f /tmp/flux-agent.deb''"

definition writeCmd :: "('crt, 'key) BootstrapConfig \<Rightarrow> string \<Rightarrow> string" where
  "writeCmd b agentID =
     ''sudo tee '' @ configDir b @ ''/agent.yaml > /dev/null <<'' @ [CHR 0x27] @ ''EOF'' @ [CHR 0x27] @ nl @
     buildAgentYAML agentID (bc_AgentPort b) (configDir b) @ ''EOF''"

definition dropInCmd :: "('crt, 'key) BootstrapConfig \<Rightarrow> string" where
  "dropInCmd b =
     ''sudo mkdir -p /etc/systemd/system/flux-agent.service.d && printf '' @ [CHR 0x27] @ ''[Service]'' @
     [CHR 0x5C] @ ''nEnvironment='' @ dq @ ''AGENT_CONFIG='' @ configDir b @ ''/agent.yaml'' @ dq @ [CHR 0x5C] @ ''n'' @
     [CHR 0x27] @ '' | sudo tee /etc/systemd/system/flux-agent.service.d/override.conf > /dev/null''"

definition restartCmd :: string where
  "restartCmd =
     ''sudo systemctl daemon-reload && sudo systemctl enable flux-agent && sudo systemctl restart flux-agent''"

fun setup_loop ::
  "('signer, 'conn, 'sess, 'w) ssh_lib \<Rightarrow> 'conn \<Rightarrow> int \<Rightarrow> string list \<Rightarrow> 'w \<Rightarrow> (go_error + unit) \<times> 'w" where
  "setup_loop L client i [] w = (Inr (), w)"
| "setup_loop L client i (cmd # cmds) w =
     andthen (wrapped (''setup command '' @ int_digits (i + 1) @ '': '') (run L client cmd w))
       (\<lambda>_. setup_loop L client (i + 1) cmds)"

fun upload_loop ::
  "('signer, 'conn, 'sess, 'w) ssh_lib \<Rightarrow> 'conn \<Rightarrow> (string \<times> string) list \<Rightarrow> 'w \<Rightarrow> (go_error + unit) \<times> 'w" where
  "upload_loop L client [] w = (Inr (), w)"
| "upload_loop L client ((data, remote) # ts) w =
     andthen (wrapped (''upload TLS '' @ remote @ '': '') (uploadBytes L client data remote w))
       (\<lambda>_. upload_loop L client ts)"

text \<open>The steps once the connection stands: up to the certificates, and from there.\<close>

definition configure_agent ::
  "('signer, 'conn, 'sess, 'w) ssh_lib \<Rightarrow> ('crt, 'key) BootstrapConfig \<Rightarrow> string \<Rightarrow> 'conn \<Rightarrow>
   string \<Rightarrow> string \<Rightarrow> string \<Rightarrow> 'w \<Rightarrow> (go_error + unit) \<times> 'w" where
  "configure_agent L b agentID client certPEM keyPEM caPEM w =
     andthen (upload_loop L client
                [(caPEM, configDir b @ ''/tls/ca.pem''), (certPEM, configDir b @ ''/tls/agent.pem''),
                 (keyPEM, configDir b @ ''/tls/agent-key.pem'')] w) (\<lambda>_ w.
     andthen (wrapped ''chmod tls: '' (run L client (''sudo chmod 600 '' @ configDir b @ ''/tls/*'') w)) (\<lambda>_ w.
     andthen (wrapped ''write agent.yaml: '' (run L client (writeCmd b agentID) w)) (\<lambda>_ w.
     andthen (wrapped ''write systemd env: '' (run L client (dropInCmd b) w)) (\<lambda>_ w.
       wrapped ''start service: '' (run L client restartCmd w)))))"

definition install_agent ::
  "('signer, 'conn, 'sess, 'w) ssh_lib \<Rightarrow> ('crt, 'key, 'w) crypto \<Rightarrow> platform \<Rightarrow> ('crt, 'key) BootstrapConfig \<Rightarrow>
   string \<Rightarrow> 'conn \<Rightarrow> 'w \<Rightarrow> (go_error + unit) \<times> 'w" where
  "install_agent L C pf b agentID client w =
     andthen (setup_loop L client 0 (AgentSetupCommands b) w) (\<lambda>_ w.
     andthen (if AgentVersion b \<noteq> []
              then wrapped ''install agent: '' (run L client (installCmd (AgentVersion b)) w)
              else (Inr (), w)) (\<lambda>_ w.
     andthen (wrapped ''mkdir: '' (run L client (''sudo mkdir -p '' @ configDir b @ ''/tls'') w)) (\<lambda>_ w.
     andthen (wrapped ''mint agent cert: '' (MintAgentCert C pf (bc_PKI b) agentID w)) (\<lambda>(certPEM, keyPEM, caPEM).
       configure_agent L b agentID client certPEM keyPEM caPEM))))"

definition boot_Bootstrap ::
  "('signer, 'conn, 'sess, 'w) ssh_lib \<Rightarrow> ('crt, 'key, 'w) crypto \<Rightarrow> platform \<Rightarrow> ('crt, 'key) BootstrapConfig \<Rightarrow>
   ProvisionedNode \<Rightarrow> 'w \<Rightarrow> go_error option \<times> 'w" where
  "boot_Bootstrap L C pf b node w =
     (case andthen (wrapped (''SSH dial '' @ PublicIP node @ '': '') (dial L pf b (PublicIP node) w))
             (\<lambda>client w. closing (conn_Close L client) (install_agent L C pf b (pn_AgentID node) client w)) of
        (Inl e, w) \<Rightarrow> (Some e, w)
      | (Inr _, w) \<Rightarrow> (None, w))"

end
