(* ===== verification/Bootstrap_Claims.thy ===== *)
theory Bootstrap_Claims imports Ssh_Bootstrap begin

text \<open>
  What a bootstrap runs on the node, in which order, and how dialling ends.
\<close>

section \<open>What a bootstrap leaves alone\<close>

lemma seen_andthen:
  assumes "obs (snd r) = obs w" and "\<And>a w1. r = (Inr a, w1) \<Longrightarrow> obs (snd (f a w1)) = obs w1"
  shows "obs (snd (andthen r f)) = obs w"
  using assms by (cases r; cases "fst r") (auto simp: andthen_def)

lemma seen_wrapped [simp]: "obs (snd (wrapped msg r)) = obs (snd r)"
  by (cases r; cases "fst r") (auto simp: wrapped_def)

text \<open>
  An observation of the world that sessions and certificate functions do not change, the commands
  themselves apart.
\<close>

locale quiet_lib =
  fixes L :: "('signer, 'conn, 'sess, 'w) ssh_lib" and C :: "('crt, 'key, 'w) crypto" and obs :: "'w \<Rightarrow> 'o"
  assumes session_quiet: "obs (snd (NewSession L c w)) = obs w" "obs (snd (StdinPipe L s w)) = obs w"
      "obs (snd (stdin_Write L s d w)) = obs w" "obs (stdin_Close L s w) = obs w"
      "obs (snd (sess_Wait L s w)) = obs w" "obs (sess_Close L s w) = obs w" "obs (conn_Close L c w) = obs w"
      "obs (snd (ssh_Dial L addr user signer w)) = obs w"
    and crypto_quiet: "obs (snd (fs_MkdirAll C p perm w)) = obs w" "obs (snd (fs_WriteFile C p d perm w)) = obs w"
      "obs (snd (ecdsa_GenerateKey C w)) = obs w" "obs (snd (rand_Int C n w)) = obs w"
      "obs (snd (x509_CreateCertificate C t i k k' w)) = obs w"
begin

lemma mint_quiet: "obs (snd (MintAgentCert C pf p i w)) = obs w"
  by (auto simp: MintAgentCert_def generateLeaf_def writeFile_def randomSerial_def Let_def crypto_quiet
      intro!: seen_andthen split: option.split)

lemma dial_loop_quiet:
  "(\<And>w. obs (snd (attempt w)) = obs w) \<Longrightarrow> obs (snd (dial_loop attempt deadline pauses w)) = obs w"
proof (induction attempt deadline pauses w rule: dial_loop.induct)
  case (2 attempt deadline now cancelled pauses w)
  obtain r w1 where a: "attempt w = (r, w1)" by fastforce
  then have "obs w1 = obs w" using "2.prems" [of w] by simp
  then show ?case using a "2.IH" [OF a [symmetric]] "2.prems" by (auto split: sum.split option.split)
qed simp

lemma dial_quiet: "obs (snd (dial L pf b host w)) = obs w"
  unfolding dial_def Let_def by (intro seen_andthen dial_loop_quiet) (simp_all add: session_quiet)

end

section \<open>The commands a node sees\<close>

text \<open>
  \<open>seen\<close> is the list of commands a state of the world has seen.  A command that reports an error may
  or may not have been started.
\<close>

locale shell_log = quiet_lib L C seen
  for L :: "('signer, 'conn, 'sess, 'w) ssh_lib" and C :: "('crt, 'key, 'w) crypto" and seen :: "'w \<Rightarrow> string list" +
  assumes output_ok: "CombinedOutput L s cmd w = ((out, None), w') \<Longrightarrow> seen w' = seen w @ [cmd]"
    and output_error: "CombinedOutput L s cmd w = ((out, Some e), w') \<Longrightarrow> seen w' = seen w \<or> seen w' = seen w @ [cmd]"
    and start_ok: "sess_Start L s cmd w = (Inr u, w') \<Longrightarrow> seen w' = seen w @ [cmd]"
    and start_error: "sess_Start L s cmd w = (Inl e, w') \<Longrightarrow> seen w' = seen w \<or> seen w' = seen w @ [cmd]"

text \<open>A step that starts in \<open>w\<close> runs a beginning of its script, all of it when it succeeds.\<close>

definition runs :: "('w \<Rightarrow> string list) \<Rightarrow> string list \<Rightarrow> (go_error + 'a) \<times> 'w \<Rightarrow> 'w \<Rightarrow> bool" where
  "runs seen script r w \<longleftrightarrow>
     (\<exists>k \<le> length script. seen (snd r) = seen w @ take k script \<and> (isl (fst r) \<or> k = length script))"

lemma runs_andthen:
  assumes "runs seen s1 r w" and "\<And>a w1. r = (Inr a, w1) \<Longrightarrow> runs seen s2 (f a w1) w1"
  shows "runs seen (s1 @ s2) (andthen r f) w"
proof -
  obtain x w1 where r: "r = (x, w1)" by fastforce
  obtain k where k: "k \<le> length s1" "seen w1 = seen w @ take k s1" "isl x \<or> k = length s1"
    using assms(1) r by (auto simp: runs_def)
  show ?thesis
  proof (cases x)
    case (Inl e)
    then show ?thesis unfolding runs_def using k r by (intro exI [of _ k]) (simp add: andthen_def)
  next
    case (Inr a)
    obtain k' where "k' \<le> length s2" "seen (snd (f a w1)) = seen w1 @ take k' s2"
      "isl (fst (f a w1)) \<or> k' = length s2"
      using assms(2) [of a w1] r Inr by (auto simp: runs_def)
    then show ?thesis unfolding runs_def using k r Inr
      by (intro exI [of _ "length s1 + k'"]) (simp add: andthen_def)
  qed
qed

lemma runs_silent: "seen (snd r) = seen w \<Longrightarrow> runs seen [] r w"
  by (simp add: runs_def)

lemma runs_wrapped: "runs seen s r w \<Longrightarrow> runs seen s (wrapped msg r) w"
  by (cases r; cases "fst r") (auto simp: runs_def wrapped_def)

lemma runs_closing: "(\<And>w. seen (f w) = seen w) \<Longrightarrow> runs seen s r w \<Longrightarrow> runs seen s (closing f r) w"
  by (simp add: runs_def closing_def)

lemma runs_first: "seen w1 = seen w \<Longrightarrow> runs seen s r w1 \<Longrightarrow> runs seen s r w"
  by (simp add: runs_def)

definition bootstrap_script :: "('crt, 'key) BootstrapConfig \<Rightarrow> string \<Rightarrow> string list" where
  "bootstrap_script b agentID =
     AgentSetupCommands b @ (if AgentVersion b \<noteq> [] then [installCmd (AgentVersion b)] else []) @
     [''sudo mkdir -p '' @ configDir b @ ''/tls''] @ [] @
     map (\<lambda>f. ''sudo tee '' @ (configDir b @ f) @ '' > /dev/null'') [''/tls/ca.pem'', ''/tls/agent.pem'', ''/tls/agent-key.pem''] @
     [''sudo chmod 600 '' @ configDir b @ ''/tls/*''] @ [writeCmd b agentID] @ [dropInCmd b] @ [restartCmd]"

context shell_log begin

lemma run_runs: "runs seen [cmd] (run L client cmd w) w"
proof -
  have "runs seen ([] @ [cmd]) (run L client cmd w) w"
    unfolding run_def
  proof (rule runs_andthen)
    show "runs seen [] (NewSession L client w) w" by (rule runs_silent) (rule session_quiet)
    fix sess w1
    show "runs seen [cmd] (closing (sess_Close L sess)
        (case CombinedOutput L sess cmd w1 of ((out, None), w) \<Rightarrow> (Inr (), w)
         | ((out, Some e), w) \<Rightarrow> (Inl (''command '' @ quote cmd @ '': '' @ e @ nl @ ''output: '' @ out), w))) w1"
    proof (rule runs_closing)
      obtain out eo w2 where c: "CombinedOutput L sess cmd w1 = ((out, eo), w2)" by (metis prod.exhaust)
      show "runs seen [cmd]
        (case CombinedOutput L sess cmd w1 of ((out, None), w) \<Rightarrow> (Inr (), w)
         | ((out, Some e), w) \<Rightarrow> (Inl (''command '' @ quote cmd @ '': '' @ e @ nl @ ''output: '' @ out), w)) w1"
      proof (cases eo)
        case None
        then show ?thesis using c output_ok [of sess cmd w1 out w2] by (simp add: runs_def)
      next
        case (Some e)
        then have "seen w2 = seen w1 @ take 0 [cmd] \<or> seen w2 = seen w1 @ take 1 [cmd]"
          using c output_error [of sess cmd w1 out e w2] by simp
        then show ?thesis using c Some by (force simp: runs_def)
      qed
    qed (rule session_quiet)
  qed
  then show ?thesis by simp
qed

lemma start_runs: "runs seen [cmd] (sess_Start L s cmd w) w"
proof -
  obtain x w' where s: "sess_Start L s cmd w = (x, w')" by fastforce
  show ?thesis
  proof (cases x)
    case (Inl e)
    then have "seen w' = seen w @ take 0 [cmd] \<or> seen w' = seen w @ take 1 [cmd]"
      using s start_error [of s cmd w e w'] by simp
    then show ?thesis using s Inl by (force simp: runs_def)
  next
    case (Inr u)
    then show ?thesis using s start_ok [of s cmd w u w'] by (simp add: runs_def)
  qed
qed

lemma upload_runs: "runs seen [''sudo tee '' @ path @ '' > /dev/null''] (uploadBytes L client data path w) w"
proof -
  have "runs seen ([] @ [] @ [''sudo tee '' @ path @ '' > /dev/null''] @ [] @ []) (uploadBytes L client data path w) w"
    unfolding uploadBytes_def
    by (intro runs_andthen runs_closing start_runs runs_silent) (simp_all add: session_quiet)
  then show ?thesis by simp
qed

lemma setup_runs: "runs seen cmds (setup_loop L client i cmds w) w"
proof (induction cmds arbitrary: i w)
  case (Cons cmd cmds)
  have "runs seen ([cmd] @ cmds) (setup_loop L client i (cmd # cmds) w) w"
    unfolding setup_loop.simps by (intro runs_andthen runs_wrapped run_runs Cons.IH)
  then show ?case by simp
qed (simp add: runs_def)

lemma uploads_runs:
  "runs seen (map (\<lambda>t. ''sudo tee '' @ snd t @ '' > /dev/null'') ts) (upload_loop L client ts w) w"
proof (induction ts arbitrary: w)
  case (Cons t ts)
  obtain d p where t: "t = (d, p)" by fastforce
  have "runs seen ([''sudo tee '' @ p @ '' > /dev/null''] @ map (\<lambda>t. ''sudo tee '' @ snd t @ '' > /dev/null'') ts)
      (upload_loop L client ((d, p) # ts) w) w"
    unfolding upload_loop.simps by (intro runs_andthen runs_wrapped upload_runs Cons.IH)
  then show ?case using t by simp
qed (simp add: runs_def)

lemma configure_runs:
  "runs seen
     (map (\<lambda>f. ''sudo tee '' @ (configDir b @ f) @ '' > /dev/null'') [''/tls/ca.pem'', ''/tls/agent.pem'', ''/tls/agent-key.pem''] @
      [''sudo chmod 600 '' @ configDir b @ ''/tls/*''] @ [writeCmd b i] @ [dropInCmd b] @ [restartCmd])
     (configure_agent L b i client certPEM keyPEM caPEM w) w"
proof -
  have up: "runs seen (map (\<lambda>f. ''sudo tee '' @ (configDir b @ f) @ '' > /dev/null'') [''/tls/ca.pem'', ''/tls/agent.pem'', ''/tls/agent-key.pem''])
      (upload_loop L client [(caPEM, configDir b @ ''/tls/ca.pem''), (certPEM, configDir b @ ''/tls/agent.pem''),
         (keyPEM, configDir b @ ''/tls/agent-key.pem'')] w) w"
    using uploads_runs [of "[(caPEM, configDir b @ ''/tls/ca.pem''), (certPEM, configDir b @ ''/tls/agent.pem''),
         (keyPEM, configDir b @ ''/tls/agent-key.pem'')]" client w] by simp
  show ?thesis unfolding configure_agent_def by (intro runs_andthen up runs_wrapped run_runs)
qed

lemma install_runs:
  "runs seen (bootstrap_script b i) (install_agent L C pf b i client w) w"
proof -
  have pkg: "runs seen (if AgentVersion b \<noteq> [] then [installCmd (AgentVersion b)] else [])
      (if AgentVersion b \<noteq> [] then wrapped ''install agent: '' (run L client (installCmd (AgentVersion b)) w1)
       else (Inr (), w1)) w1" for w1
    by (auto intro: runs_wrapped run_runs runs_silent)
  have mint: "runs seen [] (MintAgentCert C pf (bc_PKI b) i w1) w1" for w1
    by (rule runs_silent) (rule mint_quiet)
  show ?thesis
    unfolding bootstrap_script_def install_agent_def
    by (intro runs_andthen runs_wrapped setup_runs run_runs pkg mint)
      (simp only: split_beta, rule configure_runs)
qed

lemma boot_runs:
  "runs seen (bootstrap_script b (pn_AgentID node))
     (andthen (wrapped msg (dial L pf b host w))
        (\<lambda>client w. closing (conn_Close L client) (install_agent L C pf b (pn_AgentID node) client w))) w"
proof -
  have "runs seen ([] @ bootstrap_script b (pn_AgentID node))
     (andthen (wrapped msg (dial L pf b host w))
        (\<lambda>client w. closing (conn_Close L client) (install_agent L C pf b (pn_AgentID node) client w))) w"
    by (intro runs_andthen runs_wrapped runs_closing install_runs runs_silent) (simp_all add: dial_quiet session_quiet)
  then show ?thesis by simp
qed

end

section \<open>A node\<close>

text \<open>A node that runs every command it is sent and remembers them.\<close>

definition node_crypto :: "(string, nat, 'w) crypto" where
  "node_crypto =
     \<lparr>fs_Abs = Inr, fs_Stat = (\<lambda>p w. False), fs_ReadFile = (\<lambda>p w. Inl ''no such file''),
      fs_WriteFile = (\<lambda>p d perm w. (Inr (), w)), fs_MkdirAll = (\<lambda>p perm w. (Inr (), w)),
      ecdsa_GenerateKey = (\<lambda>w. (Inr 0, w)), rand_Int = (\<lambda>n w. (Inr 7, w)),
      x509_CreateCertificate = (\<lambda>t i k s w. (Inr (CommonName t), w)), x509_ParseCertificate = Inr, crt_Raw = id,
      x509_MarshalECPrivateKey = (\<lambda>k. Inr []), x509_ParseECPrivateKey = (\<lambda>d. Inr 0),
      pem_EncodeToMemory = (\<lambda>typ d. d), pem_Decode = Some, ssh_AuthorizedKey = (\<lambda>k. Inr ''ecdsa''), pki_Now = (\<lambda>w. 0)\<rparr>"

definition silent_shell :: "(unit, unit, unit, 'w) ssh_lib" where
  "silent_shell =
     \<lparr>boot_ReadFile = (\<lambda>p w. Inr ''pem''), ParsePrivateKey = (\<lambda>d. Inr ()),
      ssh_Dial = (\<lambda>addr user signer w. (Inr (), w)), NewSession = (\<lambda>c w. (Inr (), w)),
      CombinedOutput = (\<lambda>s cmd w. (([], None), w)), StdinPipe = (\<lambda>s w. (Inr (), w)),
      sess_Start = (\<lambda>s cmd w. (Inr (), w)), stdin_Write = (\<lambda>s d w. (Inr (), w)),
      stdin_Close = (\<lambda>s w. w), sess_Wait = (\<lambda>s w. (Inr (), w)), sess_Close = (\<lambda>s w. w), conn_Close = (\<lambda>c w. w),
      dial_pauses = (\<lambda>w. []), boot_Now = (\<lambda>w. 0)\<rparr>"

definition node_shell :: "(unit, unit, unit, string list) ssh_lib" where
  "node_shell =
     silent_shell\<lparr>CombinedOutput := \<lambda>s cmd w. (([], None), w @ [cmd]), sess_Start := \<lambda>s cmd w. (Inr (), w @ [cmd])\<rparr>"

interpretation node: shell_log node_shell node_crypto "\<lambda>w. w"
  by unfold_locales (simp_all add: node_shell_def silent_shell_def node_crypto_def)

definition node_config :: "(string, nat) BootstrapConfig" where
  "node_config =
     \<lparr>bc_PKI = \<lparr>certsDir = ''/c'', caCert = Some ''ca'', caKey = Some 0, sshPublicKey = ''ecdsa''\<rparr>, SSHUser = ''ubuntu'',
      bc_AgentPort = 50052, AgentVersion = [], AgentSetupCommands = [''true'']\<rparr>"

section \<open>Properties\<close>

text \<open>
  C20. Whatever fails, a bootstrap sends the node a beginning of one fixed script (setup commands,
  package, certificates, configuration, service) in order, and all of it when it reports success:
  an agent is only restarted after its certificates and configuration are in place.
\<close>

theorem bootstrap_runs_script:
  assumes "shell_log L C seen"
  shows "\<exists>k \<le> length (bootstrap_script b (pn_AgentID node)).
    seen (snd (boot_Bootstrap L C pf b node w)) = seen w @ take k (bootstrap_script b (pn_AgentID node)) \<and>
    (fst (boot_Bootstrap L C pf b node w) = None \<longrightarrow> k = length (bootstrap_script b (pn_AgentID node)))"
  using shell_log.boot_runs [OF assms, of b node "''SSH dial '' @ PublicIP node @ '': ''" pf "PublicIP node" w]
  by (auto simp: boot_Bootstrap_def runs_def split: sum.splits prod.splits)

theorem bootstrap_runs_script_witness:
  "last (snd (boot_Bootstrap node_shell node_crypto linux node_config
     \<lparr>pn_ProviderID = ''i-1'', pn_AgentID = ''a1'', pn_InstanceType = ''c5.large'', PublicIP = ''10.0.0.1'',
      PrivateIP = ''10.0.0.1''\<rparr> [])) = restartCmd"
proof -
  let ?n = "\<lparr>pn_ProviderID = ''i-1'', pn_AgentID = ''a1'', pn_InstanceType = ''c5.large'', PublicIP = ''10.0.0.1'',
      PrivateIP = ''10.0.0.1''\<rparr> :: ProvisionedNode"
  have "fst (boot_Bootstrap node_shell node_crypto linux node_config ?n []) = None" by code_simp
  with bootstrap_runs_script [OF node.shell_log_axioms, of node_config ?n linux "[]"]
  have "snd (boot_Bootstrap node_shell node_crypto linux node_config ?n []) = bootstrap_script node_config ''a1''"
    by auto
  then show ?thesis by (simp add: bootstrap_script_def)
qed

end
