(* ===== verification/Aws_Provider.thy ===== *)
theory Aws_Provider imports Bootstrap_Claims begin

text \<open>
  \<open>pkg/resource/aws.go\<close>: the EC2 provider.  The AWS SDK, the source of identifiers and the events of
  the wait for addresses are a record \<open>ec2_sdk\<close>; an EC2 client is an opaque handle \<open>'c\<close>.  The
  contract of \<open>CloudProvider\<close> is proved from a contract of the SDK.
\<close>

section \<open>The SDK\<close>

record RunInstancesInput =
  ImageId :: string
  ri_InstanceType :: string
  MinCount :: int
  MaxCount :: int
  KeyName :: string
  SecurityGroupIds :: "string list"
  InstanceTags :: "(string \<times> string) list"
  HttpTokens :: string
  HttpEndpoint :: string

record ec2_instance =
  InstanceId :: "string option"
  PublicIpAddress :: "string option"
  PrivateIpAddress :: "string option"

text \<open>What the wait for addresses selects; after the listed events its timeout fires.\<close>

datatype ip_wait = IpTick | IpCtxDone go_error

text \<open>An error of \<open>ImportKeyPair\<close> comes with the code of the API error when it is one.\<close>

record ('c, 'w) ec2_sdk =
  LoadDefaultConfig :: "string \<Rightarrow> (string \<times> string) option \<Rightarrow> go_error + 'c"
  RunInstances :: "'c \<Rightarrow> RunInstancesInput \<Rightarrow> 'w \<Rightarrow> (go_error + ec2_instance list) \<times> 'w"
  DescribeInstances :: "'c \<Rightarrow> string \<Rightarrow> 'w \<Rightarrow> (go_error + ec2_instance list list) \<times> 'w"
  TerminateInstances :: "'c \<Rightarrow> string \<Rightarrow> 'w \<Rightarrow> go_error option \<times> 'w"
  ImportKeyPair :: "'c \<Rightarrow> string \<Rightarrow> string \<Rightarrow> 'w \<Rightarrow> (string option \<times> go_error) option \<times> 'w"
  NewString :: "'w \<Rightarrow> string \<times> 'w"
  ip_waits :: "'w \<Rightarrow> ip_wait list"

definition aws_ToString :: "string option \<Rightarrow> string" where
  "aws_ToString so = (case so of None \<Rightarrow> [] | Some s \<Rightarrow> s)"

section \<open>The provider\<close>

definition ec2KeyPairName :: string where
  "ec2KeyPairName = ''flux-agent''"

record ('c, 'crt, 'key) AWSProvider =
  ec2Client :: 'c
  aws_bootstrapper :: "('crt, 'key) BootstrapConfig"

definition importSSHKey ::
  "('c, 'w) ec2_sdk \<Rightarrow> 'c \<Rightarrow> ('crt, 'key) pki option \<Rightarrow> 'w \<Rightarrow> unit go_result \<times> 'w" where
  "importSSHKey S client pkiMgr w =
     (case pkiMgr of
        None \<Rightarrow> (Panic ''nil pointer dereference'', w)
      | Some p \<Rightarrow>
          (case ImportKeyPair S client ec2KeyPairName (SSHPublicKey p) w of
             (None, w) \<Rightarrow> (Ret (), w)
           | (Some (code, e), w) \<Rightarrow>
               if code = Some ''InvalidKeyPair.Duplicate'' then (Ret (), w) else (Err e, w)))"

definition NewAWSProvider ::
  "('c, 'w) ec2_sdk \<Rightarrow> FluxConfig \<Rightarrow> AWSProviderConfig \<Rightarrow> ('crt, 'key) pki option \<Rightarrow> 'w \<Rightarrow>
   ('c, 'crt, 'key) AWSProvider go_result \<times> 'w" where
  "NewAWSProvider S fluxCfg c pkiMgr w =
     (let creds = (if AccessKeyID c \<noteq> [] \<and> SecretAccessKey c \<noteq> []
                   then Some (AccessKeyID c, SecretAccessKey c) else None)
      in case LoadDefaultConfig S (Region c) creds of
           Inl e \<Rightarrow> (Err (''failed to load AWS config: '' @ e), w)
         | Inr client \<Rightarrow>
             (case importSSHKey S client pkiMgr w of
                (Panic m, w) \<Rightarrow> (Panic m, w)
              | (Err e, w) \<Rightarrow> (Err (''import SSH key pair: '' @ e), w)
              | (Ret _, w) \<Rightarrow>
                  (case pkiMgr of
                     None \<Rightarrow> (Panic ''nil pointer dereference'', w)
                   | Some p \<Rightarrow>
                       (Ret \<lparr>ec2Client = client,
                          aws_bootstrapper =
                            \<lparr>bc_PKI = p, SSHUser = aws_SSHUser c, bc_AgentPort = AgentPort fluxCfg,
                             AgentVersion = aws_AgentVersion c,
                             AgentSetupCommands = aws_AgentSetupCommands c\<rparr>\<rparr>, w))))"

definition run_input :: "AWSProviderConfig \<Rightarrow> string \<Rightarrow> string \<Rightarrow> RunInstancesInput" where
  "run_input c instanceType agentID =
     \<lparr>ImageId = AMI c, ri_InstanceType = instanceType, MinCount = 1, MaxCount = 1, KeyName = ec2KeyPairName,
      SecurityGroupIds = [SecurityGroupID c],
      InstanceTags = [(''Name'', ''flux-agent-'' @ agentID), (''flux:role'', ''agent''), (''flux:agent-id'', agentID)],
      HttpTokens = ''required'', HttpEndpoint = ''enabled''\<rparr>"

fun first_ips :: "ec2_instance list \<Rightarrow> (string \<times> string) option" where
  "first_ips [] = None"
| "first_ips (inst # insts) =
     (let pub = aws_ToString (PublicIpAddress inst); priv = aws_ToString (PrivateIpAddress inst)
      in if pub \<noteq> [] \<and> priv \<noteq> [] then Some (pub, priv) else first_ips insts)"

fun aws_wait_loop ::
  "('c, 'w) ec2_sdk \<Rightarrow> 'c \<Rightarrow> string \<Rightarrow> ip_wait list \<Rightarrow> 'w \<Rightarrow> (go_error + string \<times> string) \<times> 'w" where
  "aws_wait_loop S client i [] w = (Inl (''timed out waiting for IPs on '' @ i), w)"
| "aws_wait_loop S client i (IpCtxDone e # es) w = (Inl e, w)"
| "aws_wait_loop S client i (IpTick # es) w =
     (case DescribeInstances S client i w of
        (Inl e, w) \<Rightarrow> aws_wait_loop S client i es w
      | (Inr reservations, w) \<Rightarrow>
          (case first_ips (concat reservations) of
             Some ips \<Rightarrow> (Inr ips, w)
           | None \<Rightarrow> aws_wait_loop S client i es w))"

definition aws_waitForIPs ::
  "('c, 'w) ec2_sdk \<Rightarrow> 'c \<Rightarrow> string \<Rightarrow> 'w \<Rightarrow> (go_error + string \<times> string) \<times> 'w" where
  "aws_waitForIPs S client i w = aws_wait_loop S client i (ip_waits S w) w"

definition aws_SpawnNode ::
  "((candidate \<Rightarrow> candidate \<Rightarrow> bool) \<Rightarrow> candidate list \<Rightarrow> candidate list) \<Rightarrow> ('c, 'w) ec2_sdk \<Rightarrow>
   AWSProviderConfig \<Rightarrow> ('c, 'crt, 'key) AWSProvider \<Rightarrow> NodeResources \<Rightarrow> 'w \<Rightarrow> (go_error + ProvisionedNode) \<times> 'w" where
  "aws_SpawnNode sort_slice S c a resources w =
     (case aws_Autoscaling c of
        None \<Rightarrow> (Inl ''no node_types configured'', w)
      | Some as \<Rightarrow>
          if length (NodeTypes as) = 0 then (Inl ''no node_types configured'', w)
          else
            andthen (wrapped ''instance selection failed: '' (selectInstanceType sort_slice (NodeTypes as) resources, w))
              (\<lambda>instanceType w.
                 case NewString S w of
                   (uuid, w) \<Rightarrow>
                     let agentID = ''auto-agent-'' @ take 8 uuid
                     in andthen (wrapped ''RunInstances: ''
                                   (RunInstances S (ec2Client a) (run_input c instanceType agentID) w))
                          (\<lambda>instances w.
                             case instances of
                               [] \<Rightarrow> (Inl ''RunInstances returned no instances'', w)
                             | inst # _ \<Rightarrow>
                                 let instanceID = aws_ToString (InstanceId inst)
                                 in andthen (wrapped (''instance '' @ instanceID @ '' launched but IP wait failed: '')
                                               (aws_waitForIPs S (ec2Client a) instanceID w))
                                      (\<lambda>(publicIP, privateIP) w.
                                         (Inr \<lparr>pn_ProviderID = instanceID, pn_AgentID = agentID,
                                               pn_InstanceType = instanceType, PublicIP = publicIP,
                                               PrivateIP = privateIP\<rparr>, w)))))"

definition aws_TerminateNode ::
  "('c, 'w) ec2_sdk \<Rightarrow> ('c, 'crt, 'key) AWSProvider \<Rightarrow> string \<Rightarrow> 'w \<Rightarrow> go_error option \<times> 'w" where
  "aws_TerminateNode S a providerID w =
     (case TerminateInstances S (ec2Client a) providerID w of
        (None, w) \<Rightarrow> (None, w)
      | (Some e, w) \<Rightarrow> (Some (''TerminateInstances '' @ providerID @ '': '' @ e), w))"

definition aws_Bootstrap ::
  "('signer, 'conn, 'sess, 'w) ssh_lib \<Rightarrow> ('crt, 'key, 'w) crypto \<Rightarrow> platform \<Rightarrow> ('c, 'crt, 'key) AWSProvider \<Rightarrow>
   ProvisionedNode \<Rightarrow> 'w \<Rightarrow> go_error option \<times> 'w" where
  "aws_Bootstrap L C pf a node w = boot_Bootstrap L C pf (aws_bootstrapper a) node w"

definition AWSCloud ::
  "((candidate \<Rightarrow> candidate \<Rightarrow> bool) \<Rightarrow> candidate list \<Rightarrow> candidate list) \<Rightarrow> ('c, 'w) ec2_sdk \<Rightarrow>
   ('signer, 'conn, 'sess, 'w) ssh_lib \<Rightarrow> ('crt, 'key, 'w) crypto \<Rightarrow> platform \<Rightarrow>
   AWSProviderConfig \<Rightarrow> ('c, 'crt, 'key) AWSProvider \<Rightarrow> 'w cloud_provider" where
  "AWSCloud sort_slice S L C pf c a =
     \<lparr>cp_Name = ''aws'', SpawnNode = aws_SpawnNode sort_slice S c a, Bootstrap = aws_Bootstrap L C pf a,
      TerminateNode = aws_TerminateNode S a\<rparr>"

section \<open>Bootstrapping leaves the cloud alone\<close>

locale quiet_node = quiet_lib L C obs
  for L :: "('signer, 'conn, 'sess, 'w) ssh_lib" and C :: "('crt, 'key, 'w) crypto" and obs :: "'w \<Rightarrow> 'o" +
  assumes command_quiet: "obs (snd (CombinedOutput L s cmd w)) = obs w" "obs (snd (sess_Start L s cmd w)) = obs w"
begin

lemma closing_quiet: "(\<And>w. obs (f w) = obs w) \<Longrightarrow> obs (snd r) = obs w \<Longrightarrow> obs (snd (closing f r)) = obs w"
  by (simp add: closing_def)

lemma run_quiet: "obs (snd (run L client cmd w)) = obs w"
proof -
  have out: "CombinedOutput L sess cmd w1 = (r, w2) \<Longrightarrow> obs w2 = obs w1" for sess w1 r w2
    using command_quiet(1) [of sess cmd w1] by simp
  show ?thesis unfolding run_def
    by (intro seen_andthen closing_quiet) (auto simp: session_quiet dest: out split: prod.split option.split)
qed

lemma upload_quiet: "obs (snd (uploadBytes L client d path w)) = obs w"
  unfolding uploadBytes_def
  by (intro seen_andthen closing_quiet) (simp_all add: session_quiet command_quiet)

lemma setup_quiet: "obs (snd (setup_loop L client i cmds w)) = obs w"
proof (induction cmds arbitrary: i w)
  case (Cons cmd cmds)
  show ?case unfolding setup_loop.simps by (intro seen_andthen) (simp_all add: run_quiet Cons.IH)
qed simp

lemma uploads_quiet: "obs (snd (upload_loop L client ts w)) = obs w"
proof (induction ts arbitrary: w)
  case (Cons t ts)
  obtain d p where t: "t = (d, p)" by fastforce
  show ?case unfolding t upload_loop.simps by (intro seen_andthen) (simp_all add: upload_quiet Cons.IH)
qed simp

lemma install_quiet: "obs (snd (install_agent L C pf b i client w)) = obs w"
proof -
  have "obs (snd (configure_agent L b i client x y z w)) = obs w" for x y z w
    unfolding configure_agent_def
    by (intro seen_andthen) (simp_all add: uploads_quiet run_quiet del: upload_loop.simps)
  then show ?thesis unfolding install_agent_def
    by (intro seen_andthen) (auto simp: setup_quiet run_quiet mint_quiet split: prod.split)
qed

lemma boot_quiet: "obs (snd (boot_Bootstrap L C pf b node w)) = obs w"
proof -
  have "obs (snd (andthen (wrapped msg (dial L pf b host w))
      (\<lambda>client w. closing (conn_Close L client) (install_agent L C pf b i client w)))) = obs w" for msg host i
    by (intro seen_andthen closing_quiet) (simp_all add: dial_quiet install_quiet session_quiet)
  moreover have "obs (snd (case r of (Inl e, w) \<Rightarrow> (Some e, w) | (Inr _, w) \<Rightarrow> (None, w))) = obs (snd r)"
    for r :: "(go_error + unit) \<times> 'w"
    by (simp split: prod.split sum.split)
  ultimately show ?thesis by (simp add: boot_Bootstrap_def)
qed

end

interpretation silent: quiet_node silent_shell node_crypto obs for obs :: "'w \<Rightarrow> 'o"
  by unfold_locales (simp_all add: silent_shell_def node_crypto_def)

end
