(* ===== verification/Gcp_Provider.thy ===== *)
theory Gcp_Provider imports Aws_Provider begin

text \<open>
  \<open>pkg/resource/gcp.go\<close>: the Compute Engine provider.  The API client, the source of identifiers and
  the events of the waits are a record \<open>gce_sdk\<close>; a service is an opaque handle \<open>'c\<close>.
\<close>

section \<open>The API\<close>

text \<open>
  An instance with the parts the code sets; its boot disk is deleted with it and its one network
  interface has a NAT address.
\<close>

record gce_instance =
  gi_Name :: string
  MachineType :: string
  SourceImage :: string
  AutoDelete :: bool
  Boot :: bool
  AccessConfig :: "string \<times> string"
  gi_Labels :: "string \<rightharpoonup> string"
  Metadata :: "(string \<times> string) list"
  ServiceAccounts :: "(string \<times> string list) list"

record network_interface =
  NetworkIP :: string
  NatIPs :: "string list"

text \<open>
  A finished operation that failed carries the message of the first of its errors.  \<open>gce_polls\<close> is
  how often \<open>Wait\<close> is called before the context of the call ends.
\<close>

record ('c, 'w) gce_sdk =
  NewService :: "string option \<Rightarrow> go_error + 'c"
  instances_Insert :: "'c \<Rightarrow> string \<Rightarrow> string \<Rightarrow> gce_instance \<Rightarrow> 'w \<Rightarrow> (go_error + string) \<times> 'w"
  instances_Delete :: "'c \<Rightarrow> string \<Rightarrow> string \<Rightarrow> string \<Rightarrow> 'w \<Rightarrow> (go_error + string) \<times> 'w"
  instances_Get :: "'c \<Rightarrow> string \<Rightarrow> string \<Rightarrow> string \<Rightarrow> 'w \<Rightarrow> (go_error + network_interface list) \<times> 'w"
  zoneOps_Wait :: "'c \<Rightarrow> string \<Rightarrow> string \<Rightarrow> string \<Rightarrow> 'w \<Rightarrow> (go_error + string \<times> go_error option) \<times> 'w"
  gce_NewString :: "'w \<Rightarrow> string \<times> 'w"
  gce_polls :: "'w \<Rightarrow> nat"
  gce_ip_waits :: "'w \<Rightarrow> ip_wait list"

definition space_char :: "char \<Rightarrow> bool" where
  "space_char c \<longleftrightarrow> c \<in> {CHR '' '', CHR 0x09, CHR 0x0A, CHR 0x0B, CHR 0x0C, CHR 0x0D}"

definition TrimSpace :: "string \<Rightarrow> string" where
  "TrimSpace s = rev (dropWhile space_char (rev (dropWhile space_char s)))"

section \<open>The provider\<close>

record ('c, 'crt, 'key) GCPProvider =
  gce_service :: 'c
  gcp_bootstrapper :: "('crt, 'key) BootstrapConfig option"
  gcp_pkiMgr :: "('crt, 'key) pki option"

text \<open>
  The provider of a program without PKI is made all the same, with a bootstrapper that has none;
  its first launch panics.
\<close>

definition NewGCPProvider ::
  "('c, 'w) gce_sdk \<Rightarrow> FluxConfig \<Rightarrow> GCPProviderConfig \<Rightarrow> ('crt, 'key) pki option \<Rightarrow>
   go_error + ('c, 'crt, 'key) GCPProvider" where
  "NewGCPProvider S fluxCfg c pkiMgr =
     (case NewService S (if CredentialsFile c \<noteq> [] then Some (CredentialsFile c) else None) of
        Inl e \<Rightarrow> Inl (''failed to create GCE service: '' @ e)
      | Inr svc \<Rightarrow>
          Inr \<lparr>gce_service = svc,
            gcp_bootstrapper = map_option (\<lambda>p.
              \<lparr>bc_PKI = p, SSHUser = gcp_SSHUser c, bc_AgentPort = AgentPort fluxCfg,
               AgentVersion = gcp_AgentVersion c, AgentSetupCommands = gcp_AgentSetupCommands c\<rparr>) pkiMgr,
            gcp_pkiMgr = pkiMgr\<rparr>)"

fun gcp_waitForOp ::
  "('c, 'w) gce_sdk \<Rightarrow> GCPProviderConfig \<Rightarrow> 'c \<Rightarrow> nat \<Rightarrow> string \<Rightarrow> 'w \<Rightarrow> (go_error + unit) \<times> 'w" where
  "gcp_waitForOp S c svc 0 opName w = (Inl (''operation '' @ opName @ '': context canceled''), w)"
| "gcp_waitForOp S c svc (Suc n) opName w =
     (case zoneOps_Wait S svc (ProjectID c) (Zone c) opName w of
        (Inl e, w) \<Rightarrow> (Inl (''operation '' @ opName @ '': '' @ e), w)
      | (Inr (status, opErr), w) \<Rightarrow>
          if status = ''DONE'' then
            (case opErr of
               Some m \<Rightarrow> (Inl (''operation '' @ opName @ '' failed: '' @ m), w)
             | None \<Rightarrow> (Inr (), w))
          else gcp_waitForOp S c svc n opName w)"

fun first_nat :: "string \<Rightarrow> string list \<Rightarrow> (string \<times> string) option" where
  "first_nat priv [] = None"
| "first_nat priv (nat_ip # ips) =
     (if nat_ip \<noteq> [] \<and> priv \<noteq> [] then Some (nat_ip, priv) else first_nat priv ips)"

fun first_interface :: "network_interface list \<Rightarrow> (string \<times> string) option" where
  "first_interface [] = None"
| "first_interface (iface # ifaces) =
     (case first_nat (NetworkIP iface) (NatIPs iface) of
        Some ips \<Rightarrow> Some ips
      | None \<Rightarrow> first_interface ifaces)"

fun gcp_wait_loop ::
  "('c, 'w) gce_sdk \<Rightarrow> GCPProviderConfig \<Rightarrow> 'c \<Rightarrow> string \<Rightarrow> ip_wait list \<Rightarrow> 'w \<Rightarrow>
   (go_error + string \<times> string) \<times> 'w" where
  "gcp_wait_loop S c svc name [] w = (Inl (''timed out waiting for IPs on '' @ name), w)"
| "gcp_wait_loop S c svc name (IpCtxDone e # es) w = (Inl e, w)"
| "gcp_wait_loop S c svc name (IpTick # es) w =
     (case instances_Get S svc (ProjectID c) (Zone c) name w of
        (Inl e, w) \<Rightarrow> gcp_wait_loop S c svc name es w
      | (Inr ifaces, w) \<Rightarrow>
          (case first_interface ifaces of
             Some ips \<Rightarrow> (Inr ips, w)
           | None \<Rightarrow> gcp_wait_loop S c svc name es w))"

definition gcp_waitForIPs ::
  "('c, 'w) gce_sdk \<Rightarrow> GCPProviderConfig \<Rightarrow> 'c \<Rightarrow> string \<Rightarrow> 'w \<Rightarrow> (go_error + string \<times> string) \<times> 'w" where
  "gcp_waitForIPs S c svc name w = gcp_wait_loop S c svc name (gce_ip_waits S w) w"

definition gcp_instance ::
  "GCPProviderConfig \<Rightarrow> ('crt, 'key) pki \<Rightarrow> string \<Rightarrow> string \<Rightarrow> gce_instance" where
  "gcp_instance c p machineType agentID =
     \<lparr>gi_Name = ''flux-agent-'' @ agentID,
      MachineType = ''zones/'' @ Zone c @ ''/machineTypes/'' @ machineType,
      SourceImage = Image c, AutoDelete = True, Boot = True,
      AccessConfig = (''External NAT'', ''ONE_TO_ONE_NAT''),
      gi_Labels = [''flux-role'' \<mapsto> ''agent'', ''flux-agent-id'' \<mapsto> agentID] ++ map_of (Labels c),
      Metadata = [(''ssh-keys'', gcp_SSHUser c @ '':'' @ TrimSpace (SSHPublicKey p))],
      ServiceAccounts =
        (if ServiceAccountEmail c \<noteq> []
         then [(ServiceAccountEmail c, [''https://www.googleapis.com/auth/cloud-platform''])] else [])\<rparr>"

text \<open>The two waits of a launch, once the insertion is accepted.\<close>

definition gcp_launch ::
  "('c, 'w) gce_sdk \<Rightarrow> GCPProviderConfig \<Rightarrow> 'c \<Rightarrow> string \<Rightarrow> string \<Rightarrow> 'w \<Rightarrow>
   (go_error + string \<times> string) \<times> 'w" where
  "gcp_launch S c svc name opName w =
     andthen (wrapped (''insert '' @ name @ '': '') (gcp_waitForOp S c svc (gce_polls S w) opName w)) (\<lambda>_ w.
       wrapped (''instance '' @ name @ '' launched but IP wait failed: '') (gcp_waitForIPs S c svc name w))"

definition gcp_SpawnNode ::
  "((candidate \<Rightarrow> candidate \<Rightarrow> bool) \<Rightarrow> candidate list \<Rightarrow> candidate list) \<Rightarrow> ('c, 'w) gce_sdk \<Rightarrow>
   GCPProviderConfig \<Rightarrow> 'c \<Rightarrow> ('crt, 'key) pki option \<Rightarrow> NodeResources \<Rightarrow> 'w \<Rightarrow> ProvisionedNode go_result \<times> 'w" where
  "gcp_SpawnNode sort_slice S c svc pkiMgr resources w =
     (case gcp_Autoscaling c of
        None \<Rightarrow> (Err ''no node_types configured'', w)
      | Some as \<Rightarrow>
          if length (NodeTypes as) = 0 then (Err ''no node_types configured'', w)
          else
            (case selectInstanceType sort_slice (NodeTypes as) resources of
               Inl e \<Rightarrow> (Err (''instance selection failed: '' @ e), w)
             | Inr machineType \<Rightarrow>
                 (case gce_NewString S w of
                    (uuid, w) \<Rightarrow>
                      let agentID = ''auto-agent-'' @ take 8 uuid; instanceName = ''flux-agent-'' @ agentID
                      in case pkiMgr of
                           None \<Rightarrow> (Panic ''nil pointer dereference'', w)
                         | Some p \<Rightarrow>
                             (case instances_Insert S svc (ProjectID c) (Zone c) (gcp_instance c p machineType agentID) w of
                                (Inl e, w) \<Rightarrow> (Err (''Insert: '' @ e), w)
                              | (Inr op1, w) \<Rightarrow>
                                  (case gcp_launch S c svc instanceName op1 w of
                                     (Inl e, w) \<Rightarrow> (Err e, w)
                                   | (Inr (publicIP, privateIP), w) \<Rightarrow>
                                       (Ret \<lparr>pn_ProviderID = instanceName, pn_AgentID = agentID,
                                             pn_InstanceType = machineType, PublicIP = publicIP,
                                             PrivateIP = privateIP\<rparr>, w))))))"

definition gcp_Bootstrap ::
  "('signer, 'conn, 'sess, 'w) ssh_lib \<Rightarrow> ('crt, 'key, 'w) crypto \<Rightarrow> platform \<Rightarrow> ('c, 'crt, 'key) GCPProvider \<Rightarrow>
   ProvisionedNode \<Rightarrow> 'w \<Rightarrow> go_error option \<times> 'w" where
  "gcp_Bootstrap L C pf g node w =
     (case gcp_bootstrapper g of
        None \<Rightarrow> (Some ''nil pointer dereference'', w)
      | Some b \<Rightarrow> boot_Bootstrap L C pf b node w)"

definition gcp_TerminateNode ::
  "('c, 'w) gce_sdk \<Rightarrow> GCPProviderConfig \<Rightarrow> ('c, 'crt, 'key) GCPProvider \<Rightarrow> string \<Rightarrow> 'w \<Rightarrow> go_error option \<times> 'w" where
  "gcp_TerminateNode S c g providerID w =
     (case instances_Delete S (gce_service g) (ProjectID c) (Zone c) providerID w of
        (Inl e, w) \<Rightarrow> (Some (''Delete '' @ providerID @ '': '' @ e), w)
      | (Inr op1, w) \<Rightarrow>
          (case gcp_waitForOp S c (gce_service g) (gce_polls S w) op1 w of
             (Inl e, w) \<Rightarrow> (Some (''delete '' @ providerID @ '': '' @ e), w)
           | (Inr _, w) \<Rightarrow> (None, w)))"

text \<open>
  As a \<open>CloudProvider\<close>, whose results are values: a panic, which ends the program, is an error.  With
  a PKI a launch does not panic (\<open>gcp_spawn_returns\<close>).
\<close>

definition result_sum :: "'a go_result \<times> 'w \<Rightarrow> (go_error + 'a) \<times> 'w" where
  "result_sum r = (case r of (Ret a, w) \<Rightarrow> (Inr a, w) | (Err e, w) \<Rightarrow> (Inl e, w) | (Panic m, w) \<Rightarrow> (Inl m, w))"

definition GCPCloud ::
  "((candidate \<Rightarrow> candidate \<Rightarrow> bool) \<Rightarrow> candidate list \<Rightarrow> candidate list) \<Rightarrow> ('c, 'w) gce_sdk \<Rightarrow>
   ('signer, 'conn, 'sess, 'w) ssh_lib \<Rightarrow> ('crt, 'key, 'w) crypto \<Rightarrow> platform \<Rightarrow>
   GCPProviderConfig \<Rightarrow> ('c, 'crt, 'key) GCPProvider \<Rightarrow> 'w cloud_provider" where
  "GCPCloud sort_slice S L C pf c g =
     \<lparr>cp_Name = ''gcp'',
      SpawnNode = (\<lambda>r w. result_sum (gcp_SpawnNode sort_slice S c (gce_service g) (gcp_pkiMgr g) r w)),
      Bootstrap = gcp_Bootstrap L C pf g, TerminateNode = gcp_TerminateNode S c g\<rparr>"

lemma gcp_spawn_returns: "fst (gcp_SpawnNode sort_slice S c svc (Some p) r w) \<noteq> Panic m"
  by (auto simp: gcp_SpawnNode_def Let_def split: option.split sum.split prod.split)

end
