(* ===== verification/Providers_Manager.thy ===== *)
theory Providers_Manager imports Gcp_Provider Api_Registration begin

text \<open>
  \<open>pkg/resource/providers_manager.go\<close>: the providers, their autoscalers, and the operations that
  bring up and take down the fleet.  The goroutines of the two operations are lists of tasks that
  advance one call at a time; a schedule, a list of choices, says which task moves next, and when
  it is used up the remaining ones are run to their ends in order, so that every interleaving is
  that of some schedule.
\<close>

section \<open>The manager\<close>

record 'w providerEntry =
  entry_provider :: "'w cloud_provider"
  minNodes :: int
  nodeTypes :: "NodeTypeConfig list"

record ('m, 'w) ProvidersManager =
  pm_reg :: "'m memory"
  entries :: "'w providerEntry list"
  scalers :: "(('m, 'w) scaler_env \<times> autoscaler) list"

definition provider_entry :: "'w cloud_provider \<Rightarrow> AutoscaleConfig option \<Rightarrow> 'w providerEntry" where
  "provider_entry p as =
     (case as of
        None \<Rightarrow> \<lparr>entry_provider = p, minNodes = 0, nodeTypes = []\<rparr>
      | Some c \<Rightarrow> \<lparr>entry_provider = p, minNodes = MinNodes c, nodeTypes = NodeTypes c\<rparr>)"

definition add_provider ::
  "'w agent_client \<Rightarrow> int \<Rightarrow> 'w cloud_provider \<Rightarrow> AutoscaleConfig option \<Rightarrow>
   ('m, 'w) ProvidersManager \<Rightarrow> ('m, 'w) ProvidersManager" where
  "add_provider client port p as m =
     m\<lparr>entries := entries m @ [provider_entry p as],
       scalers := scalers m @
         (case as of
            None \<Rightarrow> []
          | Some c \<Rightarrow>
              (case newAutoscaler (Some c) of
                 None \<Rightarrow> []
               | Some a \<Rightarrow>
                   [(\<lparr>registry = pm_reg m, agentClient = client, provider = p, cfg = c, agentPort = port\<rparr>, a)]))\<rparr>"

text \<open>What the two providers are built from, besides the program's PKI.\<close>

record ('a, 'g, 'signer, 'conn, 'sess, 'crt, 'key, 'w) provider_libs =
  pl_sort :: "(candidate \<Rightarrow> candidate \<Rightarrow> bool) \<Rightarrow> candidate list \<Rightarrow> candidate list"
  pl_ec2 :: "('a, 'w) ec2_sdk"
  pl_gce :: "('g, 'w) gce_sdk"
  pl_ssh :: "('signer, 'conn, 'sess, 'w) ssh_lib"
  pl_crypto :: "('crt, 'key, 'w) crypto"
  pl_platform :: platform

definition add_aws ::
  "('a, 'g, 'signer, 'conn, 'sess, 'crt, 'key, 'w) provider_libs \<Rightarrow> FluxConfig \<Rightarrow> ('crt, 'key) pki option \<Rightarrow>
   'w agent_client \<Rightarrow> AWSProviderConfig option \<Rightarrow> ('m, 'w) ProvidersManager \<Rightarrow> 'w \<Rightarrow>
   ('m, 'w) ProvidersManager go_result \<times> 'w" where
  "add_aws P fluxCfg pkiMgr client awsCfg m w =
     (case awsCfg of
        None \<Rightarrow> (Ret m, w)
      | Some c \<Rightarrow>
          (case NewAWSProvider (pl_ec2 P) fluxCfg c pkiMgr w of
             (Ret a, w) \<Rightarrow>
               (Ret (add_provider client (AgentPort fluxCfg)
                  (AWSCloud (pl_sort P) (pl_ec2 P) (pl_ssh P) (pl_crypto P) (pl_platform P) c a)
                  (aws_Autoscaling c) m), w)
           | (Err e, w) \<Rightarrow> (Err (''aws provider: '' @ e), w)
           | (Panic e, w) \<Rightarrow> (Panic e, w)))"

definition add_gcp ::
  "('a, 'g, 'signer, 'conn, 'sess, 'crt, 'key, 'w) provider_libs \<Rightarrow> FluxConfig \<Rightarrow> ('crt, 'key) pki option \<Rightarrow>
   'w agent_client \<Rightarrow> GCPProviderConfig option \<Rightarrow> ('m, 'w) ProvidersManager \<Rightarrow>
   ('m, 'w) ProvidersManager go_result" where
  "add_gcp P fluxCfg pkiMgr client gcpCfg m =
     (case gcpCfg of
        None \<Rightarrow> Ret m
      | Some c \<Rightarrow>
          (case NewGCPProvider (pl_gce P) fluxCfg c pkiMgr of
             Inl e \<Rightarrow> Err (''gcp provider: '' @ e)
           | Inr g \<Rightarrow>
               Ret (add_provider client (AgentPort fluxCfg)
                  (GCPCloud (pl_sort P) (pl_gce P) (pl_ssh P) (pl_crypto P) (pl_platform P) c g)
                  (gcp_Autoscaling c) m)))"

definition NewProvidersManager ::
  "('a, 'g, 'signer, 'conn, 'sess, 'crt, 'key, 'w) provider_libs \<Rightarrow> FluxConfig \<Rightarrow> ('crt, 'key) pki option \<Rightarrow>
   'm memory \<Rightarrow> 'w agent_client \<Rightarrow> 'w \<Rightarrow> ('m, 'w) ProvidersManager go_result \<times> 'w" where
  "NewProvidersManager P fluxCfg pkiMgr reg client w =
     (let m = \<lparr>pm_reg = reg, entries = [], scalers = []\<rparr>
      in case Providers fluxCfg of
           None \<Rightarrow> (Ret m, w)
         | Some ps \<Rightarrow>
             (case add_aws P fluxCfg pkiMgr client (AWS ps) m w of
                (Ret m, w) \<Rightarrow> (add_gcp P fluxCfg pkiMgr client (GCP ps) m, w)
              | (Err e, w) \<Rightarrow> (Err e, w)
              | (Panic e, w) \<Rightarrow> (Panic e, w)))"

text \<open>\<open>Start\<close> hands out the autoscalers, which run on their own, and forgets them.\<close>

definition pm_Start ::
  "('m, 'w) ProvidersManager \<Rightarrow> (('m, 'w) scaler_env \<times> autoscaler) list \<times> ('m, 'w) ProvidersManager" where
  "pm_Start m = (scalers m, m\<lparr>scalers := []\<rparr>)"

section \<open>Tasks and schedules\<close>

definition step_task :: "(nat \<Rightarrow> 't \<Rightarrow> 's \<Rightarrow> 't \<times> 's) \<Rightarrow> nat \<Rightarrow> 't list \<times> 's \<Rightarrow> 't list \<times> 's" where
  "step_task step k ts =
     (if k < length (fst ts) then
        (case step k (fst ts ! k) (snd ts) of (t, s) \<Rightarrow> ((fst ts)[k := t], s))
      else ts)"

text \<open>No task makes more than three steps.\<close>

definition drain_schedule :: "nat \<Rightarrow> nat list" where
  "drain_schedule n = concat (map (\<lambda>k. [k, k, k]) [0..<n])"

definition count32 :: "nat \<Rightarrow> int" where
  "count32 n = sint (of_nat n :: i32)"

section \<open>Bringing the fleet up\<close>

datatype 'w spawn_task =
    SpawnTask "'w providerEntry" NodeResources
  | BootTask "'w providerEntry" ProvisionedNode
  | RegisterTask "'w providerEntry" ProvisionedNode
  | GiveUpTask "'w providerEntry" ProvisionedNode
  | SpawnDone bool

fun spawn_ok :: "'w spawn_task \<Rightarrow> bool" where
  "spawn_ok (SpawnDone b) = b"
| "spawn_ok _ = False"

text \<open>One call of a goroutine of \<open>InitializeNodes\<close>; \<open>clock\<close> gives each its registration time.\<close>

fun spawn_step ::
  "'m memory \<Rightarrow> int \<Rightarrow> (nat \<Rightarrow> time) \<Rightarrow> nat \<Rightarrow> 'w spawn_task \<Rightarrow> 'm \<times> 'w \<Rightarrow> 'w spawn_task \<times> 'm \<times> 'w" where
  "spawn_step M port clock k (SpawnTask e res) (m, w) =
     (case SpawnNode (entry_provider e) res w of
        (Inl err, w) \<Rightarrow> (SpawnDone False, m, w)
      | (Inr node, w) \<Rightarrow> (BootTask e node, m, w))"
| "spawn_step M port clock k (BootTask e node) (m, w) =
     (case Bootstrap (entry_provider e) node w of
        (Some err, w) \<Rightarrow> (GiveUpTask e node, m, w)
      | (None, w) \<Rightarrow> (RegisterTask e node, m, w))"
| "spawn_step M port clock k (GiveUpTask e node) (m, w) =
     (SpawnDone False, m, snd (TerminateNode (entry_provider e) (pn_ProviderID node) w))"
| "spawn_step M port clock k (RegisterTask e node) (m, w) =
     (SpawnDone True,
      RegisterOfflineAgent M (clock k) (pn_AgentID node) (host_port (PublicIP node) port) (pn_ProviderID node)
        (pn_InstanceType node) (cp_Name (entry_provider e)) m, w)"
| "spawn_step M port clock k (SpawnDone b) s = (SpawnDone b, s)"

text \<open>One turn of the loop over the entries, and what it adds to the tasks.\<close>

definition entry_tasks :: "'m memory \<Rightarrow> 'w providerEntry \<Rightarrow> 'm \<Rightarrow> 'w spawn_task list" where
  "entry_tasks M e m =
     (let allAgents = reg_GetAllAgents M m; need = wrap64 (minNodes e - int (length allAgents))
      in if need \<le> 0 then []
         else if length (nodeTypes e) = 0 then []
         else replicate (nat need) (SpawnTask e (smallestNodeResources (nodeTypes e))))"

record ('m, 'w) init_state =
  todo :: "'w providerEntry list"
  tasks :: "'w spawn_task list \<times> 'm \<times> 'w"

definition main_turn :: "'m memory \<Rightarrow> ('m, 'w) init_state \<Rightarrow> ('m, 'w) init_state" where
  "main_turn M s =
     (case todo s of
        [] \<Rightarrow> s
      | e # es \<Rightarrow>
          (case tasks s of (ts, m, w) \<Rightarrow> s\<lparr>todo := es, tasks := (ts @ entry_tasks M e m, m, w)\<rparr>))"

text \<open>Choice 0 is the loop, choice \<open>k + 1\<close> the goroutine of task \<open>k\<close>.\<close>

fun init_choice :: "'m memory \<Rightarrow> int \<Rightarrow> (nat \<Rightarrow> time) \<Rightarrow> nat \<Rightarrow> ('m, 'w) init_state \<Rightarrow> ('m, 'w) init_state" where
  "init_choice M port clock 0 s = main_turn M s"
| "init_choice M port clock (Suc k) s = s\<lparr>tasks := step_task (spawn_step M port clock) k (tasks s)\<rparr>"

definition run_choices ::
  "'m memory \<Rightarrow> int \<Rightarrow> (nat \<Rightarrow> time) \<Rightarrow> nat list \<Rightarrow> ('m, 'w) init_state \<Rightarrow> ('m, 'w) init_state" where
  "run_choices M port clock = fold (init_choice M port clock)"

definition wait_group :: "'m memory \<Rightarrow> int \<Rightarrow> (nat \<Rightarrow> time) \<Rightarrow> ('m, 'w) init_state \<Rightarrow> ('m, 'w) init_state" where
  "wait_group M port clock s =
     (let s = run_choices M port clock (replicate (length (todo s)) 0) s
      in run_choices M port clock (map Suc (drain_schedule (length (fst (tasks s))))) s)"

definition pm_InitializeNodes ::
  "int \<Rightarrow> (nat \<Rightarrow> time) \<Rightarrow> nat list \<Rightarrow> ('m, 'w) ProvidersManager \<Rightarrow> 'm \<times> 'w \<Rightarrow> (int \<times> int) \<times> 'm \<times> 'w" where
  "pm_InitializeNodes port clock schedule pm mw =
     (let s = wait_group (pm_reg pm) port clock
                (run_choices (pm_reg pm) port clock schedule \<lparr>todo = entries pm, tasks = ([], mw)\<rparr>)
      in case tasks s of
           (ts, mw) \<Rightarrow> ((count32 (length (filter spawn_ok ts)), count32 (length ts)), mw))"

section \<open>Taking the fleet down\<close>

datatype 'w stop_task =
    DeregisterTask "'w providerEntry" agent
  | TerminateTask "'w providerEntry" agent
  | StopDone agent bool

fun stop_step :: "'m memory \<Rightarrow> nat \<Rightarrow> 'w stop_task \<Rightarrow> 'm \<times> 'w \<Rightarrow> 'w stop_task \<times> 'm \<times> 'w" where
  "stop_step M k (DeregisterTask e a) (m, w) = (TerminateTask e a, DeregisterAgent M (ID a) m, w)"
| "stop_step M k (TerminateTask e a) (m, w) =
     (case TerminateNode (entry_provider e) (ProviderID a) w of
        (Some err, w) \<Rightarrow> (StopDone a False, m, w)
      | (None, w) \<Rightarrow> (StopDone a True, m, w))"
| "stop_step M k (StopDone a b) s = (StopDone a b, s)"

definition stop_tasks :: "'w providerEntry list \<Rightarrow> agent list \<Rightarrow> 'w stop_task list" where
  "stop_tasks es agents =
     concat (map (\<lambda>e. map (DeregisterTask e) (filter (\<lambda>a. Provider a = cp_Name (entry_provider e)) agents)) es)"

fun stop_ok :: "'w stop_task \<Rightarrow> bool" where
  "stop_ok (StopDone a b) = b"
| "stop_ok _ = False"

definition pm_TerminateNodes ::
  "nat list \<Rightarrow> ('m, 'w) ProvidersManager \<Rightarrow> 'm \<times> 'w \<Rightarrow> int \<times> 'm \<times> 'w" where
  "pm_TerminateNodes schedule pm mw =
     (let ts = stop_tasks (entries pm) (reg_GetAllAgents (pm_reg pm) (fst mw))
      in case fold (step_task (stop_step (pm_reg pm))) (schedule @ drain_schedule (length ts)) (ts, mw) of
           (ts, mw) \<Rightarrow> (count32 (length (filter stop_ok ts)), mw))"

text \<open>The manager as the \<open>Initializer\<close> of the API server.\<close>

definition manager_initializer ::
  "int \<Rightarrow> (nat \<Rightarrow> time) \<Rightarrow> nat list \<Rightarrow> ('m, 'w) ProvidersManager \<Rightarrow> ('m \<times> 'w) initializer" where
  "manager_initializer port clock schedule pm =
     \<lparr>InitializeNodes = pm_InitializeNodes port clock schedule pm, TerminateNodes = pm_TerminateNodes schedule pm\<rparr>"

end
