(* ===== verification/Cloud_Claims.thy ===== *)
theory Cloud_Claims imports Gcp_Provider Autoscaler_Safety begin

text \<open>
  Both providers meet the contract of \<open>CloudProvider\<close> when the cloud's own API keeps its documented
  behaviour; and what their launches leave behind when the wait for addresses fails.
\<close>

section \<open>EC2\<close>

locale ec2_contract =
  fixes S :: "('c, 'w) ec2_sdk" and running :: "'w \<Rightarrow> string set"
  assumes run_one: "RunInstances S c input w = (Inr insts, w') \<Longrightarrow> MinCount input = 1 \<Longrightarrow> MaxCount input = 1 \<Longrightarrow>
      \<exists>inst i. insts = [inst] \<and> InstanceId inst = Some i \<and> i \<notin> running w \<and> running w' = insert i (running w)"
    and run_error: "RunInstances S c input w = (Inl e, w') \<Longrightarrow> MaxCount input = 1 \<Longrightarrow>
      running w \<subseteq> running w' \<and> (\<exists>i. running w' \<subseteq> insert i (running w))"
    and describe: "running (snd (DescribeInstances S c i w)) = running w"
    and new_string: "running (snd (NewString S w)) = running w"
    and terminate_instances: "TerminateInstances S c i w = (None, w') \<Longrightarrow> running w' = running w - {i}"
    and terminate_failed: "TerminateInstances S c i w = (Some e, w') \<Longrightarrow>
      running w' = running w \<or> running w' = running w - {i}"
begin

lemma aws_wait_quiet: "running (snd (aws_wait_loop S c i es w)) = running w"
proof (induction es arbitrary: w)
  case (Cons ev es)
  show ?case
  proof (cases ev)
    case IpTick
    obtain r w1 where d: "DescribeInstances S c i w = (r, w1)" by fastforce
    then have "running w1 = running w" using describe [of c i w] by simp
    then show ?thesis using IpTick d Cons.IH by (auto split: sum.split option.split)
  qed simp
qed simp

lemma aws_spawn_cases:
  assumes "aws_SpawnNode sort_slice S c a r w = (x, w')"
  obtains (none) e where "x = Inl e" and "running w' = running w"
  | (refused) e input e' w1 where "x = Inl e" and "MaxCount input = 1" and "running w1 = running w"
    "RunInstances S (ec2Client a) input w1 = (Inl e', w')"
  | (launched) i where "i \<notin> running w" and "running w' = insert i (running w)"
    and "\<And>n. x = Inr n \<Longrightarrow> pn_ProviderID n = i"
proof (cases "\<exists>as t. aws_Autoscaling c = Some as \<and> NodeTypes as \<noteq> [] \<and>
    selectInstanceType sort_slice (NodeTypes as) r = Inr t")
  case False
  then have "\<exists>e. x = Inl e \<and> w' = w" using assms
    by (auto simp: aws_SpawnNode_def wrapped_def andthen_def split: option.splits if_splits sum.splits)
  then show ?thesis using none by blast
next
  case True
  then obtain as t where t: "aws_Autoscaling c = Some as" "NodeTypes as \<noteq> []"
    "selectInstanceType sort_slice (NodeTypes as) r = Inr t" by blast
  obtain uuid w1 where u: "NewString S w = (uuid, w1)" by fastforce
  then have w1: "running w1 = running w" using new_string [of w] by simp
  let ?in = "run_input c t (''auto-agent-'' @ take 8 uuid)"
  obtain y w2 where run: "RunInstances S (ec2Client a) ?in w1 = (y, w2)" by fastforce
  show ?thesis
  proof (cases y)
    case (Inl e')
    then have "x = Inl (''RunInstances: '' @ e')" "w' = w2"
      using assms t u run by (auto simp: aws_SpawnNode_def wrapped_def andthen_def Let_def)
    then show ?thesis using refused [of _ ?in w1 e'] w1 run Inl by (simp add: run_input_def)
  next
    case (Inr insts)
    obtain inst i where i: "insts = [inst]" "InstanceId inst = Some i" "i \<notin> running w1"
      "running w2 = insert i (running w1)"
      using run_one [of "ec2Client a" ?in w1 insts w2] run Inr by (auto simp: run_input_def)
    obtain z w3 where wait: "aws_waitForIPs S (ec2Client a) i w2 = (z, w3)" by fastforce
    have "running w3 = running w2"
      using wait aws_wait_quiet [of "ec2Client a" i "ip_waits S w2" w2] by (simp add: aws_waitForIPs_def)
    moreover have "w' = w3" "\<And>n. x = Inr n \<Longrightarrow> pn_ProviderID n = i"
      using assms t u run Inr i(1,2) wait
      by (auto simp: aws_SpawnNode_def wrapped_def andthen_def Let_def aws_ToString_def split: sum.splits prod.splits)
    ultimately show ?thesis using launched [of i] i w1 by auto
  qed
qed

end

section \<open>Compute Engine\<close>

text \<open>
  An accepted operation names its instance and says whether it deletes it.  Only a failed insertion
  or a deletion ends an instance.
\<close>

locale gce_contract =
  fixes S :: "('c, 'w) gce_sdk" and running :: "'w \<Rightarrow> string set"
    and target :: "string \<Rightarrow> string" and deletes :: "string \<Rightarrow> bool"
  assumes insert_ok: "instances_Insert S c p z inst w = (Inr op1, w') \<Longrightarrow>
      target op1 = gi_Name inst \<and> \<not> deletes op1 \<and> gi_Name inst \<notin> running w \<and>
      running w' = insert (gi_Name inst) (running w)"
    and insert_error: "instances_Insert S c p z inst w = (Inl e, w') \<Longrightarrow>
      running w \<subseteq> running w' \<and> running w' \<subseteq> insert (gi_Name inst) (running w)"
    and delete_ok: "instances_Delete S c p z name w = (Inr op1, w') \<Longrightarrow>
      target op1 = name \<and> deletes op1 \<and> (running w' = running w \<or> running w' = running w - {name})"
    and delete_error: "instances_Delete S c p z name w = (Inl e, w') \<Longrightarrow>
      running w' = running w \<or> running w' = running w - {name}"
    and get_quiet: "running (snd (instances_Get S c p z name w)) = running w"
    and wait_bounds: "zoneOps_Wait S c p z op1 w = (r, w') \<Longrightarrow>
      running w' = running w \<or> running w' = running w - {target op1}"
    and wait_insert: "zoneOps_Wait S c p z op1 w = (Inr (st, None), w') \<Longrightarrow> \<not> deletes op1 \<Longrightarrow> running w' = running w"
    and wait_delete: "zoneOps_Wait S c p z op1 w = (Inr (''DONE'', None), w') \<Longrightarrow> deletes op1 \<Longrightarrow>
      running w' = running w - {target op1}"
    and unfinished: "zoneOps_Wait S c p z op1 w = (Inr (st, oe), w') \<Longrightarrow> st \<noteq> ''DONE'' \<Longrightarrow> oe = None"
    and gce_new_string: "running (snd (gce_NewString S w)) = running w"
begin

lemma gcp_wait_quiet: "running (snd (gcp_wait_loop S c svc name es w)) = running w"
proof (induction es arbitrary: w)
  case (Cons ev es)
  show ?case
  proof (cases ev)
    case IpTick
    obtain r w1 where d: "instances_Get S svc (ProjectID c) (Zone c) name w = (r, w1)" by fastforce
    then have "running w1 = running w" using get_quiet [of svc "ProjectID c" "Zone c" name w] by simp
    then show ?thesis using IpTick d Cons.IH by (auto split: sum.split option.split)
  qed simp
qed simp

lemma wait_op:
  "gcp_waitForOp S c svc n op1 w = (r, w') \<Longrightarrow>
     (running w' = running w \<or> running w' = running w - {target op1}) \<and>
     (r = Inr () \<longrightarrow> running w' = (if deletes op1 then running w - {target op1} else running w))"
proof (induction n arbitrary: w)
  case (Suc n)
  obtain x w1 where z: "zoneOps_Wait S svc (ProjectID c) (Zone c) op1 w = (x, w1)" by fastforce
  note b = wait_bounds [OF z]
  show ?case
  proof (cases x)
    case (Inl e)
    then show ?thesis using Suc.prems z b by auto
  next
    case (Inr so)
    obtain st oe where so: "so = (st, oe)" by fastforce
    show ?thesis
    proof (cases "st = ''DONE''")
      case True
      then show ?thesis
        using Suc.prems z b Inr so wait_insert [of svc "ProjectID c" "Zone c" op1 w st w1]
          wait_delete [of svc "ProjectID c" "Zone c" op1 w w1]
        by (cases oe) auto
    next
      case False
      then have "oe = None" using unfinished z Inr so by blast
      then have "\<not> deletes op1 \<Longrightarrow> running w1 = running w"
        using wait_insert [of svc "ProjectID c" "Zone c" op1 w st w1] z Inr so by simp
      moreover have "gcp_waitForOp S c svc n op1 w1 = (r, w')" using Suc.prems z Inr so False by simp
      ultimately show ?thesis using Suc.IH [of w1] b by auto
    qed
  qed
qed auto

lemma gcp_spawn_cases:
  assumes "gcp_SpawnNode sort_slice S c svc (Some p) r w = (x, w')"
  obtains (refused) e name where "x = Err e" and "running w \<subseteq> running w'" and "running w' \<subseteq> insert name (running w)"
  | (launched) n where "x = Ret n" and "pn_ProviderID n \<notin> running w"
    and "running w' = insert (pn_ProviderID n) (running w)"
proof (cases "\<exists>as t. gcp_Autoscaling c = Some as \<and> NodeTypes as \<noteq> [] \<and>
    selectInstanceType sort_slice (NodeTypes as) r = Inr t")
  case False
  then have "\<exists>e. x = Err e \<and> w' = w" using assms
    by (auto simp: gcp_SpawnNode_def split: option.splits if_splits sum.splits)
  then show ?thesis using refused by blast
next
  case True
  then obtain as t where t: "gcp_Autoscaling c = Some as" "NodeTypes as \<noteq> []"
    "selectInstanceType sort_slice (NodeTypes as) r = Inr t" by blast
  obtain uuid w1 where u: "gce_NewString S w = (uuid, w1)" by fastforce
  then have w1: "running w1 = running w" using gce_new_string [of w] by simp
  define nm where "nm = ''flux-agent-'' @ ''auto-agent-'' @ take 8 uuid"
  define inst where "inst = gcp_instance c p t (''auto-agent-'' @ take 8 uuid)"
  have name: "gi_Name inst = nm" by (simp add: gcp_instance_def inst_def nm_def)
  obtain y w2 where ins: "instances_Insert S svc (ProjectID c) (Zone c) inst w1 = (y, w2)" by fastforce
  show ?thesis
  proof (cases y)
    case (Inl e)
    then have "x = Err (''Insert: '' @ e)" "w' = w2"
      using assms t u ins by (simp_all add: gcp_SpawnNode_def Let_def inst_def)
    then show ?thesis using refused insert_error ins Inl w1 by metis
  next
    case op1: (Inr op1)
    have ok: "target op1 = nm" "\<not> deletes op1" "nm \<notin> running w" "running w2 = insert nm (running w)"
      using insert_ok [OF ins [unfolded op1]] name w1 by auto
    obtain z w3 where l: "gcp_launch S c svc nm op1 w2 = (z, w3)" by fastforce
    obtain q w4 where o: "gcp_waitForOp S c svc (gce_polls S w2) op1 w2 = (q, w4)" by fastforce
    note wo = wait_op [OF o]
    have w3: "w' = w3" "case z of Inl e \<Rightarrow> x = Err e | Inr ips \<Rightarrow> \<exists>n. x = Ret n \<and> pn_ProviderID n = nm"
      using assms t u ins op1 l by (auto simp: gcp_SpawnNode_def Let_def inst_def nm_def split: sum.splits prod.splits)
    show ?thesis
    proof (cases q)
      case (Inl e)
      then obtain e' where "z = Inl e'" "w3 = w4" using l o by (auto simp: gcp_launch_def andthen_def wrapped_def)
      then have "x = Err e'" "running w \<subseteq> running w'" "running w' \<subseteq> insert nm (running w)"
        using w3 wo ok by auto
      then show ?thesis by (rule refused)
    next
      case (Inr v)
      then have "running w3 = running w4"
        using l o gcp_wait_quiet [of c svc nm "gce_ip_waits S w4" w4]
        by (auto simp: gcp_launch_def andthen_def wrapped_def gcp_waitForIPs_def split: prod.splits sum.splits)
      then have run: "running w' = insert nm (running w)" using wo Inr ok w3(1) by simp
      show ?thesis
      proof (cases z)
        case (Inl e')
        have "running w \<subseteq> running w'" "running w' \<subseteq> insert nm (running w)" using run by auto
        with Inl w3(2) show ?thesis using refused by simp
      next
        case (Inr ips)
        then show ?thesis using w3(2) launched run ok(3) by auto
      qed
    qed
  qed
qed

lemma gcp_spawn_result:
  assumes "gcp_SpawnNode sort_slice S c svc q r w = (x, w')"
  shows "case x of
      Ret n \<Rightarrow> pn_ProviderID n \<notin> running w \<and> running w' = insert (pn_ProviderID n) (running w)
    | _ \<Rightarrow> \<exists>name. running w \<subseteq> running w' \<and> running w' \<subseteq> insert name (running w)"
proof (cases q)
  case None
  have "running w' = running w \<and> (\<forall>n. x \<noteq> Ret n)"
    using assms None gce_new_string [of w]
    by (auto simp: gcp_SpawnNode_def Let_def split: option.splits if_splits sum.splits prod.splits)
  then show ?thesis by (cases x) auto
next
  case (Some p)
  show ?thesis by (rule gcp_spawn_cases [OF assms [unfolded Some]]) auto
qed

end

section \<open>Two clouds\<close>

text \<open>Clouds whose state is the list of their instances.\<close>

definition list_ec2 :: "ip_wait list \<Rightarrow> (unit, string list) ec2_sdk" where
  "list_ec2 es =
     \<lparr>LoadDefaultConfig = (\<lambda>region creds. Inr ()),
      RunInstances = (\<lambda>c input w. let i = ''i-'' @ concat w
        in (Inr [\<lparr>InstanceId = Some i, PublicIpAddress = None, PrivateIpAddress = None\<rparr>], i # w)),
      DescribeInstances = (\<lambda>c i w.
        (Inr [[\<lparr>InstanceId = Some i, PublicIpAddress = Some ''10.0.0.2'', PrivateIpAddress = Some ''10.0.0.2''\<rparr>]], w)),
      TerminateInstances = (\<lambda>c i w. (None, filter (\<lambda>j. j \<noteq> i) w)), ImportKeyPair = (\<lambda>c name key w. (None, w)),
      NewString = (\<lambda>w. (''0123456789'', w)), ip_waits = (\<lambda>w. es)\<rparr>"

interpretation list_ec2: ec2_contract "list_ec2 es" set for es
  by unfold_locales (auto simp: list_ec2_def Let_def fresh_instance [simplified])

definition list_gce :: "(unit, string list) gce_sdk" where
  "list_gce =
     \<lparr>NewService = (\<lambda>f. Inr ()),
      instances_Insert = (\<lambda>c p z inst w. if gi_Name inst \<in> set w then (Inl ''alreadyExists'', w)
        else (Inr (''i'' @ gi_Name inst), gi_Name inst # w)),
      instances_Delete = (\<lambda>c p z name w. (Inr (''d'' @ name), w)),
      instances_Get = (\<lambda>c p z name w. (Inr [\<lparr>NetworkIP = ''10.0.0.2'', NatIPs = [''10.0.0.2'']\<rparr>], w)),
      zoneOps_Wait = (\<lambda>c p z op1 w.
        (Inr (''DONE'', None), if take 1 op1 = ''d'' then filter (\<lambda>j. j \<noteq> drop 1 op1) w else w)),
      gce_NewString = (\<lambda>w. (''0123456789'', w)), gce_polls = (\<lambda>w. 1), gce_ip_waits = (\<lambda>w. [IpTick])\<rparr>"

interpretation list_gce: gce_contract list_gce set "drop 1" "\<lambda>op1. take 1 op1 = ''d''"
  by unfold_locales (auto simp: list_gce_def split: if_splits)

definition node_pki :: "(string, nat) pki" where
  "node_pki = \<lparr>certsDir = ''/c'', caCert = Some ''ca'', caKey = Some 0, sshPublicKey = ''ecdsa''\<rparr>"

definition list_aws :: "(unit, string, nat) AWSProvider" where
  "list_aws = \<lparr>ec2Client = (), aws_bootstrapper = node_config\<rparr>"

definition list_gcp :: "(unit, string, nat) GCPProvider" where
  "list_gcp = \<lparr>gce_service = (), gcp_bootstrapper = Some node_config, gcp_pkiMgr = Some node_pki\<rparr>"

section \<open>Properties\<close>

text \<open>
  C16. The EC2 provider meets the contract the autoscaler and the providers manager rely on, given
  what EC2 documents of its calls: a launch that succeeds adds exactly its instance, one that fails
  adds at most one, a termination removes its instance, a bootstrap changes nothing.
\<close>

theorem aws_meets_contract:
  assumes "ec2_contract S running" and "quiet_node L C running"
  shows "cloud_contract (AWSCloud sort_slice S L C pf c a) running"
proof (unfold_locales, goal_cases)
  case (1 r w n w')
  then show ?case
    using ec2_contract.aws_spawn_cases [OF assms(1), of sort_slice c a r w "Inr n" w']
    by (auto simp: AWSCloud_def)
next
  case (2 r w e w')
  then show ?case
  proof (cases rule: ec2_contract.aws_spawn_cases [OF assms(1), of sort_slice c a r w "Inl e" w'])
    case (3 e2 input e' w1)
    then show ?thesis using ec2_contract.run_error [OF assms(1) 3(4) 3(2)] by simp
  qed (auto simp: AWSCloud_def)
next
  case (3 nd w be w')
  then show ?case using quiet_node.boot_quiet [OF assms(2), of pf "aws_bootstrapper a" nd w]
    by (simp add: AWSCloud_def aws_Bootstrap_def)
next
  case (4 i w w')
  then show ?case using ec2_contract.terminate_instances [OF assms(1), of "ec2Client a" i w w']
    by (auto simp: AWSCloud_def aws_TerminateNode_def split: prod.splits option.splits)
next
  case (5 i w e w')
  then show ?case using ec2_contract.terminate_failed [OF assms(1), of "ec2Client a" i w]
    by (auto simp: AWSCloud_def aws_TerminateNode_def split: prod.splits option.splits)
qed

theorem aws_meets_contract_witness:
  "set (snd (TerminateNode (AWSCloud insertion_sort (list_ec2 [IpTick]) silent_shell node_crypto linux sample_aws list_aws)
     ''i-1'' [''i-1'', ''i-2''])) = {''i-2''}"
proof -
  have "TerminateNode (AWSCloud insertion_sort (list_ec2 [IpTick]) silent_shell node_crypto linux sample_aws list_aws)
      ''i-1'' [''i-1'', ''i-2''] = (None, [''i-2''])"
    by (simp add: AWSCloud_def aws_TerminateNode_def list_ec2_def)
  from cloud_contract.terminate_ok [OF aws_meets_contract [OF list_ec2.ec2_contract_axioms silent.quiet_node_axioms] this]
  show ?thesis by (simp add: AWSCloud_def aws_TerminateNode_def list_ec2_def)
qed

text \<open>
  C17. So does the Compute Engine provider, over operations that are accepted first and finish later:
  a launch or a deletion is reported done only when its operation is.
\<close>

theorem gcp_meets_contract:
  assumes "gce_contract S running target deletes" and "quiet_node L C running"
  shows "cloud_contract (GCPCloud sort_slice S L C pf c g) running"
proof -
  have spawn: "SpawnNode (GCPCloud sort_slice S L C pf c g) r w = (x, w') \<Longrightarrow>
      \<exists>y. gcp_SpawnNode sort_slice S c (gce_service g) (gcp_pkiMgr g) r w = (y, w') \<and>
        x = fst (result_sum (y, w'))" for r w x w'
    by (cases "gcp_SpawnNode sort_slice S c (gce_service g) (gcp_pkiMgr g) r w")
      (auto simp: GCPCloud_def result_sum_def split: go_result.splits)
  have fin: "TerminateNode (GCPCloud sort_slice S L C pf c g) i w = (x, w') \<Longrightarrow>
      (running w' = running w \<or> running w' = running w - {i}) \<and> (x = None \<longrightarrow> running w' = running w - {i})" for i w x w'
  proof -
    assume t: "TerminateNode (GCPCloud sort_slice S L C pf c g) i w = (x, w')"
    obtain y w1 where d: "instances_Delete S (gce_service g) (ProjectID c) (Zone c) i w = (y, w1)" by fastforce
    show ?thesis
    proof (cases y)
      case (Inl e)
      then show ?thesis using t d gce_contract.delete_error [OF assms(1)]
        by (force simp: GCPCloud_def gcp_TerminateNode_def)
    next
      case (Inr op1)
      obtain q w2 where o: "gcp_waitForOp S c (gce_service g) (gce_polls S w1) op1 w1 = (q, w2)" by fastforce
      have "w2 = w'" "x = None \<longrightarrow> q = Inr ()" using t d Inr o
        by (auto simp: GCPCloud_def gcp_TerminateNode_def split: sum.splits)
      then show ?thesis
        using gce_contract.wait_op [OF assms(1) o] gce_contract.delete_ok [OF assms(1) d [unfolded Inr]] by auto
    qed
  qed
  show ?thesis
  proof (unfold_locales, goal_cases)
    case (1 r w n w')
    obtain y where y: "gcp_SpawnNode sort_slice S c (gce_service g) (gcp_pkiMgr g) r w = (y, w')"
      "Inr n = fst (result_sum (y, w'))" using spawn [OF 1] by blast
    show ?case by (use y(2) gce_contract.gcp_spawn_result [OF assms(1) y(1)] in
        \<open>auto simp: result_sum_def split: go_result.splits\<close>)
  next
    case (2 r w e w')
    obtain y where y: "gcp_SpawnNode sort_slice S c (gce_service g) (gcp_pkiMgr g) r w = (y, w')"
      "Inl e = fst (result_sum (y, w'))" using spawn [OF 2] by blast
    show ?case by (use y(2) gce_contract.gcp_spawn_result [OF assms(1) y(1)] in
        \<open>auto simp: result_sum_def split: go_result.splits\<close>)
  next
    case (3 nd w be w')
    have "running (snd (gcp_Bootstrap L C pf g nd w)) = running w"
      using quiet_node.boot_quiet [OF assms(2), of pf _ nd w] by (simp add: gcp_Bootstrap_def split: option.split)
    with 3 show ?case by (simp add: GCPCloud_def)
  next
    case (4 i w w')
    then show ?case using fin by blast
  next
    case (5 i w e w')
    then show ?case using fin by blast
  qed
qed

theorem gcp_meets_contract_witness:
  "set (snd (SpawnNode (GCPCloud insertion_sort list_gce silent_shell node_crypto linux
     (sample_gcp\<lparr>gcp_Autoscaling := Some sample_autoscale\<rparr>) list_gcp) \<lparr>VCPUs = 2, MemoryGB = Fin 2\<rparr> [])) =
   {''flux-agent-auto-agent-01234567''}"
proof -
  let ?P = "GCPCloud insertion_sort list_gce silent_shell node_crypto linux
     (sample_gcp\<lparr>gcp_Autoscaling := Some sample_autoscale\<rparr>) list_gcp"
  let ?r = "SpawnNode ?P \<lparr>VCPUs = 2, MemoryGB = Fin 2\<rparr> []"
  have "case fst ?r of Inl e \<Rightarrow> False | Inr n \<Rightarrow> pn_ProviderID n = ''flux-agent-auto-agent-01234567''" by code_simp
  then obtain n where n: "fst ?r = Inr n" "pn_ProviderID n = ''flux-agent-auto-agent-01234567''"
    by (auto split: sum.splits)
  from n(1) have "?r = (Inr n, snd ?r)" by (simp only: prod_eq_iff fst_conv snd_conv simp_thms)
  from cloud_contract.spawn_ok [OF gcp_meets_contract [OF list_gce.gce_contract_axioms silent.quiet_node_axioms] this]
  show ?thesis using n(2) by simp
qed

text \<open>
  C40. A launch whose wait for addresses fails is reported as failed although its instance runs: the
  caller gets an error without the instance's identifier, nothing is registered, and nothing
  terminates the instance.
\<close>

theorem failed_wait_leaks:
  assumes "ec2_contract S running" and "aws_Autoscaling c = Some as" and "NodeTypes as \<noteq> []"
    and "selectInstanceType sort_slice (NodeTypes as) r = Inr t" and "NewString S w = (u, w1)"
    and "RunInstances S (ec2Client a) (run_input c t (''auto-agent-'' @ take 8 u)) w1 = (Inr [inst], w2)"
    and "aws_waitForIPs S (ec2Client a) (aws_ToString (InstanceId inst)) w2 = (Inl e, w3)"
  shows "\<exists>e'. SpawnNode (AWSCloud sort_slice S L C pf c a) r w = (Inl e', w3) \<and>
    aws_ToString (InstanceId inst) \<notin> running w \<and>
    running w3 = insert (aws_ToString (InstanceId inst)) (running w)"
proof -
  have "running w1 = running w" using ec2_contract.new_string [OF assms(1), of w] assms(5) by simp
  moreover have "\<exists>inst' i. [inst] = [inst'] \<and> InstanceId inst' = Some i \<and> i \<notin> running w1 \<and>
      running w2 = insert i (running w1)"
    by (rule ec2_contract.run_one [OF assms(1,6)]) (simp_all add: run_input_def)
  then have "aws_ToString (InstanceId inst) \<notin> running w1 \<and>
      running w2 = insert (aws_ToString (InstanceId inst)) (running w1)"
    by (elim exE conjE) (simp add: aws_ToString_def)
  moreover have "running w3 = running w2"
    using ec2_contract.aws_wait_quiet [OF assms(1), of "ec2Client a" "aws_ToString (InstanceId inst)" "ip_waits S w2" w2]
      assms(7) by (simp add: aws_waitForIPs_def)
  moreover have "\<exists>e'. SpawnNode (AWSCloud sort_slice S L C pf c a) r w = (Inl e', w3)"
    using assms(2-7) by (simp add: AWSCloud_def aws_SpawnNode_def wrapped_def andthen_def Let_def)
  ultimately show ?thesis by auto
qed

theorem failed_wait_leaks_witness:
  "\<exists>e' w3. SpawnNode (AWSCloud insertion_sort (list_ec2 []) silent_shell node_crypto linux
     (sample_aws\<lparr>aws_Autoscaling := Some sample_autoscale\<rparr>) list_aws) \<lparr>VCPUs = 2, MemoryGB = Fin 2\<rparr> [] = (Inl e', w3) \<and>
   set w3 = {''i-''}"
proof -
  let ?c = "sample_aws\<lparr>aws_Autoscaling := Some sample_autoscale\<rparr>"
  let ?inst = "\<lparr>InstanceId = Some ''i-'', PublicIpAddress = None, PrivateIpAddress = None\<rparr> :: ec2_instance"
  have sel: "selectInstanceType insertion_sort (NodeTypes sample_autoscale) \<lparr>VCPUs = 2, MemoryGB = Fin 2\<rparr> = Inr ''c5.large''"
    "NodeTypes sample_autoscale \<noteq> []" by code_simp+
  have lib: "NewString (list_ec2 []) [] = (''0123456789'', [])"
    "RunInstances (list_ec2 []) (ec2Client list_aws) (run_input ?c ''c5.large'' (''auto-agent-'' @ take 8 ''0123456789'')) [] =
       (Inr [?inst], [''i-''])"
    "aws_waitForIPs (list_ec2 []) (ec2Client list_aws) (aws_ToString (InstanceId ?inst)) [''i-''] =
       (Inl (''timed out waiting for IPs on '' @ ''i-''), [''i-''])"
    by (simp_all add: list_ec2_def aws_waitForIPs_def aws_ToString_def Let_def)
  from failed_wait_leaks [OF list_ec2.ec2_contract_axioms _ sel(2,1) lib, of silent_shell node_crypto linux]
  show ?thesis by (auto simp: aws_ToString_def)
qed

end
