(* ===== verification/Manager_Claims.thy ===== *)
theory Manager_Claims imports Providers_Manager Cloud_Claims begin

text \<open>
  What the providers manager does to the fleet under every interleaving of its goroutines, and what
  that means for the API operations that call it.
\<close>

section \<open>Schedules\<close>

lemma step_task_length [simp]: "length (fst (step_task step k ts)) = length (fst ts)"
  by (simp add: step_task_def split: prod.split)

lemma run_tasks_length [simp]: "length (fst (fold (step_task step) ks ts)) = length (fst ts)"
  by (induction ks arbitrary: ts) simp_all

text \<open>When every step of a task lowers its rank, as many steps as its rank finish it.\<close>

lemma step_task_rank:
  fixes rank :: "'t \<Rightarrow> nat"
  assumes "\<And>k t s. rank (fst (step k t s)) \<le> rank t - 1" and "j < length (fst ts)"
  shows "rank (fst (step_task step k ts) ! j) \<le> rank (fst ts ! j) - (if k = j then 1 else 0)"
proof (cases "k = j")
  case True
  obtain t s where st: "step j (fst ts ! j) (snd ts) = (t, s)" by fastforce
  have "rank t \<le> rank (fst ts ! j) - 1" using assms(1) [of j "fst ts ! j" "snd ts"] st by simp
  then show ?thesis using True assms(2) st by (simp add: step_task_def)
next
  case False
  then show ?thesis using assms(2) by (simp add: step_task_def split: prod.split)
qed

lemma run_tasks_rank:
  fixes rank :: "'t \<Rightarrow> nat"
  assumes "\<And>k t s. rank (fst (step k t s)) \<le> rank t - 1" and "j < length (fst ts)"
  shows "rank (fst (fold (step_task step) ks ts) ! j) \<le> rank (fst ts ! j) - count_list ks j"
  using assms(2)
proof (induction ks arbitrary: ts)
  case (Cons k ks)
  have "rank (fst (fold (step_task step) ks (step_task step k ts)) ! j) \<le>
      rank (fst (step_task step k ts) ! j) - count_list ks j"
    using Cons.IH [of "step_task step k ts"] Cons.prems by simp
  moreover have "rank (fst (step_task step k ts) ! j) \<le> rank (fst ts ! j) - (if k = j then 1 else 0)"
    using step_task_rank [where rank = rank and step = step and j = j and ts = ts and k = k] assms(1) Cons.prems by blast
  ultimately show ?case by (cases "k = j") simp_all
qed simp

lemma drain_schedule_count: "j < n \<Longrightarrow> count_list (drain_schedule n) j = 3"
proof -
  have "count_list (concat (map (\<lambda>k. [k, k, k]) ks)) j = 3 * count_list ks j" for ks
    by (induction ks) simp_all
  moreover assume "j < n"
  then have "count_list [0..<n] j = 1" by (induction n) (auto simp: less_Suc_eq count_list_0_iff)
  ultimately show ?thesis by (simp add: drain_schedule_def)
qed

lemma drained:
  fixes rank :: "'t \<Rightarrow> nat"
  assumes "\<And>k t s. rank (fst (step k t s)) \<le> rank t - 1" and "\<And>t. rank t \<le> 3"
    and "t \<in> set (fst (fold (step_task step) (drain_schedule (length (fst ts))) ts))"
  shows "rank t = 0"
proof -
  obtain j where j: "j < length (fst ts)" "t = fst (fold (step_task step) (drain_schedule (length (fst ts))) ts) ! j"
    using assms(3) by (auto simp: in_set_conv_nth)
  show ?thesis
    using run_tasks_rank [of rank step j ts "drain_schedule (length (fst ts))", OF assms(1) j(1)]
      assms(2) [of "fst ts ! j"] drain_schedule_count [OF j(1)] j(2) by simp
qed

lemma run_tasks_inv:
  assumes "P ts" and "\<And>k ts. P ts \<Longrightarrow> k < length (fst ts) \<Longrightarrow>
    P ((fst ts)[k := fst (step k (fst ts ! k) (snd ts))], snd (step k (fst ts ! k) (snd ts)))"
  shows "P (fold (step_task step) ks ts)"
  using assms(1)
proof (induction ks arbitrary: ts)
  case (Cons k ks)
  have "P (step_task step k ts)"
    using assms(2) [OF Cons.prems, of k] Cons.prems by (simp add: step_task_def split_beta)
  then show ?case using Cons.IH by simp
qed simp

section \<open>The manager keeps to the registry\<close>

lemma spawn_step_run:
  "registry_run M m0 (fst s) \<Longrightarrow> registry_run M m0 (fst (snd (spawn_step M port clock k t s)))"
proof (cases "(M, port, clock, k, t, s)" rule: spawn_step.cases)
  case (4 M' port' clock' k' e node m w)
  let ?op = "OpRegisterOffline (clock' k') (pn_AgentID node) (host_port (PublicIP node) port') (pn_ProviderID node)
        (pn_InstanceType node) (cp_Name (entry_provider e))"
  assume "registry_run M m0 (fst s)"
  from run_step [OF this, of ?op] 4 show ?thesis by simp
qed (auto split: sum.split prod.split option.split)

lemma stop_step_run:
  "registry_run M m0 (fst s) \<Longrightarrow> registry_run M m0 (fst (snd (stop_step M k t s)))"
proof (cases "(M, k, t, s)" rule: stop_step.cases)
  case (1 M' k' e a m w)
  assume "registry_run M m0 (fst s)"
  from run_step [OF this, of "OpDeregister (ID a)"] 1 show ?thesis by simp
qed (auto split: sum.split prod.split option.split)

lemma tasks_run:
  assumes "\<And>k t s. registry_run M m0 (fst s) \<Longrightarrow> registry_run M m0 (fst (snd (step k t s)))"
    and "registry_run M m0 (fst (snd ts))"
  shows "registry_run M m0 (fst (snd (fold (step_task step) ks ts)))"
  using run_tasks_inv [of "\<lambda>ts. registry_run M m0 (fst (snd ts))" ts step ks] assms by simp

lemma init_choice_run:
  "registry_run M m0 (fst (snd (tasks s))) \<Longrightarrow>
     registry_run M m0 (fst (snd (tasks (init_choice M port clock c s))))"
proof (cases c)
  case (Suc k)
  assume "registry_run M m0 (fst (snd (tasks s)))"
  with tasks_run [where ks = "[k]" and step = "spawn_step M port clock", OF spawn_step_run this] Suc
  show ?thesis by simp
qed (auto simp: main_turn_def split: list.split prod.split)

lemma run_choices_run:
  "registry_run M m0 (fst (snd (tasks s))) \<Longrightarrow>
     registry_run M m0 (fst (snd (tasks (run_choices M port clock cs s))))"
  by (induction cs arbitrary: s) (simp_all add: run_choices_def init_choice_run)

interpretation manager: fleet_initializer "pm_reg pm" "manager_initializer port clock schedule pm"
  for port clock schedule and pm :: "('m, 'w) ProvidersManager"
proof (unfold_locales, goal_cases)
  case (1 m w r m' w')
  let ?s = "wait_group (pm_reg pm) port clock
      (run_choices (pm_reg pm) port clock schedule \<lparr>todo = entries pm, tasks = ([], m, w)\<rparr>)"
  have "registry_run (pm_reg pm) m (fst (snd (tasks ?s)))"
    by (simp add: wait_group_def Let_def run_choices_run)
  then show ?case using 1 by (auto simp: manager_initializer_def pm_InitializeNodes_def Let_def split: prod.splits)
next
  case (2 m w n m' w')
  let ?ts = "stop_tasks (entries pm) (reg_GetAllAgents (pm_reg pm) m)"
  have "registry_run (pm_reg pm) m (fst (snd (fold (step_task (stop_step (pm_reg pm)))
      (schedule @ drain_schedule (length ?ts)) (?ts, m, w))))"
    by (rule tasks_run [OF stop_step_run]) simp_all
  then show ?case using 2 by (auto simp: manager_initializer_def pm_TerminateNodes_def Let_def split: prod.splits)
qed

section \<open>Taking the fleet down\<close>

fun stop_rank :: "'w stop_task \<Rightarrow> nat" where
  "stop_rank (DeregisterTask e a) = 2"
| "stop_rank (TerminateTask e a) = 1"
| "stop_rank (StopDone a b) = 0"

fun stop_id :: "'w stop_task \<Rightarrow> string" where
  "stop_id (DeregisterTask e a) = ID a"
| "stop_id (TerminateTask e a) = ID a"
| "stop_id (StopDone a b) = ID a"

lemma stop_step_rank: "stop_rank (fst (stop_step M k t s)) \<le> stop_rank t - 1"
  by (cases "(M, k, t, s)" rule: stop_step.cases) (auto split: option.split prod.split)

lemma stop_step_id: "stop_id (fst (stop_step M k t s)) = stop_id t"
  by (cases "(M, k, t, s)" rule: stop_step.cases) (auto split: option.split prod.split)

text \<open>The identifiers whose records are gone: those of the tasks past their first step.\<close>

definition gone :: "'w stop_task list \<Rightarrow> string set" where
  "gone ts = stop_id ` {t \<in> set ts. stop_rank t < 2}"

definition managed_by :: "'w providerEntry list \<Rightarrow> agent \<Rightarrow> bool" where
  "managed_by es a \<longleftrightarrow> Provider a \<in> cp_Name ` entry_provider ` set es"

lemma gone_update:
  assumes "k < length us"
  shows "gone (us[k := t]) = stop_id ` {us ! j | j. j < length us \<and> j \<noteq> k \<and> stop_rank (us ! j) < 2} \<union>
    (if stop_rank t < 2 then {stop_id t} else {})"
proof -
  have "set (us[k := t]) = {us ! j | j. j < length us \<and> j \<noteq> k} \<union> {t}"
    using assms by (auto simp: set_conv_nth nth_list_update)
  then show ?thesis unfolding gone_def by auto
qed

lemma gone_at:
  "k < length us \<Longrightarrow> gone us = stop_id ` {us ! j | j. j < length us \<and> j \<noteq> k \<and> stop_rank (us ! j) < 2} \<union>
    (if stop_rank (us ! k) < 2 then {stop_id (us ! k)} else {})"
  using gone_update [of k us "us ! k"] by simp

lemma restrict_all [simp]: "m |` UNIV = m"
  by (simp add: restrict_map_def)

lemma stop_tasks_ids: "stop_id ` set (stop_tasks es as) = ID ` {a \<in> set as. managed_by es a}"
  by (force simp: stop_tasks_def managed_by_def image_iff)

lemma stop_tasks_start: "t \<in> set (stop_tasks es as) \<Longrightarrow> stop_rank t = 2"
  by (auto simp: stop_tasks_def)

text \<open>The loop the goroutines stand for: deregister the managed agents one after the other.\<close>

definition deregister_all :: "'m memory \<Rightarrow> agent list \<Rightarrow> 'm \<Rightarrow> 'm" where
  "deregister_all M as m = fold (\<lambda>a. DeregisterAgent M (ID a)) as m"

context memory_in_service begin

lemma deregister_all_up:
  "up m \<Longrightarrow> up (deregister_all M as m) \<and>
     view (deregister_all M as m) = view m\<lparr>v_agents := (v_agents (view m)) |` (- (ID ` set as))\<rparr>"
proof (induction as arbitrary: m)
  case (Cons a as)
  note d = deregister_up [OF Cons.prems, of "ID a"]
  show ?case
    using Cons.IH [of "DeregisterAgent M (ID a) m"] d
    by (auto simp: deregister_all_def restrict_map_def fun_eq_iff)
qed (simp add: deregister_all_def)

lemma stop_inv_step:
  assumes "up (fst (snd ts)) \<and> stop_id ` set (fst ts) = I \<and>
      view (fst (snd ts)) = V\<lparr>v_agents := v_agents V |` (- gone (fst ts))\<rparr>"
    and "k < length (fst ts)"
  shows "up (fst (snd (stop_step M k (fst ts ! k) (snd ts)))) \<and>
    stop_id ` set ((fst ts)[k := fst (stop_step M k (fst ts ! k) (snd ts))]) = I \<and>
    view (fst (snd (stop_step M k (fst ts ! k) (snd ts)))) =
      V\<lparr>v_agents := v_agents V |` (- gone ((fst ts)[k := fst (stop_step M k (fst ts ! k) (snd ts))]))\<rparr>"
proof -
  obtain us m w where ts: "ts = (us, m, w)" by (cases ts) auto
  let ?t = "us ! k" and ?t' = "fst (stop_step M k (us ! k) (m, w))"
  have ids: "map stop_id (us[k := ?t']) = map stop_id us"
    using assms(2) stop_step_id [of M k "us ! k" "(m, w)"] ts by (simp add: map_update list_update_same_conv)
  then have idset: "stop_id ` set (us[k := ?t']) = I" using assms(1) ts by (metis fst_conv list.set_map)
  note k = gone_update [of k us ?t'] gone_at [of k us]
  show ?thesis
  proof (cases "?t")
    case (DeregisterTask e a)
    have "gone (us[k := ?t']) = insert (ID a) (gone us)"
      using k assms(2) DeregisterTask ts by simp
    moreover note deregister_up [of m "ID a"]
    ultimately show ?thesis using assms(1) idset DeregisterTask ts
      by (auto simp: restrict_map_def fun_eq_iff)
  next
    case (TerminateTask e a)
    then have "stop_rank ?t' < 2" "stop_rank ?t < 2" "stop_id ?t' = stop_id ?t"
      by (auto split: option.split prod.split)
    then have "gone (us[k := ?t']) = gone us" using k assms(2) ts by simp
    moreover have "fst (snd (stop_step M k ?t (m, w))) = m"
      using TerminateTask by (simp split: option.split prod.split)
    ultimately show ?thesis using assms(1) idset ts by simp
  next
    case (StopDone a b)
    then have "us[k := ?t'] = us" by (metis fst_conv list_update_id stop_step.simps(3))
    then show ?thesis using assms(1) StopDone ts by simp
  qed
qed

lemma terminate_up:
  assumes "up m" and "pm_reg pm = M"
  shows "view (fst (snd (pm_TerminateNodes schedule pm (m, w)))) =
    view (deregister_all M (filter (managed_by (entries pm)) (reg_GetAllAgents M m)) m) \<and>
    up (fst (snd (pm_TerminateNodes schedule pm (m, w))))"
proof -
  let ?all = "reg_GetAllAgents M m"
  let ?ts = "stop_tasks (entries pm) ?all"
  let ?I = "ID ` {a \<in> set ?all. managed_by (entries pm) a}"
  let ?inv = "\<lambda>ts. up (fst (snd ts)) \<and> stop_id ` set (fst ts) = ?I \<and>
      view (fst (snd ts)) = view m\<lparr>v_agents := v_agents (view m) |` (- gone (fst ts))\<rparr>"
  let ?r = "fold (step_task (stop_step M)) (drain_schedule (length ?ts))
      (fold (step_task (stop_step M)) schedule (?ts, m, w))"
  have "gone ?ts = {}" unfolding gone_def using stop_tasks_start by fastforce
  then have start: "?inv (?ts, m, w)" using assms(1) stop_tasks_ids by simp
  have inv: "?inv ?r"
    by (rule run_tasks_inv [where P = ?inv], rule run_tasks_inv [where P = ?inv], rule start)
      (simp_all only: fst_conv snd_conv stop_inv_step)
  have "length ?ts = length (fst (fold (step_task (stop_step M)) schedule (?ts, m, w)))" by simp
  then have "stop_rank t = 0" if "t \<in> set (fst ?r)" for t
    using drained [where rank = stop_rank and step = "stop_step M"] stop_step_rank that
    by (metis numeral_3_eq_3 numeral_2_eq_2 le_SucI order_refl stop_rank.cases stop_rank.simps zero_le one_le_numeral)
  then have "gone (fst ?r) = ?I" unfolding gone_def using inv by (metis (mono_tags, lifting) Collect_cong Collect_mem_eq zero_less_numeral)
  then have "view (fst (snd ?r)) = view m\<lparr>v_agents := v_agents (view m) |` (- ?I)\<rparr>" using inv by simp
  moreover have "view (deregister_all M (filter (managed_by (entries pm)) ?all) m) =
      view m\<lparr>v_agents := v_agents (view m) |` (- ?I)\<rparr>"
    using deregister_all_up [OF assms(1)] by simp
  moreover have "fst (snd (pm_TerminateNodes schedule pm (m, w))) = fst (snd ?r)"
    using assms(2) by (simp add: pm_TerminateNodes_def Let_def split: prod.split)
  ultimately show ?thesis using inv by simp
qed

end

section \<open>Bringing the fleet up\<close>

fun spawn_rank :: "'w spawn_task \<Rightarrow> nat" where
  "spawn_rank (SpawnTask e res) = 3"
| "spawn_rank (BootTask e node) = 2"
| "spawn_rank (RegisterTask e node) = 1"
| "spawn_rank (GiveUpTask e node) = 1"
| "spawn_rank (SpawnDone b) = 0"

lemma spawn_step_rank: "spawn_rank (fst (spawn_step M port clock k t s)) \<le> spawn_rank t - 1"
  by (cases "(M, port, clock, k, t, s)" rule: spawn_step.cases) (auto split: option.split prod.split sum.split)

definition successes :: "'w spawn_task list \<Rightarrow> nat" where
  "successes ts = length (filter spawn_ok ts)"

lemma successes_update:
  "k < length ts \<Longrightarrow> \<not> spawn_ok (ts ! k) \<Longrightarrow>
     successes (ts[k := t]) = successes ts + (if spawn_ok t then 1 else 0)"
  unfolding successes_def by (induction ts arbitrary: k) (auto simp: nth_Cons' less_Suc_eq_0_disj split: nat.split)

lemma count32_id: "n < 2 ^ 31 \<Longrightarrow> count32 n = int n"
  by (simp add: count32_def signed_of_nat signed_take_bit_int_eq_self)

lemma successes_le: "successes ts \<le> length ts"
  by (simp add: successes_def)

text \<open>What an entry falls short of its minimum on a fleet; one without node types is skipped.\<close>

definition shortfall :: "string set \<Rightarrow> 'w providerEntry \<Rightarrow> int" where
  "shortfall D e = (if nodeTypes e = [] then 0 else max 0 (minNodes e - int (card D)))"

lemma shortfall_bounds: "0 \<le> minNodes e \<Longrightarrow> 0 \<le> shortfall D e \<and> shortfall D e \<le> minNodes e"
  by (simp add: shortfall_def)

lemma shortfall_sum:
  "\<forall>e \<in> set es. 0 \<le> minNodes e \<Longrightarrow>
     0 \<le> sum_list (map (shortfall D) es) \<and> sum_list (map (shortfall D) es) \<le> sum_list (map minNodes es)"
  by (induction es) (fastforce dest: shortfall_bounds [where D = D])+

context memory_in_service begin

lemma register_offline_up:
  assumes "up m"
  shows "up (RegisterOfflineAgent M now i addr pid it p m) \<and>
    dom (v_agents (view m)) \<subseteq> dom (v_agents (view (RegisterOfflineAgent M now i addr pid it p m))) \<and>
    dom (v_agents (view (RegisterOfflineAgent M now i addr pid it p m))) \<subseteq> insert i (dom (v_agents (view m)))"
proof -
  have "view (RegisterOfflineAgent M now i addr pid it p m) = put_agent (new_agent AgentOffline now i addr pid it p) (view m) \<and>
      up (RegisterOfflineAgent M now i addr pid it p m)"
    using registry_step_refines [OF assms, of "OpRegisterOffline now i addr pid it p"] by simp
  then show ?thesis by (auto simp: put_agent_def new_agent_def split: if_splits)
qed

text \<open>The fleet has grown by at most the successes so far.\<close>

definition grown :: "string set \<Rightarrow> 'w spawn_task list \<Rightarrow> 'a \<Rightarrow> bool" where
  "grown D ts m \<longleftrightarrow> up m \<and> D \<subseteq> dom (v_agents (view m)) \<and>
     (\<exists>R. finite R \<and> card R \<le> successes ts \<and> dom (v_agents (view m)) \<subseteq> D \<union> R)"

lemma grown_step:
  assumes "grown D (fst ts) (fst (snd ts))" and "k < length (fst ts)"
  shows "grown D ((fst ts)[k := fst (spawn_step M port clock k (fst ts ! k) (snd ts))])
    (fst (snd (spawn_step M port clock k (fst ts ! k) (snd ts))))"
proof -
  obtain us m w where ts: "ts = (us, m, w)" by (cases ts) auto
  obtain R where R: "up m" "D \<subseteq> dom (v_agents (view m))" "finite R" "card R \<le> successes us"
    "dom (v_agents (view m)) \<subseteq> D \<union> R" using assms(1) ts by (auto simp: grown_def)
  show ?thesis
  proof (cases "\<exists>e node. us ! k = RegisterTask e node")
    case True
    then obtain e node where t: "us ! k = RegisterTask e node" by blast
    let ?m' = "RegisterOfflineAgent M (clock k) (pn_AgentID node) (host_port (PublicIP node) port) (pn_ProviderID node)
        (pn_InstanceType node) (cp_Name (entry_provider e)) m"
    note reg = register_offline_up [OF R(1), of "clock k" "pn_AgentID node" "host_port (PublicIP node) port"
        "pn_ProviderID node" "pn_InstanceType node" "cp_Name (entry_provider e)"]
    have "card (insert (pn_AgentID node) R) \<le> successes us + 1"
      using R(3,4) by (simp add: card_insert_if)
    moreover have "successes (us[k := SpawnDone True]) = successes us + 1"
      using successes_update [of k us "SpawnDone True"] assms(2) t ts by simp
    moreover have "dom (v_agents (view ?m')) \<subseteq> D \<union> insert (pn_AgentID node) R" using reg R(5) by blast
    moreover have "D \<subseteq> dom (v_agents (view ?m'))" using reg R(2) by blast
    ultimately show ?thesis
      using reg R(3) ts t unfolding grown_def by (intro conjI exI [of _ "insert (pn_AgentID node) R"]) simp_all
  next
    case False
    let ?r = "spawn_step M port clock k (us ! k) (m, w)"
    have same: "fst (snd ?r) = m" and t': "\<not> spawn_ok (us ! k) \<Longrightarrow> \<not> spawn_ok (fst ?r)"
      "spawn_ok (us ! k) \<Longrightarrow> fst ?r = us ! k"
      using False by (cases "us ! k"; auto split: sum.split option.split prod.split)+
    have "successes (us[k := fst ?r]) = successes us"
    proof (cases "spawn_ok (us ! k)")
      case True
      then show ?thesis using t' by simp
    next
      case False
      then show ?thesis using t' successes_update [of k us "fst ?r"] assms(2) ts by simp
    qed
    then show ?thesis using R ts same by (auto simp: grown_def)
  qed
qed

text \<open>
  What the loop keeps, whatever goroutines run between its turns: the entries it has been through
  have been given at most as many tasks as each falls short of its minimum on the fleet \<open>D\<close> of the
  start, and enough for the tasks so far to make up for the shortfall of each.
\<close>

definition init_inv :: "'w providerEntry list \<Rightarrow> string set \<Rightarrow> ('a, 'w) init_state \<Rightarrow> bool" where
  "init_inv es D s \<longleftrightarrow>
     grown D (fst (tasks s)) (fst (snd (tasks s))) \<and>
     (\<exists>past. es = past @ todo s \<and>
        int (length (fst (tasks s))) \<le> sum_list (map (shortfall D) past) \<and>
        (\<forall>e \<in> set past. shortfall D e \<le> int (length (fst (tasks s)))))"

text \<open>The size of a fleet that has grown from \<open>D\<close>.\<close>

lemma grown_fleet:
  assumes "grown D ts m" and "finite D"
  shows "card D \<le> length (reg_GetAllAgents M m)" and "length (reg_GetAllAgents M m) \<le> card D + successes ts"
proof -
  obtain R where R: "up m" "D \<subseteq> dom (v_agents (view m))" "finite R" "card R \<le> successes ts"
    "dom (v_agents (view m)) \<subseteq> D \<union> R" using assms(1) by (auto simp: grown_def)
  have len: "length (reg_GetAllAgents M m) = card (dom (v_agents (view m)))"
    using enumerates_length [OF reg_get_all_up [OF R(1)]] .
  have fin: "finite (dom (v_agents (view m)))" using R(3,5) assms(2) finite_subset by blast
  show "card D \<le> length (reg_GetAllAgents M m)" unfolding len using card_mono [OF fin R(2)] .
  have "card (dom (v_agents (view m))) \<le> card (D \<union> R)" using R(3,5) assms(2) by (intro card_mono) simp_all
  then show "length (reg_GetAllAgents M m) \<le> card D + successes ts"
    unfolding len using card_Un_le [of D R] R(4) by linarith
qed

text \<open>One turn of the loop.\<close>

lemma entry_tasks_length:
  assumes "grown D ts m" and "finite D" and "0 \<le> minNodes e" and "minNodes e < 2 ^ 31"
    and "int (card D) < 2 ^ 31" and "int (length ts) < 2 ^ 31"
  shows "int (length (entry_tasks M e m)) \<le> shortfall D e"
    and "shortfall D e \<le> int (length (ts @ entry_tasks M e m))"
proof -
  let ?n = "length (reg_GetAllAgents M m)"
  note n = grown_fleet [OF assms(1,2)] successes_le [of ts]
  have "wrap64 (minNodes e - int ?n) = minNodes e - int ?n"
    using n assms(3-6) by (intro wrap64_id) simp_all
  then have len: "int (length (entry_tasks M e m)) = (if nodeTypes e = [] then 0 else max 0 (minNodes e - int ?n))"
    by (simp add: entry_tasks_def Let_def)
  show "int (length (entry_tasks M e m)) \<le> shortfall D e"
    and "shortfall D e \<le> int (length (ts @ entry_tasks M e m))"
    using n len by (auto simp: shortfall_def)
qed

lemma init_inv_choice:
  assumes "init_inv es D s" and "finite D" and "\<forall>e \<in> set es. 0 \<le> minNodes e"
    and "sum_list (map minNodes es) < 2 ^ 31" and "int (card D) < 2 ^ 31"
  shows "init_inv es D (init_choice M port clock c s)"
proof -
  obtain past where past: "grown D (fst (tasks s)) (fst (snd (tasks s)))" "es = past @ todo s"
    "int (length (fst (tasks s))) \<le> sum_list (map (shortfall D) past)"
    "\<forall>e \<in> set past. shortfall D e \<le> int (length (fst (tasks s)))"
    using assms(1) by (auto simp: init_inv_def)
  show ?thesis
  proof (cases c)
    case (Suc k)
    then show ?thesis using past grown_step [OF past(1), of k port clock]
      by (auto simp: init_inv_def step_task_def split_beta)
  next
    case 0
    obtain ts m w where ts: "tasks s = (ts, m, w)" by (cases "tasks s") auto
    show ?thesis
    proof (cases "todo s")
      case Nil
      then show ?thesis using 0 assms(1) by (simp add: main_turn_def)
    next
      case (Cons e rest)
      let ?new = "entry_tasks M e m"
      have nonneg: "0 \<le> minNodes e" "0 \<le> sum_list (map minNodes rest)"
        using assms(3) shortfall_sum [of rest D] past(2) Cons by auto
      have done_le: "0 \<le> sum_list (map minNodes past)" "sum_list (map (shortfall D) past) \<le> sum_list (map minNodes past)"
        using shortfall_sum [of past D] assms(3) past(2) by auto
      have total: "sum_list (map minNodes es) = sum_list (map minNodes past) + minNodes e + sum_list (map minNodes rest)"
        using past(2) Cons by simp
      have small: "minNodes e < 2 ^ 31" "int (length ts) < 2 ^ 31"
        using nonneg done_le total assms(4) past(3) ts by auto
      have grown: "grown D ts m" using past(1) ts by simp
      note len = entry_tasks_length [OF grown assms(2) nonneg(1) small(1) assms(5) small(2)]
      have new: "\<not> spawn_ok t" if "t \<in> set ?new" for t
        using that by (auto simp: entry_tasks_def Let_def split: if_splits)
      then have "successes (ts @ ?new) = successes ts" by (simp add: successes_def filter_empty_conv)
      then have "grown D (ts @ ?new) m" using grown by (simp add: grown_def)
      moreover have "es = (past @ [e]) @ rest" using past(2) Cons by simp
      moreover have "int (length (ts @ ?new)) \<le> sum_list (map (shortfall D) (past @ [e]))"
        using past(3) len(1) ts by simp
      moreover have "\<forall>e' \<in> set (past @ [e]). shortfall D e' \<le> int (length (ts @ ?new))"
        using past(4) len(2) ts by auto
      ultimately show ?thesis
        using 0 Cons ts unfolding init_inv_def by (simp add: main_turn_def)
    qed
  qed
qed

lemma init_inv_run:
  assumes "finite D" and "\<forall>e \<in> set es. 0 \<le> minNodes e" and "sum_list (map minNodes es) < 2 ^ 31"
    and "int (card D) < 2 ^ 31"
  shows "init_inv es D s \<Longrightarrow> init_inv es D (run_choices M port clock cs s)"
  by (induction cs arbitrary: s) (simp_all add: run_choices_def init_inv_choice [OF _ assms])

end

lemma main_turns: "todo (run_choices M port clock (replicate (length (todo s)) 0) s) = []"
proof (induction "length (todo s)" arbitrary: s)
  case 0
  then show ?case by (simp add: run_choices_def)
next
  case (Suc n)
  then have "length (todo (main_turn M s)) = n" by (auto simp: main_turn_def split: list.split prod.split)
  with Suc show ?case by (simp add: run_choices_def flip: Suc.hyps(2)) metis
qed

lemma choices_todo: "todo (run_choices M port clock (map Suc ks) s) = todo s"
  by (induction ks arbitrary: s) (simp_all add: run_choices_def)

context memory_in_service begin

lemma initialize_up:
  assumes "up m" and "pm_reg pm = M" and "D = dom (v_agents (view m))" and "finite D"
    and "\<forall>e \<in> set (entries pm). 0 \<le> minNodes e" and "sum_list (map minNodes (entries pm)) < 2 ^ 31"
    and "int (card D) < 2 ^ 31"
    and "pm_InitializeNodes port clock schedule pm (m, w) = ((succ, att), (m', w'))"
  shows "\<exists>n T. succ = count32 n \<and> att = count32 T \<and> n \<le> T \<and> D \<subseteq> dom (v_agents (view m')) \<and>
    (\<exists>Q. finite Q \<and> card Q \<le> n \<and> dom (v_agents (view m')) \<subseteq> D \<union> Q) \<and>
    int T \<le> sum_list (map (shortfall D) (entries pm)) \<and>
    (\<forall>e \<in> set (entries pm). shortfall D e \<le> int T)"
proof -
  let ?start = "\<lparr>todo = entries pm, tasks = ([], m, w)\<rparr>"
  let ?s = "wait_group M port clock (run_choices M port clock schedule ?start)"
  have "grown D [] m" using assms(1,3) unfolding grown_def by (intro conjI exI [of _ "{}"]) auto
  then have "init_inv (entries pm) D ?start" by (simp add: init_inv_def)
  then have "init_inv (entries pm) D (wait_group M port clock (run_choices M port clock cs ?start))" for cs
    unfolding wait_group_def Let_def by (intro init_inv_run [OF assms(4-7)])
  then have "init_inv (entries pm) D ?s" .
  moreover have "todo ?s = []" by (simp add: wait_group_def Let_def choices_todo main_turns)
  ultimately have "grown D (fst (tasks ?s)) (fst (snd (tasks ?s)))"
    "int (length (fst (tasks ?s))) \<le> sum_list (map (shortfall D) (entries pm))"
    "\<forall>e \<in> set (entries pm). shortfall D e \<le> int (length (fst (tasks ?s)))"
    by (auto simp: init_inv_def)
  moreover have "succ = count32 (successes (fst (tasks ?s)))" "att = count32 (length (fst (tasks ?s)))"
    "m' = fst (snd (tasks ?s))"
    using assms(2,8) by (auto simp: pm_InitializeNodes_def Let_def successes_def split: prod.splits)
  ultimately show ?thesis using successes_le unfolding grown_def by blast
qed

end

section \<open>Properties\<close>

text \<open>
  C8. Taking the fleet down does the same to the registry whichever way its goroutines interleave:
  what the loop that deregisters the managed agents one after the other does, so exactly the agents
  whose provider the manager owns are gone.
\<close>

theorem terminate_any_schedule:
  assumes "redis_in_service R kv live" and "pm_reg pm = RedisMemory R" and "live m" and "decodable (kv m)"
  shows "redis_view (kv (fst (snd (pm_TerminateNodes schedule pm (m, w))))) =
      redis_view (kv (deregister_all (RedisMemory R)
        (filter (managed_by (entries pm)) (reg_GetAllAgents (RedisMemory R) m)) m)) \<and>
    v_agents (redis_view (kv (fst (snd (pm_TerminateNodes schedule pm (m, w)))))) =
      v_agents (redis_view (kv m)) |` (- ID ` {a \<in> ran (v_agents (redis_view (kv m))). managed_by (entries pm) a})"
proof -
  note serv = redis_in_service.redis_memory_in_service [OF assms(1)]
  have up: "live m \<and> decodable (kv m)" using assms by simp
  have "set (reg_GetAllAgents (RedisMemory R) m) = ran (v_agents (redis_view (kv m)))"
    by (rule enumerates_set [OF memory_in_service.reg_get_all_up [OF serv up]])
  then have "ID ` set (filter (managed_by (entries pm)) (reg_GetAllAgents (RedisMemory R) m)) =
      ID ` {a \<in> ran (v_agents (redis_view (kv m))). managed_by (entries pm) a}" by simp
  then show ?thesis
    using memory_in_service.terminate_up [OF serv up assms(2), of schedule w]
      memory_in_service.deregister_all_up [OF serv up] by simp
qed

definition lab_manager :: "((string \<times> bytes) list, (string, string list) client_state) ProvidersManager" where
  "lab_manager =
     \<lparr>pm_reg = RedisMemory alist_redis,
      entries = [\<lparr>entry_provider = lab_cloud, minNodes = 2, nodeTypes = sample_types\<rparr>], scalers = []\<rparr>"

theorem terminate_any_schedule_witness:
  "v_agents (redis_view (map_of (fst (snd (pm_TerminateNodes [0] lab_manager
     (lab_store [lab_agent ''a1'' AgentOnline], \<lparr>clients = Map.empty, net = [''a1'']\<rparr>)))))) = Map.empty"
proof -
  have reg: "pm_reg lab_manager = RedisMemory alist_redis" by (simp add: lab_manager_def)
  have m: "managed_by (entries lab_manager) (lab_agent ''a1'' AgentOnline)"
    by (simp add: managed_by_def lab_manager_def lab_cloud_def)
  have "ID ` {a \<in> ran [''a1'' \<mapsto> lab_agent ''a1'' AgentOnline]. managed_by (entries lab_manager) a} = {''a1''}"
    using m by auto
  with conjunct2 [OF terminate_any_schedule [OF alist.redis_in_service_axioms reg, of
      "lab_store [lab_agent ''a1'' AgentOnline]" "[0]" "\<lparr>clients = Map.empty, net = [''a1'']\<rparr>"]]
  show ?thesis
    using reg by (simp add: lab_stored restrict_map_def fun_eq_iff)
qed

text \<open>
  C15. Bringing the fleet up, whatever the interleaving of the loop over the providers with the
  goroutines it starts: the attempts are at most the sum, and at least the largest, of what the
  registered agents fall short of the minimum of each provider with node types, so exactly the
  shortfall when there is one such provider.  It never reports more successes than attempts, loses
  no agent, and the fleet grows by at most the successes: no further than the shortfalls allow.
\<close>

theorem initialize_within_minimum:
  assumes "redis_in_service R kv live" and "pm_reg pm = RedisMemory R" and "live m" and "decodable (kv m)"
    and "\<forall>e \<in> set (entries pm). 0 \<le> minNodes e" and "sum_list (map minNodes (entries pm)) < 2 ^ 31"
    and "card (dom (v_agents (redis_view (kv m)))) < 2 ^ 31"
    and "pm_InitializeNodes port clock schedule pm (m, w) = ((succ, att), (m', w'))"
  shows "att \<le> (\<Sum>e \<leftarrow> entries pm.
      if nodeTypes e = [] then 0 else max 0 (minNodes e - int (card (dom (v_agents (redis_view (kv m))))))) \<and>
    (\<forall>e \<in> set (entries pm). nodeTypes e \<noteq> [] \<longrightarrow>
      minNodes e - int (card (dom (v_agents (redis_view (kv m))))) \<le> att) \<and>
    0 \<le> succ \<and> succ \<le> att \<and>
    dom (v_agents (redis_view (kv m))) \<subseteq> dom (v_agents (redis_view (kv m'))) \<and>
    int (card (dom (v_agents (redis_view (kv m'))))) \<le> int (card (dom (v_agents (redis_view (kv m))))) + succ"
proof -
  let ?D = "dom (v_agents (redis_view (kv m)))"
  note serv = redis_in_service.redis_memory_in_service [OF assms(1)]
  have up: "live m \<and> decodable (kv m)" using assms by simp
  have fin: "finite ?D"
    using memory_in_service.reg_get_all_up [OF serv up] by (metis List.finite_set enumerates_def)
  have small: "int (card ?D) < 2 ^ 31" using assms(7) by (metis of_nat_less_iff of_nat_numeral of_nat_power)
  obtain n T where T: "succ = count32 n" "att = count32 T" "n \<le> T" "?D \<subseteq> dom (v_agents (redis_view (kv m')))"
    "int T \<le> sum_list (map (shortfall ?D) (entries pm))" "\<forall>e \<in> set (entries pm). shortfall ?D e \<le> int T"
    and "\<exists>Q. finite Q \<and> card Q \<le> n \<and> dom (v_agents (redis_view (kv m'))) \<subseteq> ?D \<union> Q"
    using memory_in_service.initialize_up [OF serv up assms(2) refl fin assms(5,6) small assms(8)] by blast
  then obtain Q where Q: "finite Q" "card Q \<le> n" "dom (v_agents (redis_view (kv m'))) \<subseteq> ?D \<union> Q" by blast
  have "int T < 2 ^ 31" using T(5) shortfall_sum [OF assms(5), of ?D] assms(6) by linarith
  then have "T < 2 ^ 31" by (metis of_nat_less_iff of_nat_numeral of_nat_power)
  then have counts: "succ = int n" "att = int T" using T(1-3) by (simp_all add: count32_id)
  have "card (dom (v_agents (redis_view (kv m')))) \<le> card (?D \<union> Q)" using Q fin by (intro card_mono) simp_all
  also have "\<dots> \<le> card ?D + n" using card_Un_le [of ?D Q] Q(2) by linarith
  finally have grown: "int (card (dom (v_agents (redis_view (kv m'))))) \<le> int (card ?D) + succ" using counts by simp
  have "\<forall>e \<in> set (entries pm). nodeTypes e \<noteq> [] \<longrightarrow> minNodes e - int (card ?D) \<le> att"
    using T(6) counts by (auto simp: shortfall_def)
  then show ?thesis using T(3-5) counts grown by (simp add: shortfall_def [abs_def])
qed

theorem initialize_within_minimum_witness:
  "snd (fst (pm_InitializeNodes 50052 (\<lambda>_. 0) [0, 1] lab_manager
     (lab_store [lab_agent ''a1'' AgentOnline], \<lparr>clients = Map.empty, net = [''a1'']\<rparr>))) = 1"
proof -
  let ?m = "lab_store [lab_agent ''a1'' AgentOnline]"
  obtain succ att m' w' where r: "pm_InitializeNodes 50052 (\<lambda>_. 0) [0, 1] lab_manager
      (?m, \<lparr>clients = Map.empty, net = [''a1'']\<rparr>) = ((succ, att), (m', w'))" by (metis prod.exhaust)
  have lab: "pm_reg lab_manager = RedisMemory alist_redis"
    "entries lab_manager = [\<lparr>entry_provider = lab_cloud, minNodes = 2, nodeTypes = sample_types\<rparr>]"
    by (simp_all add: lab_manager_def)
  have "att = 1"
    using initialize_within_minimum [OF alist.redis_in_service_axioms lab(1) _ _ _ _ _ r]
    by (simp add: lab lab_stored sample_types_def)
  then show ?thesis using r by simp
qed

end
