(* ===== verification/Flux_Main.thy ===== *)
theory Flux_Main imports Manager_Claims begin

text \<open>
  \<open>main.go\<close>: the start-up of the program, the CORS wrapper and the health poller, and the program as
  a whole: the states its requests and goroutines take it through.
\<close>

section \<open>Start-up\<close>

definition go_bind :: "'a go_result \<times> 'w \<Rightarrow> ('a \<Rightarrow> 'w \<Rightarrow> 'b go_result \<times> 'w) \<Rightarrow> 'b go_result \<times> 'w" where
  "go_bind r f =
     (case r of (Ret a, w) \<Rightarrow> f a w | (Err e, w) \<Rightarrow> (Err e, w) | (Panic m, w) \<Rightarrow> (Panic m, w))"

text \<open>An error of \<open>main\<close> is a \<open>log.Fatalf\<close>: the process exits with it.\<close>

definition fatal :: "string \<Rightarrow> 'a go_result \<times> 'w \<Rightarrow> 'a go_result \<times> 'w" where
  "fatal msg r = (case r of (Err e, w) \<Rightarrow> (Err (msg @ e), w) | r \<Rightarrow> r)"

text \<open>
  What the program is linked with.  The agent client's connections are part of the world, and there are
  none until it dials.
\<close>

record ('o, 'r, 't, 'c, 'a, 'g, 'signer, 'conn, 'sess, 'crt, 'key, 'n) program_libs =
  config_ReadFile :: "string \<Rightarrow> go_error + string"
  config_Unmarshal :: "string \<Rightarrow> go_error + FluxConfig"
  redis_ParseURL :: "string \<Rightarrow> go_error + 'o"
  redis_NewClient :: "'o \<Rightarrow> 'r redis_client"
  dialler :: "('t, 'c, 'n) grpc"
  providers :: "('a, 'g, 'signer, 'conn, 'sess, 'crt, 'key, ('c, 'n) client_state) provider_libs"
  function_Unmarshal :: "bytes \<Rightarrow> go_error + FunctionYAML"
  machine :: host_stats

text \<open>
  The program once it listens: its configuration, the API server, and the autoscalers \<open>Start\<close> has
  sent off.
\<close>

record ('m, 'w) program =
  fluxConfig :: FluxConfig
  provMgr :: "('m, 'w) ProvidersManager"
  server :: "('m, 'w) api_env"
  started :: "(('m, 'w) scaler_env \<times> autoscaler) list"

definition configPath :: "platform \<Rightarrow> string" where
  "configPath pf = (let p = Getenv pf ''FLUX_CONFIG'' in if p = [] then ''flux.yaml'' else p)"

definition load_config :: "('o, 'r, 't, 'c, 'a, 'g, 'signer, 'conn, 'sess, 'crt, 'key, 'n) program_libs \<Rightarrow>
    FluxConfig go_result" where
  "load_config L =
     (let pf = pl_platform (providers L)
      in case Load (config_ReadFile L) (config_Unmarshal L) pf (configPath pf) None of
           (Ret _, loaded) \<Rightarrow> config_Get loaded
         | (Err e, _) \<Rightarrow> Err (''Failed to load config: '' @ e)
         | (Panic m, _) \<Rightarrow> Panic m)"

definition start_pki :: "('o, 'r, 't, 'c, 'a, 'g, 'signer, 'conn, 'sess, 'crt, 'key, 'n) program_libs \<Rightarrow>
    FluxConfig \<Rightarrow> ('c, 'n) client_state \<Rightarrow> ('crt, 'key) pki option go_result \<times> ('c, 'n) client_state" where
  "start_pki L c w =
     (if \<not> DisableGRPCTLS c then
        (case New (pl_crypto (providers L)) (pl_platform (providers L)) (CertsDir c) w of
           (Inl e, w) \<Rightarrow> (Err (''Failed to initialize PKI: '' @ e), w)
         | (Inr p, w) \<Rightarrow> (Ret (Some p), w))
      else (Ret None, w))"

text \<open>
  The API server gets the manager as its initializer whatever the configuration says; \<open>clock\<close> and
  \<open>schedule\<close> are those of the manager's goroutines.
\<close>

definition start_main ::
  "('o, 'r, 't, 'c, 'a, 'g, 'signer, 'conn, 'sess, 'crt, 'key, 'n) program_libs \<Rightarrow> (nat \<Rightarrow> time) \<Rightarrow> nat list \<Rightarrow> 'n \<Rightarrow>
   ('r, ('c, 'n) client_state) program go_result \<times> ('c, 'n) client_state" where
  "start_main L clock schedule n =
     go_bind (load_config L, NewAgentClient n) (\<lambda>c w.
     go_bind (start_pki L c w) (\<lambda>pkiMgr w.
     go_bind (NewRedisMemory (redis_ParseURL L) (redis_NewClient L) (RedisAddr c), w) (\<lambda>reg w.
       let client = AgentClient (dialler L) (pl_platform (providers L)) pkiMgr
       in go_bind (fatal ''Failed to initialize providers: ''
                     (NewProvidersManager (providers L) c pkiMgr reg client w)) (\<lambda>pm w.
            case pm_Start pm of
              (running, pm) \<Rightarrow>
                (Ret \<lparr>fluxConfig = c, provMgr = pm,
                   server =
                     \<lparr>api_registry = reg, api_client = client,
                      api_init = Some (manager_initializer (AgentPort c) clock schedule pm),
                      api_key = APIKey c, yaml_Unmarshal = function_Unmarshal L, host = machine L\<rparr>,
                   started = running\<rparr>, w)))))"

section \<open>The CORS wrapper\<close>

definition cors_headers :: "(string \<times> string) list" where
  "cors_headers =
     [(''Access-Control-Allow-Origin'', ''*''),
      (''Access-Control-Allow-Methods'', ''GET, POST, PUT, DELETE, OPTIONS''),
      (''Access-Control-Allow-Headers'', ''Content-Type, X-API-Key, Authorization''),
      (''Access-Control-Max-Age'', ''86400'')]"

text \<open>A wrapped handler's answer comes with the four headers; a preflight is not passed on.\<close>

definition withCORS ::
  "(request \<Rightarrow> 's \<Rightarrow> (response \<times> 's) option) \<Rightarrow> request \<Rightarrow> 's \<Rightarrow>
   ((string \<times> string) list \<times> response \<times> 's) option" where
  "withCORS h r s =
     (if Method r = ''OPTIONS'' then Some (cors_headers, Reply 204 None, s)
      else map_option (Pair cors_headers) (h r s))"

section \<open>The health poller\<close>

text \<open>One check: the agent is the record the tick read; the synchronisation is left to its goroutine.\<close>

definition checkAgentHealth ::
  "('m, 'w) api_env \<Rightarrow> agent \<Rightarrow> ('m, 'w) api_state \<Rightarrow> ('m, 'w) api_state" where
  "checkAgentHealth E a s =
     (case HealthCheckOn (api_client E) a (api_world s) of
        (Some e, w) \<Rightarrow> s\<lparr>api_world := w\<rparr>
      | (None, w) \<Rightarrow>
          if Status a = AgentOffline then
            (case GetNodeStatusOf (api_client E) a w of
               (Inl e, w) \<Rightarrow> s\<lparr>api_world := w\<rparr>
             | (Inr status, w) \<Rightarrow>
                 s\<lparr>api_world := w,
                   api_store := UpdateNodeStatus (api_registry E) (ID a) status (api_store s),
                   syncs := syncs s @ [(ID a, Address a)]\<rparr>)
          else s\<lparr>api_world := w\<rparr>)"

text \<open>One tick of \<open>startHealthPolling\<close>: the agents it starts a check for.\<close>

definition health_tick :: "('m, 'w) api_env \<Rightarrow> 'm \<Rightarrow> agent list" where
  "health_tick E m = reg_GetAllAgents (api_registry E) m"

section \<open>The program\<close>

text \<open>
  The state of a running program: the store and the world, the autoscalers with their background
  jobs, the health checks and synchronisations under way, and the execution requests whose
  handlers wait for an agent.
\<close>

record held =
  h_fn :: func
  h_name :: string
  h_args :: "string list"
  h_id :: string

record ('m, 'w) cluster =
  shared :: "('m, 'w) api_state"
  autoscalers :: "(autoscaler \<times> scale_job list) list"
  checks :: "agent list"
  waiting :: "held list"

definition start_cluster :: "('m, 'w) program \<Rightarrow> 'm \<Rightarrow> 'w \<Rightarrow> ('m, 'w) cluster" where
  "start_cluster P m w =
     \<lparr>shared = \<lparr>api_store = m, api_world = w, syncs = []\<rparr>,
      autoscalers = map (\<lambda>(env, a). (a, [])) (started P), checks = [], waiting = []\<rparr>"

text \<open>An autoscaler's view of the state, and its way back.\<close>

definition scale_view :: "nat \<Rightarrow> scale_job list \<Rightarrow> ('m, 'w) cluster \<Rightarrow> ('m, 'w) scale_state" where
  "scale_view k js c =
     \<lparr>scaler = fst (autoscalers c ! k), store = api_store (shared c), world = api_world (shared c), jobs = js\<rparr>"

definition put_scale :: "nat \<Rightarrow> ('m, 'w) scale_state \<Rightarrow> ('m, 'w) cluster \<Rightarrow> ('m, 'w) cluster" where
  "put_scale k s c =
     c\<lparr>shared := (shared c)\<lparr>api_store := store s, api_world := world s\<rparr>,
       autoscalers := (autoscalers c)[k := (scaler s, jobs s)]\<rparr>"

definition attempt ::
  "('m, 'w) api_env \<Rightarrow> held \<Rightarrow> ('m, 'w) api_state \<Rightarrow> (response \<times> ('m, 'w) api_state) option" where
  "attempt E h s = execute_loop E (h_fn h) (h_name h) (h_args h) (h_id h) [ClientGone] s"

text \<open>
  The steps.  A request is served in one step, except an execution that finds no agent free: it is
  held, and tries again in later steps until it is answered or its client goes away.  An autoscaler
  whose ticker panics takes the program down and has no steps; one that runs has polls and jobs.
\<close>

inductive cluster_step :: "('m, 'w) program \<Rightarrow> ('m, 'w) cluster \<Rightarrow> ('m, 'w) cluster \<Rightarrow> bool" for P where
  serve: "withCORS (ServeHTTP (server P) now fresh [ClientGone]) r (shared c) = Some (hs, resp, s) \<Longrightarrow>
    cluster_step P c (c\<lparr>shared := s\<rparr>)"
| hold: "ServeHTTP (server P) now fresh [ClientGone] r (shared c) = Some (Gone, s) \<Longrightarrow>
    URLPath r = ''/execute/'' @ n \<Longrightarrow> decode_body decode_execute_request (Body r) = Inr args \<Longrightarrow>
    reg_GetFunction (api_registry (server P)) n (api_store (shared c)) = Some fn \<Longrightarrow>
    h = \<lparr>h_fn = fn, h_name = n, h_args = args, h_id = ''exc-'' @ fresh\<rparr> \<Longrightarrow>
    cluster_step P c (c\<lparr>shared := s, waiting := waiting c @ [h]\<rparr>)"
| retry: "h \<in> set (waiting c) \<Longrightarrow> attempt (server P) h (shared c) = Some (Gone, s) \<Longrightarrow>
    cluster_step P c (c\<lparr>shared := s\<rparr>)"
| answer: "h \<in> set (waiting c) \<Longrightarrow> attempt (server P) h (shared c) = Some (resp, s) \<Longrightarrow>
    cluster_step P c (c\<lparr>shared := s, waiting := remove1 h (waiting c)\<rparr>)"
| leave: "h \<in> set (waiting c) \<Longrightarrow> cluster_step P c (c\<lparr>waiting := remove1 h (waiting c)\<rparr>)"
| sync: "(i, addr) \<in> set (syncs (shared c)) \<Longrightarrow>
    cluster_step P c (c\<lparr>shared := (shared c)\<lparr>syncs := remove1 (i, addr) (syncs (shared c)),
      api_world := SyncFunctionsToAgent (server P) i addr (api_store (shared c)) (api_world (shared c))\<rparr>\<rparr>)"
| tick: "cluster_step P c (c\<lparr>checks := checks c @ health_tick (server P) (api_store (shared c))\<rparr>)"
| check: "a \<in> set (checks c) \<Longrightarrow>
    cluster_step P c (c\<lparr>shared := checkAgentHealth (server P) a (shared c), checks := remove1 a (checks c)\<rparr>)"
| scale: "k < length (autoscalers c) \<Longrightarrow> poll_ticker (cfg (fst (started P ! k))) = Ret d \<Longrightarrow>
    s = poll (fst (started P ! k)) now eval since stamp (scale_view k (snd (autoscalers c ! k)) c) \<Longrightarrow>
    cluster_step P c (put_scale k s c)"
| work: "k < length (autoscalers c) \<Longrightarrow> j \<in> set (snd (autoscalers c ! k)) \<Longrightarrow>
    run_job (fst (started P ! k)) es now j
      (scale_view k (remove1 j (snd (autoscalers c ! k))) c) = Some s \<Longrightarrow>
    cluster_step P c (put_scale k s c)"

definition reachable :: "('m, 'w) program \<Rightarrow> 'm \<Rightarrow> 'w \<Rightarrow> ('m, 'w) cluster \<Rightarrow> bool" where
  "reachable P m w c \<longleftrightarrow> (cluster_step P)\<^sup>*\<^sup>* (start_cluster P m w) c"

end
