(* ===== verification/Registry_Races.thy ===== *)
theory Registry_Races imports Api_Registration begin

text \<open>
  The registry has no lock: four of its operations read a record and write its successor back, and
  between the two anything may happen.  What every stored record keeps under any interleaving, and
  what it does not.
\<close>

section \<open>What is stored\<close>

definition well_stored :: "store_view \<Rightarrow> bool" where
  "well_stored v \<longleftrightarrow>
     keyed v \<and> (\<forall>n f. v_funcs v n = Some f \<longrightarrow> func_ok f) \<and>
     (\<forall>i a. v_agents v i = Some a \<longrightarrow> Status a \<noteq> AgentBusy)"

lemma well_stored_empty: "well_stored empty_view"
  by (simp add: well_stored_def keyed_def empty_view_def)

context memory_in_service begin

lemma step_well_stored:
  assumes "up m" and "well_stored (view m)" and "op_ok op"
  shows "up (registry_step M op m) \<and> well_stored (view (registry_step M op m))"
proof -
  have "api_ok view up m" using assms(1,2) by (simp add: api_ok_def well_stored_def)
  from step_api_ok [OF this assms(3)]
  have ok: "up (registry_step M op m)" "keyed (view (registry_step M op m))"
    "\<forall>n f. v_funcs (view (registry_step M op m)) n = Some f \<longrightarrow> func_ok f"
    by (simp_all add: api_ok_def)
  have "Status a \<noteq> AgentBusy" if "v_agents (view_step op (view m)) i = Some a" for i a
    using that assms(2)
    by (cases op) (auto simp: well_stored_def put_agent_def modify_view_def empty_view_def new_agent_def
        store_simps bind_eq_Some_conv
        split: option.splits if_splits AgentStatus.splits)
  then show ?thesis using ok registry_step_refines [OF assms(1), of op] by (simp add: well_stored_def)
qed

lemma run_well_stored:
  assumes "registry_run M m m'" and "up m" and "well_stored (view m)"
  shows "up m' \<and> well_stored (view m')"
proof -
  have "list_all op_ok ops \<Longrightarrow> up m \<Longrightarrow> well_stored (view m) \<Longrightarrow>
      up (run_ops M ops m) \<and> well_stored (view (run_ops M ops m))" for ops m
    by (induction ops arbitrary: m) (auto simp: run_ops_def dest: step_well_stored)
  with assms show ?thesis by (auto simp: registry_run_def)
qed

end

lemma well_stored_keyed: "well_stored v \<Longrightarrow> keyed v"
  by (simp add: well_stored_def)

section \<open>Interleaved operations\<close>

text \<open>The operations with two halves: whose record they read, and what they make of it.\<close>

fun rmw_of :: "registry_op \<Rightarrow> (string \<times> (agent \<Rightarrow> agent option)) option" where
  "rmw_of (OpOffline i) = Some (i, offline_of)"
| "rmw_of (OpDraining i) = Some (i, draining_of)"
| "rmw_of (OpHeartbeat now i n) = Some (i, heartbeat_of now n)"
| "rmw_of (OpNodeStatus i ns) = Some (i, status_of ns)"
| "rmw_of _ = None"

fun registers :: "registry_op \<Rightarrow> agent option" where
  "registers (OpRegister now i addr pid it p) = Some (new_agent AgentOnline now i addr pid it p)"
| "registers (OpRegisterOffline now i addr pid it p) = Some (new_agent AgentOffline now i addr pid it p)"
| "registers _ = None"

text \<open>
  The list holds the records read and not yet written back, one for each operation under way;
  \<open>Q\<close> says which of the other operations take part.
\<close>

inductive race_step ::
  "(registry_op \<Rightarrow> bool) \<Rightarrow> 'm memory \<Rightarrow> 'm \<times> agent list \<Rightarrow> 'm \<times> agent list \<Rightarrow> bool" for Q M where
  fetch: "rmw_of op = Some (i, f) \<Longrightarrow> GetAgent M i m = Inr (Some a) \<Longrightarrow> f a = Some b \<Longrightarrow>
    race_step Q M (m, ps) (m, ps @ [b])"
| put: "b \<in> set ps \<Longrightarrow> race_step Q M (m, ps) (snd (SaveAgent M b m), remove1 b ps)"
| whole: "rmw_of op = None \<Longrightarrow> Q op \<Longrightarrow> race_step Q M (m, ps) (registry_step M op m, ps)"

lemma rmw_step: "rmw_of op = Some (i, f) \<Longrightarrow> registry_step M op m = modify_agent M i f m"
  by (cases op) (auto simp: modify_agent_forms)

lemma rmw_evolves: "rmw_of op = Some (i, f) \<Longrightarrow> f a = Some b \<Longrightarrow> evolves a b"
  using successor_evolves by (cases op) auto

text \<open>Undisturbed, the two halves are the operation.\<close>

lemma race_atomic:
  assumes "rmw_of op = None \<Longrightarrow> Q op"
  shows "(race_step Q M)\<^sup>*\<^sup>* (m, []) (registry_step M op m, [])"
proof (cases "rmw_of op")
  case None
  then show ?thesis using race_step.whole [of op Q M m "[]"] assms by blast
next
  case (Some r)
  obtain i f where r: "rmw_of op = Some (i, f)" using Some by (cases r) simp
  show ?thesis
  proof (cases "\<exists>a b. GetAgent M i m = Inr (Some a) \<and> f a = Some b")
    case True
    then obtain a b where b: "GetAgent M i m = Inr (Some a)" "f a = Some b" by blast
    have "race_step Q M (m, []) (m, [b])" using race_step.fetch [OF r b, of Q "[]"] by simp
    moreover have "race_step Q M (m, [b]) (registry_step M op m, [])"
      using race_step.put [of b "[b]" Q M m] b by (simp add: rmw_step [OF r] modify_agent_def)
    ultimately show ?thesis by (meson converse_rtranclp_into_rtranclp rtranclp.rtrancl_refl)
  next
    case False
    then have "registry_step M op m = m"
      by (auto simp: rmw_step [OF r] modify_agent_def split: sum.splits option.splits)
    then show ?thesis by simp
  qed
qed

section \<open>What survives every interleaving\<close>

definition placed :: "agent set \<Rightarrow> agent \<Rightarrow> bool" where
  "placed A b \<longleftrightarrow> (\<exists>a \<in> A. same_placement a b)"

definition race_ok :: "agent set \<Rightarrow> store_view \<Rightarrow> agent list \<Rightarrow> bool" where
  "race_ok A v ps \<longleftrightarrow>
     well_stored v \<and> (\<forall>i b. v_agents v i = Some b \<longrightarrow> placed A b) \<and>
     (\<forall>b \<in> set ps. Status b \<noteq> AgentBusy \<and> placed A b)"

lemma evolves_placed: "evolves a b \<Longrightarrow> placed A a \<Longrightarrow> placed A b"
  by (auto simp: placed_def evolves_def same_placement_def)

lemma evolves_not_busy: "evolves a b \<Longrightarrow> Status a \<noteq> AgentBusy \<Longrightarrow> Status b \<noteq> AgentBusy"
  by (auto simp: evolves_def status_move_simps)

lemma same_placement_refl: "same_placement a a"
  by (simp add: same_placement_def)

context memory_contract begin

lemma whole_agents:
  assumes "rmw_of op = None" and "v_agents (view (registry_step M op m)) i = Some b"
  shows "v_agents (view m) i = Some b \<or> registers op = Some b"
proof -
  have save: "v_agents (view (snd (SaveAgent M c m))) i = Some b \<Longrightarrow> v_agents (view m) i = Some b \<or> c = b" for c
    using save_agent_view [of c m] by (auto split: if_splits)
  have del: "v_agents (view (DeregisterAgent M j m)) i = Some b \<Longrightarrow> v_agents (view m) i = Some b" for j
    using delete_agent_view [of j m] by (auto split: if_splits)
  have fl: "v_agents (view (reg_Flush M m)) i = Some b \<Longrightarrow> v_agents (view m) i = Some b"
    using flush_view(1) [of m] by (auto simp: map_le_def dom_def)
  show ?thesis
    using assms save del fl
    by (cases op) (auto simp: RegisterAgent_def RegisterOfflineAgent_def new_agent_def other_writes_view)
qed

lemma whole_funcs:
  assumes "rmw_of op = None" and "v_funcs (view (registry_step M op m)) n = Some f"
  shows "v_funcs (view m) n = Some f \<or> op = OpFunction f"
proof -
  have fl: "v_funcs (view (reg_Flush M m)) n = Some f \<Longrightarrow> v_funcs (view m) n = Some f"
    using flush_view(2) [of m] by (auto simp: map_le_def dom_def)
  have fn: "v_funcs (view (RegisterFunction M g m)) n = Some f \<Longrightarrow> v_funcs (view m) n = Some f \<or> g = f" for g
    using register_function_view [of g m] by (auto split: if_splits)
  show ?thesis
    using assms fl fn
    by (cases op) (auto simp: RegisterAgent_def RegisterOfflineAgent_def other_writes_funcs save_agent_funcs)
qed

lemma race_step_ok:
  assumes "race_step Q M (m, ps) (m', ps')" and "race_ok A (view m) ps"
    and "\<And>op. Q op \<Longrightarrow> op_ok op \<and> (\<forall>a. registers op = Some a \<longrightarrow> a \<in> A)"
  shows "race_ok A (view m') ps'"
  using assms(1)
proof cases
  case (fetch op i f a b)
  then have a: "v_agents (view m) i = Some a" and e: "evolves a b"
    using get_agent [of i m "Some a"] rmw_evolves by auto
  have "Status b \<noteq> AgentBusy \<and> placed A b"
    using assms(2) a evolves_placed [OF e] evolves_not_busy [OF e] by (auto simp: race_ok_def well_stored_def)
  then show ?thesis using fetch assms(2) by (auto simp: race_ok_def)
next
  case (put b)
  have b: "Status b \<noteq> AgentBusy" "placed A b" using put assms(2) by (auto simp: race_ok_def)
  then have "well_stored (view m\<lparr>v_agents := (v_agents (view m))(ID b \<mapsto> b)\<rparr>)"
    using assms(2) by (auto simp: race_ok_def well_stored_def keyed_def)
  then have "race_ok A (view m\<lparr>v_agents := (v_agents (view m))(ID b \<mapsto> b)\<rparr>) (remove1 b ps)"
    "race_ok A (view m) (remove1 b ps)"
    using assms(2) b set_remove1_subset [of b ps] by (auto simp: race_ok_def)
  then show ?thesis using put save_agent_view [of b m] by auto
next
  case (whole op)
  have q: "op_ok op" "registers op = Some b \<Longrightarrow> placed A b" for b
    using assms(3) [OF whole(4)] same_placement_refl by (auto simp: placed_def)
  have busy: "registers op = Some b \<Longrightarrow> Status b \<noteq> AgentBusy" for b
    by (cases op) (auto simp: new_agent_def)
  have "keyed (view m')" using registry_step_keyed assms(2) whole by (simp add: race_ok_def well_stored_def)
  moreover have "func_ok f" if "v_funcs (view m') n = Some f" for n f
    using whole_funcs [OF whole(3)] that whole assms(2) q(1) by (fastforce simp: race_ok_def well_stored_def)
  moreover have "Status b \<noteq> AgentBusy \<and> placed A b" if "v_agents (view m') i = Some b" for i b
    using whole_agents [OF whole(3)] that whole assms(2) q(2) busy by (fastforce simp: race_ok_def well_stored_def)
  ultimately show ?thesis using assms(2) whole by (simp add: race_ok_def well_stored_def)
qed

lemma race_run_ok:
  assumes "(race_step Q M)\<^sup>*\<^sup>* (m, ps) (m', ps')" and "race_ok A (view m) ps"
    and "\<And>op. Q op \<Longrightarrow> op_ok op \<and> (\<forall>a. registers op = Some a \<longrightarrow> a \<in> A)"
  shows "race_ok A (view m') ps'"
  using assms(1,2)
proof (induction rule: rtranclp_induct2)
  case (step m1 p1 m2 p2)
  then show ?case using race_step_ok assms(3) by blast
qed

end

section \<open>Properties\<close>

text \<open>
  C12. However the two halves of the registry's operations interleave, and whichever writes fail:
  functions stay valid, records stay under their keys and no agent is busy, and every stored record
  has the identifier, address, instance, type and provider of one that was stored at the start or
  has been registered since.
\<close>

theorem races_keep_placement:
  assumes "memory_contract M view" and "well_stored (view m)" and "(race_step Q M)\<^sup>*\<^sup>* (m, []) (m', ps)"
    and "\<And>op. Q op \<Longrightarrow> op_ok op \<and> (\<forall>a. registers op = Some a \<longrightarrow> a \<in> A)"
    and "v_agents (view m') i = Some b"
  shows "well_stored (view m') \<and> ID b = i \<and> (\<exists>a \<in> ran (v_agents (view m)) \<union> A. same_placement a b)"
proof -
  have "race_ok (ran (v_agents (view m)) \<union> A) (view m) []"
    using assms(2) same_placement_refl by (auto simp: race_ok_def placed_def ran_def)
  then have ok: "race_ok (ran (v_agents (view m)) \<union> A) (view m') ps"
    by (rule memory_contract.race_run_ok [OF assms(1,3)]) (use assms(4) in blast)
  then have "well_stored (view m')" "placed (ran (v_agents (view m)) \<union> A) b"
    using assms(5) by (auto simp: race_ok_def)
  then show ?thesis
    using assms(5) well_stored_keyed [of "view m'"] unfolding placed_def keyed_def by blast
qed

text \<open>
  What does not survive: a report that was read before a node was set to draining, or before its
  record was removed, and written after, puts the node back.
\<close>

lemma stale_write:
  assumes "memory_in_service M view up" and "up m" and "v_agents (view m) i = Some a" and "ID a = i"
    and "status_of st a = Some b" and "agent_json_ok b"
    and "(race_step Q M)\<^sup>*\<^sup>* (m, [b]) (m1, [b])" and "up m1"
  shows "(race_step Q M)\<^sup>*\<^sup>* (m, []) (snd (SaveAgent M b m1), []) \<and>
    v_agents (view (snd (SaveAgent M b m1))) i = Some b"
proof -
  have "race_step Q M (m, []) (m, [b])"
    using race_step.fetch [of "OpNodeStatus i st" i "status_of st" M m a b Q "[]"] assms(3,5)
      memory_in_service.get_agent_up [OF assms(1,2)] by simp
  moreover have "race_step Q M (m1, [b]) (snd (SaveAgent M b m1), [])"
    using race_step.put [of b "[b]" Q M m1] by simp
  ultimately have "(race_step Q M)\<^sup>*\<^sup>* (m, []) (snd (SaveAgent M b m1), [])"
    using assms(7) by (meson converse_rtranclp_into_rtranclp rtranclp.rtrancl_into_rtrancl)
  moreover have "ID b = i" using assms(4,5) by (auto simp: status_of_def)
  ultimately show ?thesis
    using memory_in_service.save_agent_put [OF assms(1,8), of b] assms(6) by (simp add: put_agent_def)
qed

lemma draining_lost:
  assumes "memory_in_service M view up" and "up m" and "v_agents (view m) i = Some a" and "ID a = i"
    and "Status a \<noteq> AgentDraining" and "status_of st a = Some b" and "agent_json_ok b"
  shows "(race_step Q M)\<^sup>*\<^sup>* (m, []) (snd (SaveAgent M b (SetDraining M i m)), []) \<and>
    v_agents (view (snd (SaveAgent M b (SetDraining M i m)))) i = Some b \<and> Status b \<noteq> AgentDraining"
proof -
  define d where "d = a\<lparr>Status := AgentDraining\<rparr>"
  have get: "GetAgent M i m = Inr (Some a)" using memory_in_service.get_agent_up [OF assms(1,2)] assms(3) by simp
  have "race_step Q M (m, [b]) (m, [b, d])"
    using race_step.fetch [of "OpDraining i" i draining_of M m a d Q "[b]"] get by (simp add: draining_of_def d_def)
  moreover have "SetDraining M i m = snd (SaveAgent M d m)" using get by (simp add: SetDraining_def d_def)
  then have "race_step Q M (m, [b, d]) (SetDraining M i m, [b])"
    using race_step.put [of d "[b, d]" Q M m] by (cases "b = d") simp_all
  ultimately have "(race_step Q M)\<^sup>*\<^sup>* (m, [b]) (SetDraining M i m, [b])"
    by (meson converse_rtranclp_into_rtranclp rtranclp.rtrancl_refl)
  moreover have "up (SetDraining M i m)"
    using memory_in_service.modify_agent_up [OF assms(1,2)] by (simp add: modify_agent_forms)
  moreover have "Status b \<noteq> AgentDraining"
    using assms(5,6) by (auto simp: status_of_def promoted_def split: if_splits)
  ultimately show ?thesis using stale_write [OF assms(1-4,6,7)] by blast
qed

lemma removal_lost:
  assumes "memory_in_service M view up" and "up m" and "v_agents (view m) i = Some a" and "ID a = i"
    and "status_of st a = Some b" and "agent_json_ok b" and "Q (OpDeregister i)"
  shows "(race_step Q M)\<^sup>*\<^sup>* (m, []) (snd (SaveAgent M b (DeregisterAgent M i m)), []) \<and>
    v_agents (view (snd (SaveAgent M b (DeregisterAgent M i m)))) i = Some b"
proof -
  have "(race_step Q M)\<^sup>*\<^sup>* (m, [b]) (DeregisterAgent M i m, [b])"
    using race_step.whole [of "OpDeregister i" Q M m "[b]"] assms(7) by auto
  moreover have "up (DeregisterAgent M i m)"
    using memory_in_service.registry_step_refines [OF assms(1,2), of "OpDeregister i"] by simp
  ultimately show ?thesis using stale_write [OF assms(1-6)] by blast
qed

lemma lab_well: "st \<noteq> AgentBusy \<Longrightarrow> well_stored (redis_view (map_of (lab_store [lab_agent i st])))"
  by (simp add: lab_stored well_stored_def keyed_def)

theorem races_keep_placement_witness:
  "\<exists>m' b. (race_step (\<lambda>op. op = OpDeregister ''a1'') (RedisMemory alist_redis))\<^sup>*\<^sup>*
       (lab_store [lab_agent ''a1'' AgentOnline], []) (m', []) \<and>
     v_agents (redis_view (map_of m')) ''a1'' = Some b \<and> ID b = ''a1'' \<and> Provider b = ''aws''"
proof -
  let ?m = "lab_store [lab_agent ''a1'' AgentOnline]" and ?a = "lab_agent ''a1'' AgentOnline"
  let ?Q = "\<lambda>op. op = OpDeregister ''a1''"
  define b where "b = the (status_of sample_status ?a)"
  have b: "status_of sample_status ?a = Some b" "agent_json_ok b"
    by (simp_all add: b_def status_of_def agent_json_ok_def sample_status_def time_json_ok_def)
  note serv = redis_in_service.redis_memory_in_service [OF alist.redis_in_service_axioms]
  obtain m' where r: "(race_step ?Q (RedisMemory alist_redis))\<^sup>*\<^sup>* (?m, []) (m', [])"
    "v_agents (redis_view (map_of m')) ''a1'' = Some b"
    using removal_lost [OF serv _ _ _ b, of ?m "''a1''" ?Q] lab_stored by auto
  have well: "well_stored (redis_view (map_of ?m))" by (rule lab_well) simp
  have q: "op = OpDeregister ''a1'' \<Longrightarrow> op_ok op \<and> (\<forall>a. registers op = Some a \<longrightarrow> a \<in> {})" for op by simp
  obtain a where a: "ID b = ''a1''" "a \<in> ran (v_agents (redis_view (map_of ?m)))" "same_placement a b"
    using races_keep_placement [OF redis_server.redis_memory_contract [OF alist.redis_server_axioms] well r(1) q r(2)]
    by blast
  have "a = ?a" using a(2) by (simp add: lab_stored)
  then have "Provider b = ''aws''" using a(3) by (simp add: same_placement_def)
  with r a(1) show ?thesis by blast
qed

end
