(* ===== verification/Cluster_Claims.thy ===== *)
theory Cluster_Claims imports Flux_Main Registry_Races begin

text \<open>
  The program as a whole: what its start-up sets up, what every step does to the store, and what
  holds in every state it can reach.
\<close>

section \<open>What goroutines do to the store\<close>

text \<open>A scale step keeps the registry's contract: it runs registry operations and nothing else.\<close>

lemma single_runs:
  "registry_run M m (SetOffline M i m)" "registry_run M m (SetDraining M i m)"
  "registry_run M m (DeregisterAgent M i m)" "registry_run M m (UpdateNodeStatus M i st m)"
  "registry_run M m (RegisterOfflineAgent M now i addr pid it p m)"
  using run_step [OF run_refl, of "OpOffline i" M m] run_step [OF run_refl, of "OpDraining i" M m]
    run_step [OF run_refl, of "OpDeregister i" M m] run_step [OF run_refl, of "OpNodeStatus i st" M m]
    run_step [OF run_refl, of "OpRegisterOffline now i addr pid it p" M m] by simp_all

lemma poll_agents_runs: "registry_run (registry E) (store s) (store (fold (poll_agent E now) ags s))"
proof (induction ags arbitrary: s)
  case (Cons a ags)
  have "registry_run (registry E) (store s) (store (poll_agent E now a s))"
    by (auto simp: poll_agent_def Let_def single_runs split: sum.split prod.split)
  from run_trans [OF this Cons] show ?case by simp
qed simp

lemma spawnNode_runs: "registry_run (registry E) (store s) (store (spawnNode E now res s))"
  by (auto simp: spawnNode_def Let_def single_runs split: sum.split prod.split)

lemma poll_runs: "registry_run (registry E) (store s) (store (poll E now eval since stamp s))"
proof -
  have up: "registry_run (registry E) (store t) (store (tryScaleUp E since stamp t))" for t
    using spawnNode_runs [of E "t\<lparr>scaler := (scaler t)\<lparr>lastScaleUp := stamp\<rparr>\<rparr>"]
    by (auto simp: tryScaleUp_def Let_def single_runs split: option.split)
  have down: "registry_run (registry E) (store t) (store (scaleDown E since stamp t))" for t
    by (auto simp: scaleDown_def Let_def single_runs split: option.split)
  have "registry_run (registry E) (store t) (store (checkAndTriggerScale E eval since stamp t))" for t
    by (auto simp: checkAndTriggerScale_def up down split: ScaleDirection.split)
  from run_trans [OF poll_agents_runs this] show ?thesis by (simp add: poll_def)
qed

lemma drainAndTerminate_runs:
  "drainAndTerminate E es i addr pid s = Some s' \<Longrightarrow> registry_run (registry E) (store s) (store s')"
  by (auto simp: drainAndTerminate_def single_runs split: prod.splits option.splits drain_outcome.splits)

lemma run_job_runs: "run_job E es now j s = Some s' \<Longrightarrow> registry_run (registry E) (store s) (store s')"
proof (cases j)
  case (ReplaceJob i addr pid res)
  then show "run_job E es now j s = Some s' \<Longrightarrow> ?thesis"
    using drainAndTerminate_runs run_trans [OF _ spawnNode_runs] by fastforce
next
  case (BootstrapJob n)
  then show "run_job E es now j s = Some s' \<Longrightarrow> ?thesis"
    by (auto simp: finishBootstrap_def single_runs split: prod.splits option.splits)
qed (simp add: drainAndTerminate_runs)

lemma attempt_store: "attempt E h s = Some (resp, s') \<Longrightarrow> api_store s' = api_store s"
  using execute_loop_store unfolding attempt_def by fastforce

lemma check_runs:
  "registry_run (api_registry E) (api_store s) (api_store (checkAgentHealth E a s))"
  by (auto simp: checkAgentHealth_def single_runs split: option.split sum.split prod.split)

section \<open>Start-up\<close>

text \<open>How the parts of a program are put together.\<close>

definition well_wired :: "('m, 'w) program \<Rightarrow> bool" where
  "well_wired P \<longleftrightarrow>
     (\<forall>env a. (env, a) \<in> set (started P) \<longrightarrow>
        registry env = api_registry (server P) \<and> agentClient env = api_client (server P) \<and>
        agentPort env = AgentPort (fluxConfig P) \<and> Enabled (cfg env)) \<and>
     (\<exists>clock schedule. api_init (server P) = Some (manager_initializer (AgentPort (fluxConfig P)) clock schedule (provMgr P))) \<and>
     pm_reg (provMgr P) = api_registry (server P) \<and> scalers (provMgr P) = [] \<and>
     api_key (server P) = APIKey (fluxConfig P)"

text \<open>
  What the configuration asks for: its provider sections, AWS first; the provider each section
  stands for; the entry of the manager, and the autoscaler it runs, if any.
\<close>

definition sections :: "FluxConfig \<Rightarrow> (AWSProviderConfig + GCPProviderConfig) list" where
  "sections c =
     (case Providers c of
        None \<Rightarrow> []
      | Some ps \<Rightarrow>
          (case AWS ps of None \<Rightarrow> [] | Some p \<Rightarrow> [Inl p]) @ (case GCP ps of None \<Rightarrow> [] | Some g \<Rightarrow> [Inr g]))"

definition section_autoscaling :: "AWSProviderConfig + GCPProviderConfig \<Rightarrow> AutoscaleConfig option" where
  "section_autoscaling sec = (case sec of Inl p \<Rightarrow> aws_Autoscaling p | Inr g \<Rightarrow> gcp_Autoscaling g)"

definition provides ::
  "('a, 'g, 'signer, 'conn, 'sess, 'crt, 'key, 'w) provider_libs \<Rightarrow> FluxConfig \<Rightarrow> ('crt, 'key) pki option \<Rightarrow>
   AWSProviderConfig + GCPProviderConfig \<Rightarrow> 'w cloud_provider \<Rightarrow> bool" where
  "provides PL c pk sec prov \<longleftrightarrow>
     (case sec of
        Inl p \<Rightarrow> \<exists>a w w'. NewAWSProvider (pl_ec2 PL) c p pk w = (Ret a, w') \<and>
          prov = AWSCloud (pl_sort PL) (pl_ec2 PL) (pl_ssh PL) (pl_crypto PL) (pl_platform PL) p a
      | Inr g \<Rightarrow> \<exists>x. NewGCPProvider (pl_gce PL) c g pk = Inr x \<and>
          prov = GCPCloud (pl_sort PL) (pl_gce PL) (pl_ssh PL) (pl_crypto PL) (pl_platform PL) g x)"

definition entry_for ::
  "('a, 'g, 'signer, 'conn, 'sess, 'crt, 'key, 'w) provider_libs \<Rightarrow> FluxConfig \<Rightarrow> ('crt, 'key) pki option \<Rightarrow>
   AWSProviderConfig + GCPProviderConfig \<Rightarrow> 'w providerEntry \<Rightarrow> bool" where
  "entry_for PL c pk sec e \<longleftrightarrow>
     provides PL c pk sec (entry_provider e) \<and>
     minNodes e = (case section_autoscaling sec of None \<Rightarrow> 0 | Some a \<Rightarrow> MinNodes a) \<and>
     nodeTypes e = (case section_autoscaling sec of None \<Rightarrow> [] | Some a \<Rightarrow> NodeTypes a)"

definition autoscaler_for ::
  "'m memory \<Rightarrow> 'w agent_client \<Rightarrow> int \<Rightarrow> (AWSProviderConfig + GCPProviderConfig) \<times> 'w providerEntry \<Rightarrow>
   (('m, 'w) scaler_env \<times> autoscaler) list" where
  "autoscaler_for M client port se =
     (case section_autoscaling (fst se) of
        None \<Rightarrow> []
      | Some a \<Rightarrow>
          if Enabled a then
            [(\<lparr>registry = M, agentClient = client, provider = entry_provider (snd se), cfg = a, agentPort = port\<rparr>,
              \<lparr>pressureHistory = Map.empty, lastScaleUp = zero_time, lastScaleDown = zero_time\<rparr>)]
          else [])"

definition manager_for ::
  "('a, 'g, 'signer, 'conn, 'sess, 'crt, 'key, 'w) provider_libs \<Rightarrow> FluxConfig \<Rightarrow> ('crt, 'key) pki option \<Rightarrow>
   'm memory \<Rightarrow> 'w agent_client \<Rightarrow> (AWSProviderConfig + GCPProviderConfig) list \<Rightarrow> ('m, 'w) ProvidersManager \<Rightarrow> bool" where
  "manager_for PL c pk M client secs m \<longleftrightarrow>
     pm_reg m = M \<and> list_all2 (entry_for PL c pk) secs (entries m) \<and>
     scalers m = concat (map (autoscaler_for M client (AgentPort c)) (zip secs (entries m)))"

lemma go_bind_Ret: "go_bind r f = (Ret b, w') \<longleftrightarrow> (\<exists>a w. r = (Ret a, w) \<and> f a w = (Ret b, w'))"
  by (auto simp: go_bind_def split: prod.splits go_result.splits)

lemma fatal_Ret: "fatal msg r = (Ret b, w) \<longleftrightarrow> r = (Ret b, w)"
  by (auto simp: fatal_def split: prod.splits go_result.splits)

lemma cloud_names:
  "cp_Name (AWSCloud srt S L C pf c a) = ''aws''" "cp_Name (GCPCloud srt S' L C pf c' g) = ''gcp''"
  by (simp_all add: AWSCloud_def GCPCloud_def)

lemma add_provider_for:
  assumes "manager_for PL c pk M client secs m" and "provides PL c pk sec p"
  shows "manager_for PL c pk M client (secs @ [sec])
    (add_provider client (AgentPort c) p (section_autoscaling sec) m)"
proof -
  have len: "length secs = length (entries m)" using assms(1) by (auto simp: manager_for_def dest: list_all2_lengthD)
  then show ?thesis
    using assms by (cases "section_autoscaling sec")
      (auto simp: manager_for_def add_provider_def provider_entry_def entry_for_def autoscaler_for_def newAutoscaler_def
        intro!: list_all2_appendI)
qed

lemma add_aws_for:
  assumes "add_aws PL c pk client a m w = (Ret m', w')" and "manager_for PL c pk M client secs m"
  shows "manager_for PL c pk M client (secs @ (case a of None \<Rightarrow> [] | Some p \<Rightarrow> [Inl p])) m'"
proof (cases a)
  case None
  then show ?thesis using assms by (simp add: add_aws_def)
next
  case (Some p)
  then obtain x u where x: "NewAWSProvider (pl_ec2 PL) c p pk w = (Ret x, u)"
    "m' = add_provider client (AgentPort c)
      (AWSCloud (pl_sort PL) (pl_ec2 PL) (pl_ssh PL) (pl_crypto PL) (pl_platform PL) p x) (aws_Autoscaling p) m"
    using assms(1) by (auto simp: add_aws_def split: prod.splits go_result.splits)
  then have "provides PL c pk (Inl p) (AWSCloud (pl_sort PL) (pl_ec2 PL) (pl_ssh PL) (pl_crypto PL) (pl_platform PL) p x)"
    by (auto simp: provides_def)
  from add_provider_for [OF assms(2) this] show ?thesis using Some x(2) by (simp add: section_autoscaling_def)
qed

lemma add_gcp_for:
  assumes "add_gcp PL c pk client g m = Ret m'" and "manager_for PL c pk M client secs m"
  shows "manager_for PL c pk M client (secs @ (case g of None \<Rightarrow> [] | Some p \<Rightarrow> [Inr p])) m'"
proof (cases g)
  case None
  then show ?thesis using assms by (simp add: add_gcp_def)
next
  case (Some p)
  then obtain x where x: "NewGCPProvider (pl_gce PL) c p pk = Inr x"
    "m' = add_provider client (AgentPort c)
      (GCPCloud (pl_sort PL) (pl_gce PL) (pl_ssh PL) (pl_crypto PL) (pl_platform PL) p x) (gcp_Autoscaling p) m"
    using assms(1) by (auto simp: add_gcp_def split: sum.splits)
  then have "provides PL c pk (Inr p) (GCPCloud (pl_sort PL) (pl_gce PL) (pl_ssh PL) (pl_crypto PL) (pl_platform PL) p x)"
    by (auto simp: provides_def)
  from add_provider_for [OF assms(2) this] show ?thesis using Some x(2) by (simp add: section_autoscaling_def)
qed

lemma new_manager_for:
  assumes "NewProvidersManager PL c pk M client w = (Ret m, w')"
  shows "manager_for PL c pk M client (sections c) m"
proof -
  define z :: "('a, 'b) ProvidersManager" where "z = \<lparr>pm_reg = M, entries = [], scalers = []\<rparr>"
  have start: "manager_for PL c pk M client [] z" by (simp add: manager_for_def z_def)
  show ?thesis
  proof (cases "Providers c")
    case None
    then show ?thesis using assms start by (simp add: NewProvidersManager_def sections_def z_def)
  next
    case (Some ps)
    then obtain m1 w1 where "add_aws PL c pk client (AWS ps) z w = (Ret m1, w1)"
      "add_gcp PL c pk client (GCP ps) m1 = Ret m"
      using assms by (auto simp: NewProvidersManager_def z_def Let_def split: prod.splits go_result.splits)
    from add_gcp_for [OF this(2) add_aws_for [OF this(1) start]] show ?thesis
      using Some by (simp add: sections_def)
  qed
qed

lemma manager_for_scalers:
  assumes "manager_for PL c pk M client secs m" and "(env, a) \<in> set (scalers m)"
  shows "registry env = M \<and> agentClient env = client \<and> agentPort env = AgentPort c \<and> Enabled (cfg env)"
  using assms by (auto simp: manager_for_def autoscaler_for_def split: option.splits if_splits)

lemma NewRedisMemory_Ret:
  "NewRedisMemory prs mk addr = Ret M \<longleftrightarrow> (\<exists>u. prs addr = Inr u \<and> M = RedisMemory (mk u))"
  by (auto simp: NewRedisMemory_def split: sum.splits)

lemma start_main_parts:
  assumes "start_main L clock schedule n = (Ret P, w')"
  obtains c pk w1 u where "load_config L = Ret c" and "start_pki L c (NewAgentClient n) = (Ret pk, w1)"
    and "redis_ParseURL L (RedisAddr c) = Inr u" and "fluxConfig P = c"
    and "api_registry (server P) = RedisMemory (redis_NewClient L u)"
    and "api_client (server P) = AgentClient (dialler L) (pl_platform (providers L)) pk"
    and "well_wired P"
    and "api_init (server P) = Some (manager_initializer (AgentPort c) clock schedule (provMgr P))"
    and "manager_for (providers L) c pk (api_registry (server P)) (api_client (server P)) (sections c)
      ((provMgr P)\<lparr>scalers := started P\<rparr>)"
proof -
  obtain c pk w1 u pm w2 where c: "load_config L = Ret c" "start_pki L c (NewAgentClient n) = (Ret pk, w1)"
    "redis_ParseURL L (RedisAddr c) = Inr u"
    and pm: "NewProvidersManager (providers L) c pk (RedisMemory (redis_NewClient L u))
      (AgentClient (dialler L) (pl_platform (providers L)) pk) w1 = (Ret pm, w2)"
    and P: "P = \<lparr>fluxConfig = c, provMgr = pm\<lparr>scalers := []\<rparr>,
      server = \<lparr>api_registry = RedisMemory (redis_NewClient L u),
        api_client = AgentClient (dialler L) (pl_platform (providers L)) pk,
        api_init = Some (manager_initializer (AgentPort c) clock schedule (pm\<lparr>scalers := []\<rparr>)),
        api_key = APIKey c, yaml_Unmarshal = function_Unmarshal L, host = machine L\<rparr>,
      started = scalers pm\<rparr>"
    using assms unfolding start_main_def go_bind_Ret fatal_Ret Let_def pm_Start_def
    by (auto simp: NewRedisMemory_Ret)
  note m = new_manager_for [OF pm]
  have "pm_reg pm = RedisMemory (redis_NewClient L u)" using m by (simp add: manager_for_def)
  then have "well_wired P" using manager_for_scalers [OF m] unfolding P well_wired_def by fastforce
  then show ?thesis using m by (intro that [OF c]) (simp_all add: P)
qed

lemma start_main_wired: "start_main L clock schedule n = (Ret P, w) \<Longrightarrow> well_wired P"
  by (erule start_main_parts)

lemma start_main_registry:
  "start_main L clock schedule n = (Ret P, w) \<Longrightarrow> \<exists>u. api_registry (server P) = RedisMemory (redis_NewClient L u)"
  by (erule start_main_parts) blast

lemma start_main_config: "start_main L clock schedule n = (Ret P, w) \<Longrightarrow> load_config L = Ret (fluxConfig P)"
  by (erule start_main_parts) simp

lemma start_main_manager:
  assumes "start_main L clock schedule n = (Ret P, w)"
  shows "\<exists>pk w1. start_pki L (fluxConfig P) (NewAgentClient n) = (Ret pk, w1) \<and>
    api_client (server P) = AgentClient (dialler L) (pl_platform (providers L)) pk \<and>
    (pk = None \<longleftrightarrow> DisableGRPCTLS (fluxConfig P)) \<and>
    api_init (server P) = Some (manager_initializer (AgentPort (fluxConfig P)) clock schedule (provMgr P)) \<and>
    manager_for (providers L) (fluxConfig P) pk (api_registry (server P)) (api_client (server P))
      (sections (fluxConfig P)) ((provMgr P)\<lparr>scalers := started P\<rparr>)"
proof (rule start_main_parts [OF assms])
  fix c pk w1
  assume parts: "start_pki L c (NewAgentClient n) = (Ret pk, w1)" "fluxConfig P = c"
    "api_client (server P) = AgentClient (dialler L) (pl_platform (providers L)) pk"
    "api_init (server P) = Some (manager_initializer (AgentPort c) clock schedule (provMgr P))"
    "manager_for (providers L) c pk (api_registry (server P)) (api_client (server P)) (sections c)
      ((provMgr P)\<lparr>scalers := started P\<rparr>)"
  have "pk = None \<longleftrightarrow> DisableGRPCTLS (fluxConfig P)"
    using parts(1,2) by (auto simp: start_pki_def split: if_splits sum.splits prod.splits)
  with parts show ?thesis by blast
qed

section \<open>Steps\<close>

lemma wired_registry: "well_wired P \<Longrightarrow> k < length (started P) \<Longrightarrow>
    registry (fst (started P ! k)) = api_registry (server P)"
  unfolding well_wired_def by (metis nth_mem prod.collapse)

lemma serve_gone_runs:
  assumes "well_wired P" and "ServeHTTP (server P) now fresh [ClientGone] r s = Some (resp, s')"
  shows "registry_run (api_registry (server P)) (api_store s) (api_store s')"
proof -
  have "fleet_initializer (api_registry (server P)) I" if "api_init (server P) = Some I" for I
    using assms(1) that manager.fleet_initializer_axioms unfolding well_wired_def by (metis option.inject)
  from serve_runs [OF this assms(2)] show ?thesis by auto
qed

lemma cluster_step_runs:
  assumes "cluster_step P c c'" and "well_wired P" and "length (autoscalers c) = length (started P)"
  shows "registry_run (api_registry (server P)) (api_store (shared c)) (api_store (shared c')) \<and>
    length (autoscalers c') = length (started P)"
  using assms(1)
proof cases
  case (serve now fresh r hs resp s)
  then show ?thesis using assms serve_gone_runs [OF assms(2)]
    by (auto simp: withCORS_def split: if_splits)
next
  case (hold now fresh r s n args fn h)
  then show ?thesis using assms serve_gone_runs [OF assms(2)] by auto
next
  case (scale k d s now eval since stamp)
  then show ?thesis
    using assms poll_runs [of "fst (started P ! k)" "scale_view k (snd (autoscalers c ! k)) c"]
    by (simp add: wired_registry put_scale_def scale_view_def)
next
  case (work k j es now s)
  then show ?thesis using assms run_job_runs [OF work(4)]
    by (simp add: wired_registry put_scale_def scale_view_def)
qed (use assms(3) attempt_store check_runs in \<open>auto dest!: attempt_store\<close>)

section \<open>What is reachable\<close>

context memory_in_service begin

definition in_order :: "('a, 'w) program \<Rightarrow> ('a, 'w) cluster \<Rightarrow> bool" where
  "in_order P c \<longleftrightarrow>
     up (api_store (shared c)) \<and> well_stored (view (api_store (shared c))) \<and>
     list_all (\<lambda>h. func_ok (h_fn h)) (waiting c) \<and> length (autoscalers c) = length (started P)"

lemma step_in_order:
  assumes "cluster_step P c c'" and "well_wired P" and "api_registry (server P) = M" and "in_order P c"
  shows "in_order P c'"
proof -
  have len: "length (autoscalers c) = length (started P)" using assms(4) by (simp add: in_order_def)
  have store: "up (api_store (shared c'))" "well_stored (view (api_store (shared c')))"
    "length (autoscalers c') = length (started P)"
    using cluster_step_runs [OF assms(1,2) len] run_well_stored assms(3,4) by (auto simp: in_order_def)
  have "list_all (\<lambda>h. func_ok (h_fn h)) (waiting c')" using assms(1)
  proof cases
    case (hold now fresh r s n args fn h)
    then have "func_ok fn"
      using assms(3,4) reg_get_function_up by (auto simp: in_order_def well_stored_def)
    then show ?thesis using hold assms(4) by (simp add: in_order_def)
  qed (use assms(4) in \<open>auto simp: in_order_def list_all_iff put_scale_def dest: notin_set_remove1 set_remove1_subset [THEN subsetD]\<close>)
  with store show ?thesis by (simp add: in_order_def)
qed

lemma reachable_in_order:
  assumes "reachable P m w c" and "well_wired P" and "api_registry (server P) = M"
    and "up m" and "well_stored (view m)"
  shows "in_order P c"
  using assms(1) unfolding reachable_def
proof induction
  case base
  then show ?case using assms by (simp add: in_order_def start_cluster_def)
qed (use step_in_order assms(2,3) in blast)

end

text \<open>A started program on a Redis in service, in any state it reaches.\<close>

lemma reachable_up:
  assumes "start_main L clock schedule n = (Ret P, w)" and "\<And>u. redis_in_service (redis_NewClient L u) kv live"
    and "live m" and "decodable (kv m)" and "well_stored (redis_view (kv m))" and "reachable P m w c"
  obtains M where "api_registry (server P) = M"
    and "memory_in_service M (\<lambda>s. redis_view (kv s)) (\<lambda>s. live s \<and> decodable (kv s))"
    and "live (api_store (shared c)) \<and> decodable (kv (api_store (shared c)))"
    and "well_stored (redis_view (kv (api_store (shared c))))"
    and "list_all (\<lambda>h. func_ok (h_fn h)) (waiting c)"
proof -
  obtain u where reg: "api_registry (server P) = RedisMemory (redis_NewClient L u)"
    using start_main_registry [OF assms(1)] by blast
  note serv = redis_in_service.redis_memory_in_service [OF assms(2) [of u]]
  have "memory_in_service.in_order (\<lambda>s. redis_view (kv s)) (\<lambda>s. live s \<and> decodable (kv s)) P c"
    using memory_in_service.reachable_in_order [OF serv assms(6) start_main_wired [OF assms(1)] reg] assms(3-5)
    by simp
  with that [OF reg serv] show ?thesis by (simp add: memory_in_service.in_order_def [OF serv])
qed

section \<open>A small program\<close>

text \<open>
  The libraries of a program with one AWS fleet: EC2 and Compute Engine of \<open>Cloud_Claims\<close>, carried
  over to a world that also holds the agent client's connections.
\<close>

definition on_net :: "('w \<Rightarrow> 'a \<times> 'w) \<Rightarrow> ('c, 'w) client_state \<Rightarrow> 'a \<times> ('c, 'w) client_state" where
  "on_net f s = (case f (net s) of (a, n) \<Rightarrow> (a, s\<lparr>net := n\<rparr>))"

definition lab_ec2 :: "(unit, (string, string list) client_state) ec2_sdk" where
  "lab_ec2 =
     \<lparr>LoadDefaultConfig = LoadDefaultConfig (list_ec2 [IpTick]),
      RunInstances = (\<lambda>c i. on_net (RunInstances (list_ec2 [IpTick]) c i)),
      DescribeInstances = (\<lambda>c i. on_net (DescribeInstances (list_ec2 [IpTick]) c i)),
      TerminateInstances = (\<lambda>c i. on_net (TerminateInstances (list_ec2 [IpTick]) c i)),
      ImportKeyPair = (\<lambda>c name key. on_net (ImportKeyPair (list_ec2 [IpTick]) c name key)),
      NewString = on_net (NewString (list_ec2 [IpTick])), ip_waits = (\<lambda>s. [IpTick])\<rparr>"

definition lab_gce :: "(unit, (string, string list) client_state) gce_sdk" where
  "lab_gce =
     \<lparr>NewService = NewService list_gce,
      instances_Insert = (\<lambda>c p z i. on_net (instances_Insert list_gce c p z i)),
      instances_Delete = (\<lambda>c p z i. on_net (instances_Delete list_gce c p z i)),
      instances_Get = (\<lambda>c p z i. on_net (instances_Get list_gce c p z i)),
      zoneOps_Wait = (\<lambda>c p z i. on_net (zoneOps_Wait list_gce c p z i)),
      gce_NewString = on_net (gce_NewString list_gce), gce_polls = (\<lambda>s. 1), gce_ip_waits = (\<lambda>s. [IpTick])\<rparr>"

definition lab_config :: FluxConfig where
  "lab_config =
     sample_config\<lparr>APIKey := ''key'', RedisAddr := ''redis://localhost:6379'', CertsDir := ''/c'',
       Providers := Some \<lparr>AWS = Some sample_aws, GCP = None\<rparr>\<rparr>"

definition lab_libs ::
  "(string, (string \<times> bytes) list, unit, string, unit, unit, unit, unit, unit, string, nat, string list) program_libs" where
  "lab_libs =
     \<lparr>config_ReadFile = (\<lambda>_. Inr ''flux''), config_Unmarshal = (\<lambda>_. Inr lab_config),
      redis_ParseURL = strict_ParseURL, redis_NewClient = (\<lambda>_. alist_redis), dialler = echo_grpc,
      providers =
        \<lparr>pl_sort = insertion_sort, pl_ec2 = lab_ec2, pl_gce = lab_gce, pl_ssh = silent_shell,
         pl_crypto = node_crypto, pl_platform = linux\<rparr>,
      function_Unmarshal = (\<lambda>_. Inr lab_yaml),
      machine = \<lparr>cpu_Percent = [], VirtualMemory = None, Uptime = 0\<rparr>\<rparr>"

definition lab_loaded :: FluxConfig where
  "lab_loaded =
     lab_config\<lparr>AgentPort := 50052, Providers := Some \<lparr>AWS = Some (sample_aws\<lparr>aws_SSHUser := ''ec2-user'',
       aws_Autoscaling := Some (applyAutoscaleDefaults sample_autoscale)\<rparr>), GCP = None\<rparr>\<rparr>"

lemma lab_load: "load_config lab_libs = Ret lab_loaded"
  by (simp add: load_config_def lab_libs_def Load_def parse_def check_config_def lab_config_def sample_config_def
      parse_providers_def parse_aws_def sample_aws_def Let_def config_Get_def sample_autoscale_def sample_types_def
      lab_loaded_def)

lemma lab_pki: "\<exists>p. start_pki lab_libs lab_loaded w = (Ret (Some p), w)"
  by (simp add: start_pki_def lab_libs_def lab_loaded_def lab_config_def sample_config_def New_def andthen_def
      wrapped_def node_crypto_def initCA_def fileExists_def writeFile_def writeECKey_def pemEncodeCert_def
      randomSerial_def initFluxCert_def initSSHKey_def generateLeaf_def Let_def ca_template_def leaf_template_def)

lemma lab_start: "\<exists>P. start_main lab_libs clock schedule [] = (Ret P, NewAgentClient [])"
proof -
  obtain p where p: "start_pki lab_libs lab_loaded (NewAgentClient []) = (Ret (Some p), NewAgentClient [])"
    using lab_pki by blast
  show ?thesis
    by (simp add: start_main_def go_bind_def lab_load p fatal_def)
      (simp add: lab_libs_def NewRedisMemory_def strict_ParseURL_def lab_loaded_def lab_config_def
        NewProvidersManager_def add_aws_def add_gcp_def NewAWSProvider_def importSSHKey_def lab_ec2_def list_ec2_def
        on_net_def pm_Start_def sample_config_def sample_aws_def NewAgentClient_def Let_def)
qed

lemma lab_program:
  assumes "start_main lab_libs clock schedule [] = (Ret P, w)"
  shows "fluxConfig P = lab_loaded" and "api_key (server P) = ''key''"
proof -
  show c: "fluxConfig P = lab_loaded" using start_main_config [OF assms] lab_load by simp
  show "api_key (server P) = ''key''"
    using start_main_wired [OF assms] by (simp add: well_wired_def c) (simp add: lab_loaded_def lab_config_def)
qed

section \<open>Properties\<close>

text \<open>
  C27. A program that reaches its listener has loaded its configuration; its server checks the key of
  that file; its agent client has a PKI unless the file disables TLS; its fleet operations are those
  of the manager.  The manager has one entry for each provider section of the file, AWS first: the
  provider built from that section, with the minimum and the node types of its autoscaling.  The
  autoscalers running are exactly those of the sections whose autoscaling is enabled, each on its
  entry's provider with its section's settings, the store, the client and the port of the server,
  with an empty history; the manager has let them go.
\<close>

theorem startup_wiring:
  assumes "start_main L clock schedule n = (Ret P, w)"
  shows "load_config L = Ret (fluxConfig P) \<and> api_key (server P) = APIKey (fluxConfig P) \<and>
    (\<exists>pk w1. start_pki L (fluxConfig P) (NewAgentClient n) = (Ret pk, w1) \<and>
       api_client (server P) = AgentClient (dialler L) (pl_platform (providers L)) pk \<and>
       (pk = None \<longleftrightarrow> DisableGRPCTLS (fluxConfig P)) \<and>
       list_all2 (entry_for (providers L) (fluxConfig P) pk) (sections (fluxConfig P)) (entries (provMgr P))) \<and>
    api_init (server P) = Some (manager_initializer (AgentPort (fluxConfig P)) clock schedule (provMgr P)) \<and>
    pm_reg (provMgr P) = api_registry (server P) \<and> scalers (provMgr P) = [] \<and>
    started P = concat (map (autoscaler_for (api_registry (server P)) (api_client (server P)) (AgentPort (fluxConfig P)))
      (zip (sections (fluxConfig P)) (entries (provMgr P))))"
  using start_main_config [OF assms] start_main_manager [OF assms] start_main_wired [OF assms]
  by (auto simp: well_wired_def manager_for_def)

theorem startup_wiring_witness:
  "\<exists>P w. start_main lab_libs (\<lambda>_. 0) [] [] = (Ret P, w) \<and> api_key (server P) = ''key'' \<and>
     map (\<lambda>e. cp_Name (entry_provider e)) (entries (provMgr P)) = [''aws''] \<and>
     map (\<lambda>(env, a). (cp_Name (provider env), cfg env)) (started P) =
       [(''aws'', applyAutoscaleDefaults sample_autoscale)]"
proof -
  obtain P w where P: "start_main lab_libs (\<lambda>_. 0) [] [] = (Ret P, w)" using lab_start by blast
  let ?aws = "sample_aws\<lparr>aws_SSHUser := ''ec2-user'', aws_Autoscaling := Some (applyAutoscaleDefaults sample_autoscale)\<rparr>"
  have secs: "sections lab_loaded = [Inl ?aws]" by (simp add: sections_def lab_loaded_def)
  have enabled: "Enabled (applyAutoscaleDefaults sample_autoscale)" by (simp add: sample_autoscale_def)
  obtain pk e where e: "entries (provMgr P) = [e]" "entry_for (providers lab_libs) lab_loaded pk (Inl ?aws) e"
    and st: "started P = concat (map (autoscaler_for (api_registry (server P)) (api_client (server P))
      (AgentPort lab_loaded)) (zip [Inl ?aws] [e]))"
    using startup_wiring [OF P] unfolding lab_program(1) [OF P] secs
    by (auto simp: list_all2_Cons1)
  have name: "cp_Name (entry_provider e) = ''aws''"
    using e(2) by (auto simp: entry_for_def provides_def cloud_names)
  show ?thesis
    using P lab_program(2) [OF P] e(1) st name enabled
    by (intro exI [of _ P] exI [of _ w]) (simp add: autoscaler_for_def section_autoscaling_def)
qed

text \<open>
  C3. Whatever requests, ticks, checks, polls and jobs a program goes through, in whatever order, on a
  store that answers: every stored function has a name, a handler, a concurrency limit
  that is not zero and two behaviours that are \<open>wait\<close> or \<open>exit\<close>, every record is under its own
  key, no agent is ever busy, and the functions whose executions wait are of the same form.
\<close>

theorem program_stays_well_typed:
  assumes "start_main L clock schedule n = (Ret P, w)" and "\<And>u. redis_in_service (redis_NewClient L u) kv live"
    and "live m" and "decodable (kv m)" and "well_stored (redis_view (kv m))" and "reachable P m w c"
  shows "live (api_store (shared c)) \<and> well_stored (redis_view (kv (api_store (shared c)))) \<and>
    list_all (\<lambda>h. func_ok (h_fn h)) (waiting c)"
  by (rule reachable_up [OF assms]) simp

lemma lab_empty: "well_stored (redis_view Map.empty)" "decodable Map.empty"
  by (simp_all add: well_stored_def keyed_def redis_view_def decodable_empty)

theorem program_stays_well_typed_witness:
  "\<exists>P w c hs resp. start_main lab_libs (\<lambda>_. 0) [] [] = (Ret P, w) \<and> reachable P [] w c \<and>
     withCORS (ServeHTTP (server P) 0 ''0'' [ClientGone]) (lab_request ''PUT'' ''/functions'' (RawBytes []))
       (shared (start_cluster P [] w)) = Some (hs, resp, shared c) \<and>
     well_stored (redis_view (map_of (api_store (shared c))))"
proof -
  obtain P w where P: "start_main lab_libs (\<lambda>_. 0) [] [] = (Ret P, w)" using lab_start by blast
  let ?r = "lab_request ''PUT'' ''/functions'' (RawBytes [])"
  let ?c = "start_cluster P [] w"
  obtain resp s where h: "handleRegisterFunction (server P) ?r (shared ?c) = (resp, s)" by fastforce
  have "authenticate (server P) ?r" using lab_program(2) [OF P] by (simp add: authenticate_def lab_request_def Let_def)
  then have r: "withCORS (ServeHTTP (server P) 0 ''0'' [ClientGone]) ?r (shared ?c) = Some (cors_headers, resp, s)"
    using h by (simp add: withCORS_def ServeHTTP_def Let_def)
  have c: "reachable P [] w (?c\<lparr>shared := s\<rparr>)"
    unfolding reachable_def using cluster_step.serve [OF r] by blast
  have "redis_in_service (redis_NewClient lab_libs u) map_of (\<lambda>_. True)" for u
    using alist.redis_in_service_axioms by (simp add: lab_libs_def)
  from program_stays_well_typed [OF P this _ _ _ c] r c P show ?thesis
    by (intro exI [of _ P] exI [of _ w] exI [of _ "?c\<lparr>shared := s\<rparr>"] exI [of _ cors_headers] exI [of _ resp])
      (simp add: lab_empty)
qed

text \<open>The record of an agent that was offline, once its report is stored.\<close>

definition recovered :: "node_status \<Rightarrow> agent \<Rightarrow> agent" where
  "recovered st a =
     a\<lparr>NodeStatus := Some st, ActiveCount := ActiveTasks st, LastHeartbeat := CollectedAt st, Status := AgentOnline\<rparr>"

context memory_in_service begin

lemma check_recovers:
  assumes "up (api_store s)" and "keyed (view (api_store s))" and "api_registry E = M"
    and "v_agents (view (api_store s)) i = Some a" and "Status a = AgentOffline"
    and "HealthCheckOn (api_client E) a (api_world s) = (None, u)"
    and "GetNodeStatusOf (api_client E) a u = (Inr st, u')" and "agent_json_ok (recovered st a)"
  shows "v_agents (view (api_store (checkAgentHealth E a s))) i = Some (recovered st a) \<and>
    (i, Address a) \<in> set (syncs (checkAgentHealth E a s))"
proof -
  have i: "ID a = i" using assms(2,4) by (simp add: keyed_def)
  have "status_of st a = Some (recovered st a)" "ID (recovered st a) = i"
    using assms(5) i by (simp_all add: status_of_def promoted_def recovered_def)
  then have "v_agents (modify_view i (status_of st) (view (api_store s))) i = Some (recovered st a)"
    using assms(4,8) by (simp add: modify_view_def put_agent_def)
  then show ?thesis
    using assms i modify_agent_up [OF assms(1), of i "status_of st"]
    by (simp add: checkAgentHealth_def modify_agent_forms)
qed

end

text \<open>
  C21. An agent that is offline in the store is brought back by two steps of the health poller, if it
  answers: the tick reads it, the check stores its report, marks it online and leaves a
  synchronisation of the functions to its address.
\<close>

theorem offline_agent_recovers:
  assumes "start_main L clock schedule n = (Ret P, w)" and "\<And>u. redis_in_service (redis_NewClient L u) kv live"
    and "live m" and "decodable (kv m)" and "well_stored (redis_view (kv m))" and "reachable P m w c"
    and "v_agents (redis_view (kv (api_store (shared c)))) i = Some a" and "Status a = AgentOffline"
    and "HealthCheckOn (api_client (server P)) a (api_world (shared c)) = (None, u)"
    and "GetNodeStatusOf (api_client (server P)) a u = (Inr st, u')" and "agent_json_ok (recovered st a)"
  shows "\<exists>c1 c2. cluster_step P c c1 \<and> cluster_step P c1 c2 \<and>
    v_agents (redis_view (kv (api_store (shared c2)))) i = Some (recovered st a) \<and>
    (i, Address a) \<in> set (syncs (shared c2))"
proof -
  obtain M where reg: "api_registry (server P) = M"
    and serv: "memory_in_service M (\<lambda>s. redis_view (kv s)) (\<lambda>s. live s \<and> decodable (kv s))"
    and up: "live (api_store (shared c)) \<and> decodable (kv (api_store (shared c)))"
    and well: "well_stored (redis_view (kv (api_store (shared c))))"
    by (rule reachable_up [OF assms(1-6)])
  let ?c = "c\<lparr>checks := checks c @ health_tick (server P) (api_store (shared c))\<rparr>"
  have "a \<in> set (checks ?c)"
    using enumerates_set [OF memory_in_service.reg_get_all_up [OF serv up]] assms(7) reg
    by (auto simp: health_tick_def ran_def)
  then have check: "cluster_step P ?c (?c\<lparr>shared := checkAgentHealth (server P) a (shared ?c),
      checks := remove1 a (checks ?c)\<rparr>)" (is "cluster_step P ?c ?d") by (rule cluster_step.check)
  have "shared ?d = checkAgentHealth (server P) a (shared c)" by simp
  with memory_in_service.check_recovers [OF serv up well_stored_keyed [OF well] reg assms(7-11)]
  have "v_agents (redis_view (kv (api_store (shared ?d)))) i = Some (recovered st a) \<and>
      (i, Address a) \<in> set (syncs (shared ?d))" by (simp only:)
  with cluster_step.tick check show ?thesis by (intro exI [of _ ?c] exI [of _ ?d] conjI) simp_all
qed

lemma lab_redis: "redis_in_service (redis_NewClient lab_libs u) map_of (\<lambda>_. True)"
  using alist.redis_in_service_axioms by (simp add: lab_libs_def)

lemma reachable_start: "reachable P m w (start_cluster P m w)"
  by (simp add: reachable_def)

lemma echo_answers:
  "fst (HealthCheckOn (AgentClient echo_grpc pf pk) a s) = None"
  "\<exists>i. fst (GetNodeStatusOf (AgentClient echo_grpc pf pk) a s) =
     Inr \<lparr>ns_AgentID = i, CPUPercent = Fin 10, MemPercent = Fin 20, MemTotalMB = 8192,
       MemUsedMB = 1024, ActiveTasks = 0, UptimeSec = 60, CollectedAt = 0\<rparr>"
  by (auto simp: AgentClient_def client_HealthCheck_def client_GetNodeStatus_def with_client_def get_client_def
      client_creds_def loadTLSCredentials_def echo_grpc_def echo_report_def split: option.split)

theorem offline_agent_recovers_witness:
  "\<exists>P c. start_main lab_libs (\<lambda>_. 0) [] [] = (Ret P, NewAgentClient []) \<and>
     reachable P (lab_store [lab_agent ''a1'' AgentOffline]) (NewAgentClient []) c \<and>
     map_option Status (v_agents (redis_view (map_of (api_store (shared c)))) ''a1'') = Some AgentOnline \<and>
     syncs (shared c) \<noteq> []"
proof -
  obtain P where P: "start_main lab_libs (\<lambda>_. 0) [] [] = (Ret P, NewAgentClient [])" using lab_start by blast
  let ?m = "lab_store [lab_agent ''a1'' AgentOffline]" and ?w = "NewAgentClient [] :: (string, string list) client_state"
  let ?a = "lab_agent ''a1'' AgentOffline" and ?c = "start_cluster P ?m ?w"
  obtain pk where client: "api_client (server P) = AgentClient echo_grpc linux (pk :: (string, nat) pki option)"
    using start_main_manager [OF P] by (auto simp: lab_libs_def)
  obtain u where h: "HealthCheckOn (api_client (server P)) ?a (api_world (shared ?c)) = (None, u)"
    using echo_answers(1) unfolding client by (metis prod.collapse)
  obtain st u' ag where g: "GetNodeStatusOf (api_client (server P)) ?a u = (Inr st, u')"
    and st: "st = \<lparr>ns_AgentID = ag, CPUPercent = Fin 10, MemPercent = Fin 20, MemTotalMB = 8192,
      MemUsedMB = 1024, ActiveTasks = 0, UptimeSec = 60, CollectedAt = 0\<rparr>"
    using echo_answers(2) unfolding client by (metis prod.collapse)
  have json: "agent_json_ok (recovered st ?a)"
    by (simp add: agent_json_ok_def recovered_def st time_json_ok_def)
  have "v_agents (redis_view (map_of (api_store (shared ?c)))) ''a1'' = Some ?a"
    by (simp add: start_cluster_def lab_stored)
  from offline_agent_recovers [OF P lab_redis TrueI lab_stored(2) lab_well reachable_start this _ h g json]
  obtain c1 c2 where s: "cluster_step P ?c c1" "cluster_step P c1 c2"
    "v_agents (redis_view (map_of (api_store (shared c2)))) ''a1'' = Some (recovered st ?a)"
    "(''a1'', Address ?a) \<in> set (syncs (shared c2))" by auto
  have "reachable P ?m ?w c2" using s(1,2) unfolding reachable_def by auto
  with P s(3,4) show ?thesis by (intro exI [of _ P] exI [of _ c2]) (auto simp: recovered_def)
qed

text \<open>
  C22. Taking the nodes down empties the store whatever the schedule: not only the agents the providers
  run, also those registered by hand, every function, every code archive and every execution.
\<close>

theorem cleanup_empties_store:
  assumes "start_main L clock schedule n = (Ret P, w)" and "\<And>u. redis_in_service (redis_NewClient L u) kv live"
    and "live m" and "decodable (kv m)" and "well_stored (redis_view (kv m))" and "reachable P m w c"
    and "authenticate (server P) r" and "Method r = ''DELETE''" and "URLPath r = ''/nodes''"
  shows "\<exists>k s. ServeHTTP (server P) now fresh ev r (shared c) =
      Some (Reply 200 (Some (JObj [(''removed'', JInt k), (''status'', JStr ''removed'')])), s) \<and>
    redis_view (kv (api_store s)) = empty_view"
proof -
  obtain M where reg: "api_registry (server P) = M"
    and serv: "memory_in_service M (\<lambda>s. redis_view (kv s)) (\<lambda>s. live s \<and> decodable (kv s))"
    and up: "live (api_store (shared c)) \<and> decodable (kv (api_store (shared c)))"
    by (rule reachable_up [OF assms(1-6)])
  obtain ck sch where init: "api_init (server P) =
      Some (manager_initializer (AgentPort (fluxConfig P)) ck sch (provMgr P))" "pm_reg (provMgr P) = api_registry (server P)"
    using start_main_wired [OF assms(1)] by (auto simp: well_wired_def)
  obtain k m1 w1 where t: "pm_TerminateNodes sch (provMgr P) (api_store (shared c), api_world (shared c)) = (k, m1, w1)"
    by (metis prod.exhaust)
  have "live m1 \<and> decodable (kv m1)"
    using memory_in_service.terminate_up [OF serv up, of "provMgr P" sch "api_world (shared c)"] init reg t by simp
  from memory_in_service.flush_up [OF serv this] show ?thesis
    using assms(7-9) init t reg
    by (simp add: ServeHTTP_def Let_def handleCleanupNodes_def manager_initializer_def HasPrefix_def)
qed

theorem cleanup_empties_store_witness:
  "\<exists>P s k. start_main lab_libs (\<lambda>_. 0) [] [] = (Ret P, NewAgentClient []) \<and>
     ServeHTTP (server P) 0 [] [] (lab_request ''DELETE'' ''/nodes'' (RawBytes []))
       (shared (start_cluster P (lab_store [lab_agent ''manual'' AgentOnline]) (NewAgentClient []))) =
       Some (Reply 200 (Some (JObj [(''removed'', JInt k), (''status'', JStr ''removed'')])), s) \<and>
     redis_view (map_of (api_store s)) = empty_view"
proof -
  obtain P where P: "start_main lab_libs (\<lambda>_. 0) [] [] = (Ret P, NewAgentClient [])" using lab_start by blast
  let ?r = "lab_request ''DELETE'' ''/nodes'' (RawBytes [])"
  have auth: "authenticate (server P) ?r"
    using lab_program(2) [OF P] by (simp add: authenticate_def lab_request_def Let_def)
  have well: "well_stored (redis_view (map_of (lab_store [lab_agent ''manual'' AgentOnline])))"
    by (rule lab_well) simp
  from cleanup_empties_store [OF P lab_redis TrueI lab_stored(2) well reachable_start auth, of 0 "[]" "[]"]
  show ?thesis using P by auto
qed

section \<open>What goes wrong\<close>

text \<open>
  An autoscaler's poll that finds an offline agent answering marks it online and leaves no
  synchronisation; the health poller, which only looks at offline agents, then never leaves one.
\<close>

lemma poll_hides_recovery:
  assumes "memory_in_service (registry E) view up" and "up (store s)" and "keyed (view (store s))"
    and "v_agents (view (store s)) i = Some a" and "Status a = AgentOffline"
    and "GetNodeStatusOf (agentClient E) a (world s) = (Inr st, u)" and "agent_json_ok (recovered st a)"
  shows "v_agents (view (store (poll_agent E now a s))) i = Some (recovered st a) \<and>
    syncs (checkAgentHealth F (recovered st a) t) = syncs t"
proof -
  have "ID a = i" "status_of st a = Some (recovered st a)" "ID (recovered st a) = ID a"
    using assms(3-5) by (simp_all add: keyed_def status_of_def promoted_def recovered_def)
  then have "v_agents (view (store (poll_agent E now a s))) i = Some (recovered st a)"
    using assms(4-7) memory_in_service.modify_agent_up [OF assms(1,2), of i "status_of st"]
    by (simp add: poll_agent_def Let_def modify_agent_forms modify_view_def put_agent_def)
  moreover have "syncs (checkAgentHealth F (recovered st a) t) = syncs t"
    by (simp add: checkAgentHealth_def recovered_def split: option.split prod.split)
  ultimately show ?thesis ..
qed

text \<open>
  With TLS disabled and an AWS section there is no program: \<open>NewAWSProvider\<close> imports the SSH key of a
  PKI that was never made.
\<close>

lemma tls_disabled_aws_panics:
  assumes "load_config L = Ret c" and "DisableGRPCTLS c" and "redis_ParseURL L (RedisAddr c) = Inr u"
    and "Providers c = Some ps" and "AWS ps = Some p"
    and "LoadDefaultConfig (pl_ec2 (providers L)) (Region p)
      (if AccessKeyID p \<noteq> [] \<and> SecretAccessKey p \<noteq> [] then Some (AccessKeyID p, SecretAccessKey p) else None) = Inr cl"
  shows "fst (start_main L clock schedule n) = Panic ''nil pointer dereference''"
  using assms
  by (simp add: start_main_def go_bind_def start_pki_def NewRedisMemory_def fatal_def NewProvidersManager_def
      add_aws_def NewAWSProvider_def importSSHKey_def Let_def)

end
