(* ===== verification/Spec2Isabelle.thy ===== *)
theory Spec2Isabelle imports Autoscaler_Claims Api_Registration Pki_Claims Bootstrap_Claims Cluster_Claims begin

text \<open>
  Serverless Flux: the control plane (\<open>main.go\<close> and \<open>pkg/\<close>), modelled and verified.

  The program.  Flux keeps a registry of agents and functions in Redis (\<open>pkg/memory\<close>,
  \<open>pkg/registry\<close>), serves an HTTP API that registers functions and routes executions to agents over
  gRPC (\<open>pkg/api\<close>, \<open>pkg/client\<close>), runs its own certificate authority (\<open>pkg/pki\<close>), and launches,
  bootstraps, scales and takes down nodes at two clouds (\<open>pkg/resource\<close>).  \<open>main.go\<close> puts the parts
  together: the HTTP handlers, one autoscaler per provider and the health poller run side by side
  and meet in the store.

  The theories, each with the part of \<open>src/\<close> it models:
  \<^item> \<open>Flux_Prelude\<close>, \<open>Go_Float\<close>: what the components share.  Go's results (\<open>go_result\<close>: a value, an
    error or a panic), the shape of JSON documents, instants and durations as integers of
    nanoseconds, the fixed-width integers, and \<open>float64\<close> with its special values, rounding to 53
    bits.
  \<^item> \<open>Models\<close> (\<open>pkg/models/models.go\<close>), \<open>Json_Codec\<close>: the records and the three ranking methods
    \<open>CanFit\<close>, \<open>Pressure\<close>, \<open>AvailableScore\<close>; how the records are written to and read from the store.
  \<^item> \<open>Memory\<close>, \<open>Redis_Memory\<close> (\<open>pkg/memory\<close>): the interface as a record of operations with the locales
    \<open>memory_contract\<close> and \<open>memory_in_service\<close>; its implementation over a Redis client, whose
    documented behaviour is \<open>redis_server\<close> and \<open>redis_in_service\<close>; \<open>alist_redis\<close> is an instance.
  \<^item> \<open>Registry\<close>, \<open>Registry_Runs\<close> (\<open>pkg/registry/registry.go\<close>): the operations, and sequences of them,
    which refine \<open>view_step\<close> on the four maps a store represents; \<open>status_move\<close> is the life of a record.
    \<open>Registry_Races\<close> takes the operations that read and then write apart (\<open>race_step\<close>).
  \<^item> \<open>Config\<close> (\<open>pkg/config/config.go\<close>), \<open>Instance_Catalog\<close>, \<open>Cloud_Provider\<close> (\<open>instance_catalog.go\<close>,
    \<open>provider.go\<close>): parsing and defaults; the choice of an instance type over any \<open>sort.Slice\<close>; the
    interface of a cloud and its contract \<open>cloud_contract\<close>.
  \<^item> \<open>Agent_Client\<close> (\<open>pkg/client/agent.go\<close>): the cached connections, their credentials, the seven calls.
  \<^item> \<open>Autoscaler\<close>, \<open>Autoscaler_Safety\<close>, \<open>Autoscaler_Claims\<close> (\<open>pkg/resource/scaler.go\<close>): a poll, the
    decision, launching, draining, replacing, and the background jobs they leave.
  \<^item> \<open>Pki\<close>, \<open>Pki_Claims\<close> (\<open>pkg/pki/pki.go\<close>): the authority, the client certificate, the SSH key and the
    agents' certificates on disk; \<open>crypto_contract\<close> is what the model asks of Go's libraries.
  \<^item> \<open>Ssh_Bootstrap\<close>, \<open>Bootstrap_Claims\<close> (\<open>bootstrap.go\<close>), \<open>Aws_Provider\<close>, \<open>Gcp_Provider\<close>, \<open>Cloud_Claims\<close>
    (\<open>aws.go\<close>, \<open>gcp.go\<close>): the commands a new node gets and the two clouds, each shown to meet
    \<open>cloud_contract\<close> given what its API documents (\<open>ec2_contract\<close>, \<open>gce_contract\<close>).
  \<^item> \<open>Providers_Manager\<close>, \<open>Manager_Claims\<close> (\<open>providers_manager.go\<close>): bringing the fleet up and taking it
    down, with the goroutines interleaved by an arbitrary schedule.
  \<^item> \<open>Api_Types\<close>, \<open>Api_Server\<close>, \<open>Api_Claims\<close>, \<open>Api_Registration\<close> (\<open>pkg/api/handlers.go\<close>): requests and
    responses, every handler, routing.
  \<^item> \<open>Flux_Main\<close>, \<open>Cluster_Claims\<close> (\<open>main.go\<close>): the start-up, the CORS wrapper, the health poller, and the
    running program as the step relation \<open>cluster_step\<close>.

  How state is modelled.  A component's operations take and return its state: the registry the store
  \<open>'m\<close>, the client and the clouds the outside world \<open>'w\<close>.  Libraries are records of functions over
  that world, with what the code relies on as the assumptions of a locale; each such locale is
  interpreted on a concrete library, which also serves the witnesses.  Times the code reads from
  the clock are arguments.  The Go \<open>go\<close> statements become pending jobs in the state; \<open>cluster_step\<close>
  runs one of them, one request, one tick or one poll at a time, in any order.

  What is shown.  The store: any Redis client that behaves as documented implements the interface,
  and runs of registry operations refine maps.  The autoscaler: when it decides, which node it
  takes, that a poll respects the maximum and the cooldowns, that drains end.  The API: who gets in,
  which agent an execution goes to, what each registration and deployment leaves and reports.  The clouds and the PKI: the
  contracts the other parts rest on, what a restart finds, which commands a node ran.  The fleet:
  that taking it down is independent of the schedule and bringing it up stays within its bounds.
  The whole: a program that starts runs the
  providers and autoscalers its configuration asks for, every state it can reach is well typed,
  and an offline agent that answers can always be brought back.  A last group in several theories proves what goes wrong: decisions that
  need a sample from one short interval, fleets past their maximum or below their minimum, instances nobody
  remembers, a draining that is lost, defaults that panic.

  Bounds.  Loops that wait are driven by a list of events: \<open>drain_event\<close> for the drain of a node,
  \<open>wait_event\<close> for an execution, \<open>ip_wait\<close> and \<open>dial_pauses\<close> for the waits of a launch and of a first
  connection, \<open>gce_polls\<close> for an operation.  An event list that runs out before its deadline is the
  value \<open>None\<close> (drains, executions), or the deadline itself where the code has one.  That the loops
  end is proved from the deadline or from the client going away.  A schedule of goroutines may be any
  list: \<open>drain_schedule\<close> runs what it leaves over, three turns a task, which is as many as a task has.

  Not modelled.  Logging and the texts of some errors beyond their constant parts.  The generated
  code under \<open>proto/\<close> but for its messages.  The libraries themselves: Redis, gRPC, the cloud SDKs,
  SSH, X.509, YAML, \<open>gopsutil\<close> are parameters.  Interleavings inside one poll or one
  handler in \<open>cluster_step\<close>: each is a step, except that an execution gives way between two attempts;
  what the halves of registry operations do to each other is the subject of \<open>Registry_Races\<close>.  A program without PKI is modelled up to its
  panic; a GCP launch without PKI, which panics, is an error result.  The polling of a Compute Engine
  operation, which the code never gives up, ends after \<open>gce_polls\<close> with an error.
  Signal handling and the listener.
\<close>

end
